theory Spec2Isabelle
  imports Main "HOL-Library.Word" "HOL-Library.AList"
begin

unbundle bit_operations_syntax

section \<open>Host values\<close>

text \<open>
  The engine works on values of the host language.  Errors raised by the code
  (\<^verbatim>\<open>throw new Error(...)\<close>, \<^verbatim>\<open>TypeError\<close>, \<^verbatim>\<open>TokenizingError\<close>) are values of
  \<open>error\<close>; a function that may throw returns \<open>error + 'a\<close>.  \<open>Unmodelled\<close> marks
  host behaviour outside the fragment embedded here (numbers that are no
  integers, coercion of objects through user code); no theorem below rests on an
  \<open>Unmodelled\<close> result.
\<close>

datatype error =
    Error string
  | TypeError string
  | TokenizingError string
  | Unmodelled string

text \<open>\<^verbatim>\<open>FunctionType\<close> of \<^verbatim>\<open>src/utils/index.ts\<close>.\<close>

datatype FunctionType = FnNormal | FnArrow | FnMethod

text \<open>The six functions that \<^verbatim>\<open>Rop.overloadDefaults\<close> installs.\<close>

datatype builtin = ArrayAdd | ArrayIndexing | ArraySlicing | StringMul | SetAdd | SetSub

text \<open>
  The code of a callable: a function of the host program (its syntactic kind, which
  \<^verbatim>\<open>detectFunctionType\<close> reads off the function, and an identifier), one of the
  built-in overloads, or the receiver-bound wrapper that \<^verbatim>\<open>Rop.setOverload\<close> builds
  around an arrow function.
\<close>

datatype code =
    Host FunctionType nat
  | Builtin builtin
  | Adapter code

text \<open>
  Property keys are strings or operation symbols; \<^verbatim>\<open>Operations.symbol(name)\<close> is
  one symbol per operation name, written \<open>KSym name\<close>.
\<close>

datatype key = KStr string | KSym string

text \<open>
  Values.  Numbers are the integers (\<open>VNum\<close>); any other number is carried by its
  canonical text (\<open>VNumOther ''NaN''\<close>).  The numbers of the host are IEEE 754
  doubles: every integer of magnitude up to \<open>2^53\<close> is one, a larger integer only
  when it is a multiple of the spacing of the doubles around it (see \<open>double\<close>
  below).  An object has an identity, an optional
  code (it is a function when it has one), its own properties and its prototype;
  the prototype chain is part of the term, so walking it terminates.  Arrays, sets
  and the \<^verbatim>\<open>Slice\<close> records of the evaluator are values without identity.
\<close>

datatype val =
    VUndefined
  | VNull
  | VBool bool
  | VNum int
  | VNumOther string
  | VBigInt int
  | VStr string
  | VArr "val list"
  | VSet "val list"
  | VSlice val val val
  | VObj obj
and obj =
    Obj (oid: nat) (callable: "code option") (own: "(key \<times> val) list") (proto: "obj option")

section \<open>Tokens\<close>

text \<open>\<^verbatim>\<open>Token\<close>: the type tag with the literal, and the value where the variant has
  one.  The literal of an embedded token is always \<^verbatim>\<open>${}\<close>.\<close>

datatype token =
    Whitespace string
  | Operator string
  | Embedded val
  | Constant string val
  | Identifier string
  | Punctuation string

text \<open>
  \<^verbatim>\<open>TokenFactory\<close> is a class with six static methods.  A call
  \<^verbatim>\<open>TokenFactory.m(...)\<close> looks the name \<open>m\<close> up on the class; a name the class
  does not have yields \<^verbatim>\<open>undefined\<close>, and calling that raises a \<^verbatim>\<open>TypeError\<close>.
\<close>

datatype factory_fn =
    OfLiteral "string \<Rightarrow> token"
  | OfValue "val \<Rightarrow> token"
  | OfLiteralValue "string \<Rightarrow> val \<Rightarrow> token"

definition TokenFactory :: "(string \<times> factory_fn) list" where
  "TokenFactory =
    [(''whitespace'', OfLiteral Whitespace),
     (''operator'', OfLiteral Operator),
     (''embeddedValue'', OfValue Embedded),
     (''constant'', OfLiteralValue Constant),
     (''punctuation'', OfLiteral Punctuation),
     (''identifier'', OfLiteral Identifier)]"

text \<open>A call of a static method of \<^verbatim>\<open>TokenFactory\<close> with one host value.\<close>

definition TokenFactory_call :: "string \<Rightarrow> val \<Rightarrow> error + token" where
  "TokenFactory_call name v =
    (case map_of TokenFactory name of
       None \<Rightarrow> Inl (TypeError (''TokenFactory.'' @ name @ '' is not a function''))
     | Some (OfValue f) \<Rightarrow> Inr (f v)
     | Some (OfLiteral f) \<Rightarrow> (case v of VStr s \<Rightarrow> Inr (f s) | _ \<Rightarrow> Inl (Unmodelled ''literal''))
     | Some (OfLiteralValue f) \<Rightarrow>
         (case v of VStr s \<Rightarrow> Inr (f s VUndefined) | _ \<Rightarrow> Inl (Unmodelled ''literal'')))"

section \<open>Tokenizer: the template entry point\<close>

text \<open>
  The argument of the static \<^verbatim>\<open>Tokenizer.tokenize\<close>: a plain string, or the raw
  fragments of a template.
\<close>

datatype tokenize_input = Plain string | Template "string list"

text \<open>
  The scanner of one fragment (the private instance method \<^verbatim>\<open>tokenize()\<close>, built
  on regular expressions over Unicode text) is a parameter \<open>scan\<close> here: the
  static entry point only concatenates its results.

  \<^verbatim>\<open>
  for (let i = 0; i < args.length; i++) {
      tokens.push(...new Tokenizer(s.raw[i]).tokenize());
      tokens.push(TokenFactory.interpolation(args[i]));
  }
  \<close>
  Reading \<^verbatim>\<open>s.raw[i]\<close> past the end gives \<^verbatim>\<open>undefined\<close>, on which the scanner's
  first string operation raises a \<^verbatim>\<open>TypeError\<close>.
\<close>

fun tokenize_args ::
  "(string \<Rightarrow> error + token list) \<Rightarrow> string list \<Rightarrow> nat \<Rightarrow> val list \<Rightarrow> token list
    \<Rightarrow> error + token list" where
  "tokenize_args scan raw i [] tokens = Inr tokens"
| "tokenize_args scan raw i (a # as) tokens =
    (if i < length raw then
       (case scan (raw ! i) of
          Inl e \<Rightarrow> Inl e
        | Inr ts \<Rightarrow>
            (case TokenFactory_call ''interpolation'' a of
               Inl e \<Rightarrow> Inl e
             | Inr t \<Rightarrow> tokenize_args scan raw (Suc i) as (tokens @ ts @ [t])))
     else Inl (TypeError ''undefined is not an object''))"

definition tokenize ::
  "(string \<Rightarrow> error + token list) \<Rightarrow> tokenize_input \<Rightarrow> val list \<Rightarrow> error + token list" where
  "tokenize scan s args =
    (case s of
       Plain str \<Rightarrow> scan str
     | Template raw \<Rightarrow>
         (case tokenize_args scan raw 0 args [] of
            Inl e \<Rightarrow> Inl e
          | Inr tokens \<Rightarrow>
              (if raw = [] then Inl (TypeError ''undefined is not an object'')
               else (case scan (last raw) of
                       Inl e \<Rightarrow> Inl e
                     | Inr ts \<Rightarrow> Inr (tokens @ ts)))))"

section \<open>Host operations on values\<close>

text \<open>
  Arithmetic of the host rounds: the sum of two doubles is the double nearest to
  the exact sum, and of two nearest doubles the one with the even significand.
  A double has 53 significant bits, so the doubles around an integer of magnitude
  \<open>a\<close> are the multiples of the least power of two \<open>g\<close> with \<open>a < 2^53 * g\<close>:
  \<open>spacing a 1\<close>.  \<open>double x\<close> is the integer \<open>x\<close> rounded to a double; it is \<open>x\<close>
  itself up to magnitude \<open>2^53 = 9007199254740992\<close>.  The exponent of a double is
  bounded, that of \<open>double x\<close> is not: this is the rounding of the host for
  magnitudes below \<open>2^1024\<close>, where the host goes to \<^verbatim>\<open>Infinity\<close>.
\<close>

function spacing :: "int \<Rightarrow> int \<Rightarrow> int" where
  "spacing a g = (if g \<le> 0 \<or> a < 9007199254740992 * g then g else spacing a (2 * g))"
  by pat_completeness auto
termination
  by (relation "measure (\<lambda>(a, g). nat (a - 9007199254740992 * g + 1))") auto

declare spacing.simps [simp del]

definition double :: "int \<Rightarrow> int" where
  "double x =
    (let a = \<bar>x\<bar>;
         g = spacing a 1;
         q = a div g;
         r = a mod g;
         m = (if 2 * r < g \<or> (2 * r = g \<and> even q) then q else q + 1)
     in sgn x * (m * g))"

text \<open>\<^verbatim>\<open>Number.isSafeInteger\<close> on an integer.\<close>

definition isSafeInteger :: "int \<Rightarrow> bool" where
  "isSafeInteger x = (\<bar>x\<bar> \<le> 9007199254740991)"

text \<open>\<^verbatim>\<open>typeof v\<close>.\<close>

definition typeof :: "val \<Rightarrow> string" where
  "typeof v =
    (case v of
       VUndefined \<Rightarrow> ''undefined''
     | VNull \<Rightarrow> ''object''
     | VBool b \<Rightarrow> ''boolean''
     | VNum n \<Rightarrow> ''number''
     | VNumOther t \<Rightarrow> ''number''
     | VBigInt n \<Rightarrow> ''bigint''
     | VStr t \<Rightarrow> ''string''
     | VArr xs \<Rightarrow> ''object''
     | VSet xs \<Rightarrow> ''object''
     | VSlice a b c \<Rightarrow> ''object''
     | VObj ob \<Rightarrow> (if callable ob = None then ''object'' else ''function''))"

text \<open>
  The built-in prototypes of the host, and the host globals that
  \<^verbatim>\<open>Rop.bindDefaults\<close> and \<^verbatim>\<open>Rop.bindMaths\<close> read (\<^verbatim>\<open>Infinity\<close>, \<^verbatim>\<open>Math\<close>, the own
  properties of \<^verbatim>\<open>Math\<close>, ...).
\<close>

record realm =
  objectProto :: obj
  numberProto :: obj
  stringProto :: obj
  booleanProto :: obj
  bigintProto :: obj
  arrayProto :: obj
  setProto :: obj
  globals :: "string \<Rightarrow> val"
  mathProps :: "(string \<times> val) list"

text \<open>
  \<^verbatim>\<open>Object.getPrototypeOf(v)\<close>: a primitive is read through its wrapper's
  prototype; \<^verbatim>\<open>undefined\<close> and \<^verbatim>\<open>null\<close> raise a \<^verbatim>\<open>TypeError\<close>.
\<close>

definition getPrototypeOf :: "realm \<Rightarrow> val \<Rightarrow> error + obj option" where
  "getPrototypeOf rl v =
    (case v of
       VUndefined \<Rightarrow> Inl (TypeError ''Cannot convert undefined or null to object'')
     | VNull \<Rightarrow> Inl (TypeError ''Cannot convert undefined or null to object'')
     | VBool b \<Rightarrow> Inr (Some (booleanProto rl))
     | VNum n \<Rightarrow> Inr (Some (numberProto rl))
     | VNumOther t \<Rightarrow> Inr (Some (numberProto rl))
     | VBigInt n \<Rightarrow> Inr (Some (bigintProto rl))
     | VStr t \<Rightarrow> Inr (Some (stringProto rl))
     | VArr xs \<Rightarrow> Inr (Some (arrayProto rl))
     | VSet xs \<Rightarrow> Inr (Some (setProto rl))
     | VSlice a b c \<Rightarrow> Inr (Some (objectProto rl))
     | VObj ob \<Rightarrow> Inr (proto ob))"

text \<open>Decimal text of a number, as property keys and string concatenation use it.\<close>

definition digit_char :: "nat \<Rightarrow> char" where
  "digit_char d = char_of (48 + d)"

function show_nat :: "nat \<Rightarrow> string" where
  "show_nat n = (if n < 10 then [digit_char n] else show_nat (n div 10) @ [digit_char (n mod 10)])"
  by pat_completeness auto
termination
  by (relation "measure (\<lambda>n. n)") auto

declare show_nat.simps [simp del]

definition show_int :: "int \<Rightarrow> string" where
  "show_int i = (if i < 0 then CHR ''-'' # show_nat (nat (- i)) else show_nat (nat i))"

text \<open>The own properties of a value: the elements and length of an array or a
  string, the three fields of a \<^verbatim>\<open>Slice\<close>, the properties of an object.\<close>

definition indexed :: "val list \<Rightarrow> (key \<times> val) list" where
  "indexed xs = zip (map (\<lambda>i. KStr (show_nat i)) [0..<length xs]) xs
     @ [(KStr ''length'', VNum (int (length xs)))]"

definition own_props :: "val \<Rightarrow> (key \<times> val) list" where
  "own_props v =
    (case v of
       VArr xs \<Rightarrow> indexed xs
     | VStr t \<Rightarrow> indexed (map (\<lambda>c. VStr [c]) t)
     | VSlice a b c \<Rightarrow> [(KStr ''start'', a), (KStr ''end'', b), (KStr ''step'', c)]
     | VObj ob \<Rightarrow> own ob
     | _ \<Rightarrow> [])"

text \<open>A property looked up along the prototype chain of an object.\<close>

fun lookup_chain :: "obj \<Rightarrow> key \<Rightarrow> val option" where
  "lookup_chain (Obj i c ps pr) k =
    (case map_of ps k of
       Some v \<Rightarrow> Some v
     | None \<Rightarrow> (case pr of None \<Rightarrow> None | Some p \<Rightarrow> lookup_chain p k))"

text \<open>
  The property \<open>k\<close> of a value that is neither \<^verbatim>\<open>undefined\<close> nor \<^verbatim>\<open>null\<close>, own
  or inherited: \<open>None\<close> when there is none (\<^verbatim>\<open>k in v\<close> is false, and \<^verbatim>\<open>v[k]\<close>
  is \<^verbatim>\<open>undefined\<close>).
\<close>

definition find_property :: "realm \<Rightarrow> val \<Rightarrow> key \<Rightarrow> val option" where
  "find_property rl v k =
    (case map_of (own_props v) k of
       Some x \<Rightarrow> Some x
     | None \<Rightarrow>
         (case getPrototypeOf rl v of
            Inr (Some p) \<Rightarrow> lookup_chain p k
          | _ \<Rightarrow> None))"

text \<open>Host property access \<^verbatim>\<open>v[k]\<close> with a key.\<close>

definition get_property :: "realm \<Rightarrow> val \<Rightarrow> key \<Rightarrow> error + val" where
  "get_property rl v k =
    (if v = VUndefined \<or> v = VNull
     then Inl (TypeError ''Cannot read properties of undefined or null'')
     else Inr (case find_property rl v k of Some x \<Rightarrow> x | None \<Rightarrow> VUndefined))"

text \<open>The property key that a value used as a subscript denotes.\<close>

definition toPropertyKey :: "val \<Rightarrow> error + key" where
  "toPropertyKey v =
    (case v of
       VUndefined \<Rightarrow> Inr (KStr ''undefined'')
     | VNull \<Rightarrow> Inr (KStr ''null'')
     | VBool b \<Rightarrow> Inr (KStr (if b then ''true'' else ''false''))
     | VNum n \<Rightarrow> Inr (KStr (show_int n))
     | VNumOther t \<Rightarrow> Inr (KStr t)
     | VBigInt n \<Rightarrow> Inr (KStr (show_int n))
     | VStr t \<Rightarrow> Inr (KStr t)
     | _ \<Rightarrow> Inl (Unmodelled ''property key of an object''))"

text \<open>Host subscript access \<^verbatim>\<open>v[i]\<close> with a value.\<close>

definition get_index :: "realm \<Rightarrow> val \<Rightarrow> val \<Rightarrow> error + val" where
  "get_index rl v i =
    (if v = VUndefined \<or> v = VNull
     then Inl (TypeError ''Cannot read properties of undefined or null'')
     else (case toPropertyKey i of Inl e \<Rightarrow> Inl e | Inr k \<Rightarrow> get_property rl v k))"

text \<open>Truthiness of a value.\<close>

definition truthy :: "val \<Rightarrow> bool" where
  "truthy v =
    (case v of
       VUndefined \<Rightarrow> False
     | VNull \<Rightarrow> False
     | VBool b \<Rightarrow> b
     | VNum n \<Rightarrow> n \<noteq> 0
     | VNumOther t \<Rightarrow> t \<noteq> ''NaN''
     | VBigInt n \<Rightarrow> n \<noteq> 0
     | VStr t \<Rightarrow> t \<noteq> []
     | _ \<Rightarrow> True)"

section \<open>Operations\<close>

text \<open>
  \<^verbatim>\<open>OPERATION_REGISTRY\<close>: for each operation name its kind and, for a unary or
  binary operation, its literal and precedence (the native function is \<open>native\<close>
  below).  The order is the order of the source.
\<close>

datatype OperationMeta =
    OtherOp
  | UnaryOp (literal: string) (precedence: nat)
  | BinaryOp (literal: string) (precedence: nat)

definition OPERATION_REGISTRY :: "(string \<times> OperationMeta) list" where
  "OPERATION_REGISTRY =
    [(''[i]'', OtherOp),
     (''[:]'', OtherOp),
     (''!'', UnaryOp ''!'' 10),
     (''~'', UnaryOp ''~'' 10),
     (''-x'', UnaryOp ''-'' 10),
     (''+x'', UnaryOp ''+'' 10),
     (''||'', BinaryOp ''||'' 1),
     (''&&'', BinaryOp ''&&'' 2),
     (''|'', BinaryOp ''|'' 3),
     (''^'', BinaryOp ''^'' 4),
     (''&'', BinaryOp ''&'' 5),
     (''=='', BinaryOp ''=='' 6),
     (''==='', BinaryOp ''==='' 6),
     (''!='', BinaryOp ''!='' 6),
     (''!=='', BinaryOp ''!=='' 6),
     (''<'', BinaryOp ''<'' 7),
     (''>'', BinaryOp ''>'' 7),
     (''<='', BinaryOp ''<='' 7),
     (''>='', BinaryOp ''>='' 7),
     (''<<'', BinaryOp ''<<'' 8),
     (''>>'', BinaryOp ''>>'' 8),
     (''>>>'', BinaryOp ''>>>'' 8),
     (''+'', BinaryOp ''+'' 9),
     (''-'', BinaryOp ''-'' 9),
     (''*'', BinaryOp ''*'' 10),
     (''/'', BinaryOp ''/'' 10),
     (''%'', BinaryOp ''%'' 10),
     (''**'', BinaryOp ''**'' 11)]"

text \<open>\<^verbatim>\<open>Operations.meta\<close> and \<^verbatim>\<open>Operations.symbol\<close> for an operation name.\<close>

definition meta :: "string \<Rightarrow> OperationMeta option" where
  "meta op = map_of OPERATION_REGISTRY op"

definition symbol :: "string \<Rightarrow> string option" where
  "symbol op = (case map_of OPERATION_REGISTRY op of None \<Rightarrow> None | Some m \<Rightarrow> Some op)"

definition is_unary :: "OperationMeta \<Rightarrow> bool" where
  "is_unary m = (case m of UnaryOp l p \<Rightarrow> True | _ \<Rightarrow> False)"

definition is_binary :: "OperationMeta \<Rightarrow> bool" where
  "is_binary m = (case m of BinaryOp l p \<Rightarrow> True | _ \<Rightarrow> False)"

text \<open>
  \<^verbatim>\<open>OPERATOR_LITERAL_TO_NAME_MAP\<close>, read through \<^verbatim>\<open>unaryFromLiteral\<close> and
  \<^verbatim>\<open>binaryFromLiteral\<close>: the map is filled in registry order, a later entry
  replacing an earlier one.
\<close>

definition unaryFromLiteral :: "string \<Rightarrow> string option" where
  "unaryFromLiteral lit =
    map_of (rev (map (\<lambda>(n, m). (literal m, n)) (filter (\<lambda>(n, m). is_unary m) OPERATION_REGISTRY))) lit"

definition binaryFromLiteral :: "string \<Rightarrow> string option" where
  "binaryFromLiteral lit =
    map_of (rev (map (\<lambda>(n, m). (literal m, n)) (filter (\<lambda>(n, m). is_binary m) OPERATION_REGISTRY))) lit"

subsection \<open>Native semantics\<close>

text \<open>The 32-bit readings of a number that the bitwise operators use.\<close>

definition int32 :: "int \<Rightarrow> 32 word" where
  "int32 n = word_of_int n"

definition shift_count :: "int \<Rightarrow> nat" where
  "shift_count n = unat (int32 n AND 31)"

text \<open>
  The number that an arithmetic operation of the host returns when its exact
  result is the integer \<open>r\<close>: \<open>r\<close> rounded to a double, and an infinity when that
  is beyond the largest double.
\<close>

definition rounded :: "int \<Rightarrow> val" where
  "rounded r =
    (let d = double r in
     if 2 ^ 1024 \<le> d then VNumOther ''Infinity''
     else if d \<le> - (2 ^ 1024) then VNumOther ''-Infinity''
     else VNum d)"

text \<open>
  The native functions on two integers.  Sum, difference and product are
  rounded; an integer quotient and a remainder of two doubles are doubles.  The
  host makes no promise on the last bit of a power: a power is modelled where it
  is below \<open>2^53\<close> in magnitude, and then exact.
\<close>

definition native_num :: "string \<Rightarrow> int \<Rightarrow> int \<Rightarrow> error + val" where
  "native_num op x y =
    (if op = ''+'' then Inr (rounded (x + y))
     else if op = ''-'' then Inr (rounded (x - y))
     else if op = ''*'' then Inr (rounded (x * y))
     else if op = ''/'' then
       (if y \<noteq> 0 \<and> y dvd x then Inr (VNum (x div y)) else Inl (Unmodelled ''quotient''))
     else if op = ''%'' then
       (if y = 0 then Inr (VNumOther ''NaN'') else Inr (VNum (sgn x * (\<bar>x\<bar> mod \<bar>y\<bar>))))
     else if op = ''**'' then
       (if 0 \<le> y \<and> \<bar>x ^ nat y\<bar> < 9007199254740992 then Inr (VNum (x ^ nat y))
        else Inl (Unmodelled ''power''))
     else if op = ''&'' then Inr (VNum (sint (int32 x AND int32 y)))
     else if op = ''|'' then Inr (VNum (sint (int32 x OR int32 y)))
     else if op = ''^'' then Inr (VNum (sint (int32 x XOR int32 y)))
     else if op = ''<<'' then Inr (VNum (sint (push_bit (shift_count y) (int32 x))))
     else if op = ''>>'' then Inr (VNum (sint (signed_drop_bit (shift_count y) (int32 x))))
     else if op = ''>>>'' then Inr (VNum (uint (drop_bit (shift_count y) (int32 x))))
     else if op = ''<'' then Inr (VBool (x < y))
     else if op = ''>'' then Inr (VBool (x > y))
     else if op = ''<='' then Inr (VBool (x \<le> y))
     else if op = ''>='' then Inr (VBool (x \<ge> y))
     else Inl (Unmodelled op))"

text \<open>Strict equality \<^verbatim>\<open>a === b\<close>; objects are equal when they are the same object.\<close>

definition strict_equals :: "val \<Rightarrow> val \<Rightarrow> error + bool" where
  "strict_equals a b =
    (case (a, b) of
       (VNumOther t, VNumOther u) \<Rightarrow> Inr (t = u \<and> t \<noteq> ''NaN'')
     | (VObj p, VObj q) \<Rightarrow> Inr (oid p = oid q)
     | (VArr xs, VArr ys) \<Rightarrow> Inl (Unmodelled ''identity of arrays'')
     | (VSet xs, VSet ys) \<Rightarrow> Inl (Unmodelled ''identity of sets'')
     | (VSlice x y z, VSlice u v w) \<Rightarrow> Inl (Unmodelled ''identity of slices'')
     | _ \<Rightarrow> Inr (a = b))"

text \<open>Loose equality \<^verbatim>\<open>a == b\<close>, where no coercion is involved.\<close>

definition loose_equals :: "val \<Rightarrow> val \<Rightarrow> error + bool" where
  "loose_equals a b =
    (if (a = VNull \<or> a = VUndefined) \<and> (b = VNull \<or> b = VUndefined) then Inr True
     else if a = VNull \<or> a = VUndefined \<or> b = VNull \<or> b = VUndefined then Inr False
     else if typeof a = typeof b then strict_equals a b
     else Inl (Unmodelled ''coercion''))"

text \<open>
  \<^verbatim>\<open>meta.native(self, other)\<close> for the operation \<open>op\<close>; a unary operation ignores
  \<open>other\<close>.
\<close>

definition native :: "string \<Rightarrow> val \<Rightarrow> val \<Rightarrow> error + val" where
  "native op a b =
    (if op = ''!'' then Inr (VBool (\<not> truthy a))
     else if op = ''||'' then Inr (if truthy a then a else b)
     else if op = ''&&'' then Inr (if truthy a then b else a)
     else if op = ''==='' then map_sum id VBool (strict_equals a b)
     else if op = ''!=='' then map_sum id (\<lambda>r. VBool (\<not> r)) (strict_equals a b)
     else if op = ''=='' then map_sum id VBool (loose_equals a b)
     else if op = ''!='' then map_sum id (\<lambda>r. VBool (\<not> r)) (loose_equals a b)
     else if op = ''~'' then
       (case a of VNum x \<Rightarrow> Inr (VNum (sint (NOT (int32 x)))) | _ \<Rightarrow> Inl (Unmodelled op))
     else if op = ''-x'' then
       (case a of VNum x \<Rightarrow> Inr (VNum (- x)) | _ \<Rightarrow> Inl (Unmodelled op))
     else if op = ''+x'' then
       (case a of VNum x \<Rightarrow> Inr (VNum x) | _ \<Rightarrow> Inl (Unmodelled op))
     else
       (case (a, b) of
          (VNum x, VNum y) \<Rightarrow> native_num op x y
        | (VStr x, VStr y) \<Rightarrow> (if op = ''+'' then Inr (VStr (x @ y)) else Inl (Unmodelled op))
        | (VStr x, VNum y) \<Rightarrow> (if op = ''+'' then Inr (VStr (x @ show_int y)) else Inl (Unmodelled op))
        | (VNum x, VStr y) \<Rightarrow> (if op = ''+'' then Inr (VStr (show_int x @ y)) else Inl (Unmodelled op))
        | _ \<Rightarrow> Inl (Unmodelled op)))"

section \<open>Expression nodes\<close>

text \<open>\<^verbatim>\<open>AstNode\<close> and \<^verbatim>\<open>NodeSlice\<close>; an absent field of a slice is \<open>None\<close>.\<close>

datatype node =
    ValueNode token
  | IdentifierNode string
  | UnaryNode string node
  | BinaryNode node string node
  | AccessPropertyNode node string
  | InvokeNode node "node list"
  | IndexingNode node node
  | SlicingNode node "NodeSlice list"
and NodeSlice =
    NodeSlice (slice_start: "node option") (slice_end: "node option") (slice_step: "node option")

section \<open>The engine: bindings and overloads\<close>

text \<open>
  A \<^verbatim>\<open>Rop\<close> instance owns two tables.  Both are \<^verbatim>\<open>Map\<close> objects of the host,
  which keep insertion order: association lists, updated in place.  The outer key
  of \<open>overloadings\<close> is the identity of a prototype object, the inner key the
  operation symbol.
\<close>

record Rop =
  overloadings :: "(nat \<times> (string \<times> code) list) list"
  bindings :: "(string \<times> val) list"

definition new_Rop :: Rop where
  "new_Rop = \<lparr>overloadings = [], bindings = []\<rparr>"

text \<open>\<^verbatim>\<open>bind\<close> with one pair, and with the entries of an object or a map.\<close>

definition bind :: "string \<Rightarrow> val \<Rightarrow> Rop \<Rightarrow> Rop" where
  "bind k v r = r\<lparr>bindings := AList.update k v (bindings r)\<rparr>"

definition bind_all :: "(string \<times> val) list \<Rightarrow> Rop \<Rightarrow> Rop" where
  "bind_all kvs r = fold (\<lambda>(k, v). bind k v) kvs r"

definition unbind :: "string list \<Rightarrow> Rop \<Rightarrow> Rop" where
  "unbind keys r = fold (\<lambda>k r'. r'\<lparr>bindings := AList.delete k (bindings r')\<rparr>) keys r"

text \<open>\<^verbatim>\<open>detectFunctionType\<close>: the kind of a host function is part of its code; the
  wrapper of \<^verbatim>\<open>setOverload\<close> is a \<^verbatim>\<open>function\<close> expression.\<close>

definition detectFunctionType :: "code \<Rightarrow> FunctionType" where
  "detectFunctionType f =
    (case f of
       Host k n \<Rightarrow> k
     | Builtin b \<Rightarrow> (if b = ArrayIndexing \<or> b = ArraySlicing then FnMethod else FnArrow)
     | Adapter g \<Rightarrow> FnNormal)"

definition setOverload :: "Rop \<Rightarrow> nat \<Rightarrow> string \<Rightarrow> code \<Rightarrow> Rop" where
  "setOverload r prototype tag operationFn =
    (let classOverloads = (case map_of (overloadings r) prototype of None \<Rightarrow> [] | Some m \<Rightarrow> m);
         stored = (case detectFunctionType operationFn of
                     FnNormal \<Rightarrow> operationFn
                   | FnMethod \<Rightarrow> operationFn
                   | FnArrow \<Rightarrow> Adapter operationFn)
     in r\<lparr>overloadings := AList.update prototype (AList.update tag stored classOverloads) (overloadings r)\<rparr>)"

text \<open>\<^verbatim>\<open>overload(clazz, op, operationFn)\<close>, with the operation given by name.\<close>

definition overload :: "realm \<Rightarrow> val \<Rightarrow> string \<Rightarrow> code \<Rightarrow> Rop \<Rightarrow> error + Rop" where
  "overload rl clazz op operationFn r =
    (case get_property rl clazz (KStr ''prototype'') of
       Inl e \<Rightarrow> Inl e
     | Inr VUndefined \<Rightarrow> Inl (TypeError ''clazz must be a class'')
     | Inr (VObj p) \<Rightarrow>
         (case symbol op of
            None \<Rightarrow> Inl (TypeError (''Unknown operation: '' @ op))
          | Some sy \<Rightarrow> Inr (setOverload r (oid p) sy operationFn))
     | Inr _ \<Rightarrow> Inl (Unmodelled ''prototype without identity''))"

text \<open>
  The loop of \<^verbatim>\<open>overloads(clazz, def)\<close> once \<^verbatim>\<open>clazz.prototype\<close> is known: keys
  that name no operation are skipped.
\<close>

definition overloads_on :: "nat \<Rightarrow> (string \<times> code) list \<Rightarrow> Rop \<Rightarrow> Rop" where
  "overloads_on prototype defs r =
    fold (\<lambda>(k, f) r'. case symbol k of None \<Rightarrow> r' | Some sy \<Rightarrow> setOverload r' prototype sy f) defs r"

definition overloads :: "realm \<Rightarrow> val \<Rightarrow> (string \<times> code) list \<Rightarrow> Rop \<Rightarrow> error + Rop" where
  "overloads rl clazz defs r =
    (case get_property rl clazz (KStr ''prototype'') of
       Inl e \<Rightarrow> Inl e
     | Inr VUndefined \<Rightarrow> Inl (TypeError ''clazz must be a class'')
     | Inr (VObj p) \<Rightarrow> Inr (overloads_on (oid p) defs r)
     | Inr _ \<Rightarrow> Inl (Unmodelled ''prototype without identity''))"

subsection \<open>Overload resolution\<close>

definition table_get :: "Rop \<Rightarrow> nat \<Rightarrow> string \<Rightarrow> code option" where
  "table_get r p tag = (case map_of (overloadings r) p of None \<Rightarrow> None | Some m \<Rightarrow> map_of m tag)"

text \<open>The code of a value when \<^verbatim>\<open>typeof\<close> it is \<^verbatim>\<open>'function'\<close>.\<close>

definition code_of :: "val option \<Rightarrow> code option" where
  "code_of v = (case v of Some (VObj f) \<Rightarrow> callable f | _ \<Rightarrow> None)"

text \<open>
  The loop of \<^verbatim>\<open>getOverloadFromPrototypeChain\<close> from an object \<open>p\<close> on:
  \<^verbatim>\<open>
  while (p !== null) {
      const classOverloads = this.overloadings.get(p);
      if (classOverloads !== undefined && classOverloads.has(symbol))
          return classOverloads.get(symbol) ?? null;
      if (typeof p === 'object' && symbol in p && typeof p[symbol] === 'function')
          return p[symbol];
      p = Object.getPrototypeOf(p);
  }
  return null;
  \<close>
  \<^verbatim>\<open>symbol in p\<close> and \<^verbatim>\<open>p[symbol]\<close> read own and inherited properties.
\<close>

fun walk :: "Rop \<Rightarrow> string \<Rightarrow> obj \<Rightarrow> code option" where
  "walk r tag (Obj i c ps pr) =
    (case table_get r i tag of
       Some f \<Rightarrow> Some f
     | None \<Rightarrow>
         (case (if c = None then code_of (lookup_chain (Obj i c ps pr) (KSym tag)) else None) of
            Some f \<Rightarrow> Some f
          | None \<Rightarrow> (case pr of None \<Rightarrow> None | Some p \<Rightarrow> walk r tag p)))"

text \<open>
  The whole function, from any value.  A value that is not an object with identity
  is no key of the table; its first round only has the property test (when
  \<^verbatim>\<open>typeof\<close> it is \<^verbatim>\<open>'object'\<close>) and the step to its prototype, which raises on
  \<^verbatim>\<open>undefined\<close>.
\<close>

definition getOverloadFromPrototypeChain :: "Rop \<Rightarrow> realm \<Rightarrow> val \<Rightarrow> string \<Rightarrow> error + code option" where
  "getOverloadFromPrototypeChain r rl prototype tag =
    (case prototype of
       VNull \<Rightarrow> Inr None
     | VObj p \<Rightarrow> Inr (walk r tag p)
     | _ \<Rightarrow>
         (case (if typeof prototype = ''object''
                then code_of (find_property rl prototype (KSym tag)) else None) of
            Some f \<Rightarrow> Inr (Some f)
          | None \<Rightarrow>
              (case getPrototypeOf rl prototype of
                 Inl e \<Rightarrow> Inl e
               | Inr None \<Rightarrow> Inr None
               | Inr (Some p) \<Rightarrow> Inr (walk r tag p))))"

definition getOverloadOnInstance :: "Rop \<Rightarrow> realm \<Rightarrow> val \<Rightarrow> string \<Rightarrow> error + code option" where
  "getOverloadOnInstance r rl inst tag = getOverloadFromPrototypeChain r rl inst tag"

definition getOverloadOnClass :: "Rop \<Rightarrow> realm \<Rightarrow> val \<Rightarrow> string \<Rightarrow> error + code option" where
  "getOverloadOnClass r rl clazz tag =
    (case get_property rl clazz (KStr ''prototype'') of
       Inl e \<Rightarrow> Inl e
     | Inr p \<Rightarrow> getOverloadFromPrototypeChain r rl p tag)"

section \<open>The default overloads\<close>

text \<open>\<^verbatim>\<open>normalizeIndex\<close> of \<^verbatim>\<open>src/utils/index.ts\<close>.\<close>

definition normalizeIndex :: "int \<Rightarrow> int \<Rightarrow> int" where
  "normalizeIndex index len = (if index < 0 then double (index + len) else index)"

text \<open>\<^verbatim>\<open>this[i]\<close> on an array: \<^verbatim>\<open>undefined\<close> outside its range.  An array of the
  host has fewer than \<open>2^32\<close> elements.\<close>

definition element :: "val list \<Rightarrow> int \<Rightarrow> val" where
  "element xs i = (if 0 \<le> i \<and> i < int (length xs) then xs ! nat i else VUndefined)"

text \<open>
  The two loops of the array's \<^verbatim>\<open>[:]\<close> overload,
  \<^verbatim>\<open>for (let i = slice.start; i < slice.end; i += slice.step) result.push(this[i])\<close>
  in the branch \<^verbatim>\<open>slice.step > 0\<close>, and the same with \<^verbatim>\<open>i > slice.end\<close> in the other
  branch.  The sum \<^verbatim>\<open>i += slice.step\<close> is rounded, so the counter need not advance
  and the loop need not end: a loop that does not return has the value \<open>None\<close>.
\<close>

partial_function (option) slice_up ::
  "val list \<Rightarrow> int \<Rightarrow> int \<Rightarrow> int \<Rightarrow> val list \<Rightarrow> val list option" where
  "slice_up this i endv step result =
    (if i < endv then slice_up this (double (i + step)) endv step (result @ [element this i])
     else Some result)"

partial_function (option) slice_down ::
  "val list \<Rightarrow> int \<Rightarrow> int \<Rightarrow> int \<Rightarrow> val list \<Rightarrow> val list option" where
  "slice_down this i endv step result =
    (if i > endv then slice_down this (double (i + step)) endv step (result @ [element this i])
     else Some result)"

text \<open>A field of a \<^verbatim>\<open>Slice\<close> read as a number: \<^verbatim>\<open>undefined\<close> or an integer.\<close>

definition slice_field :: "val \<Rightarrow> error + int option" where
  "slice_field v =
    (case v of
       VUndefined \<Rightarrow> Inr None
     | VNum n \<Rightarrow> Inr (Some n)
     | _ \<Rightarrow> Inl (Unmodelled ''slice field that is no integer''))"

text \<open>The body of the overload after the checks, with \<^verbatim>\<open>slice.step ??= 1\<close> done and
  \<^verbatim>\<open>result\<close> empty.\<close>

definition slice_elements :: "val list \<Rightarrow> int option \<Rightarrow> int option \<Rightarrow> int \<Rightarrow> val list option" where
  "slice_elements this start endv step =
    (let len = int (length this) in
     if step > 0 then
       slice_up this
         (case start of None \<Rightarrow> 0 | Some i \<Rightarrow> normalizeIndex i len)
         (case endv of None \<Rightarrow> len | Some e \<Rightarrow> normalizeIndex e len)
         step []
     else
       slice_down this
         (case start of None \<Rightarrow> len - 1 | Some i \<Rightarrow> normalizeIndex i len)
         (case endv of None \<Rightarrow> - 1 | Some e \<Rightarrow> normalizeIndex e len)
         step [])"

text \<open>
  The \<^verbatim>\<open>[:]\<close> overload of \<^verbatim>\<open>overloadDefaults\<close> on the array \<open>this\<close> with the list
  \<open>slices\<close>: what it returns or raises, or \<open>None\<close> when its loop does not end.
\<close>

definition Array_slicing :: "val list \<Rightarrow> val list \<Rightarrow> (error + val) option" where
  "Array_slicing this slices =
    (if length slices \<noteq> 1 then Some (Inl (Error ''Multi slice is not supported''))
     else
       (case hd slices of
          VSlice start endv step \<Rightarrow>
            (if step = VNum 0 then Some (Inl (Error ''Slice step cannot be zero''))
             else
               (case (slice_field start, slice_field endv,
                      slice_field (if step = VUndefined \<or> step = VNull then VNum 1 else step)) of
                  (Inr st, Inr en, Inr (Some sp)) \<Rightarrow>
                    map_option (\<lambda>result. Inr (VArr result)) (slice_elements this st en sp)
                | _ \<Rightarrow> Some (Inl (Unmodelled ''slice field that is no integer''))))
        | _ \<Rightarrow> Some (Inl (Unmodelled ''slice that is no Slice record''))))"

text \<open>The \<^verbatim>\<open>[i]\<close> overload of arrays.\<close>

definition Array_indexing :: "val list \<Rightarrow> val \<Rightarrow> error + val" where
  "Array_indexing this index =
    (if typeof index \<noteq> ''number'' then Inl (Error ''Index of Array must be a number'')
     else (case index of
             VNum i \<Rightarrow> Inr (element this (normalizeIndex i (int (length this))))
           | _ \<Rightarrow> Inl (Unmodelled ''index that is no integer'')))"

text \<open>Spreading a value, \<^verbatim>\<open>[...v]\<close>.\<close>

definition spread :: "val \<Rightarrow> error + val list" where
  "spread v =
    (case v of
       VArr xs \<Rightarrow> Inr xs
     | VSet xs \<Rightarrow> Inr xs
     | VStr t \<Rightarrow> Inr (map (\<lambda>c. VStr [c]) t)
     | VObj ob \<Rightarrow> Inl (Unmodelled ''iteration of an object'')
     | _ \<Rightarrow> Inl (TypeError ''value is not iterable''))"

text \<open>\<^verbatim>\<open>new Set(xs)\<close> keeps the first occurrence of each element.\<close>

fun new_Set :: "val list \<Rightarrow> val list \<Rightarrow> val list" where
  "new_Set acc [] = acc"
| "new_Set acc (x # xs) = new_Set (if x \<in> set acc then acc else acc @ [x]) xs"

text \<open>
  The six built-in functions, called with a receiver and arguments.  The arrow
  functions among them take the receiver as their first argument (they are stored
  behind an \<open>Adapter\<close>).  The evaluater below is total, so a slice whose loop does
  not end is outside it.
\<close>

definition run_builtin :: "builtin \<Rightarrow> val \<Rightarrow> val list \<Rightarrow> error + val" where
  "run_builtin b this args =
    (case (b, this, args) of
       (ArrayAdd, _, [self, other]) \<Rightarrow>
         (case (spread self, spread other) of
            (Inr xs, Inr ys) \<Rightarrow> Inr (VArr (xs @ ys))
          | (Inl e, _) \<Rightarrow> Inl e
          | (_, Inl e) \<Rightarrow> Inl e)
     | (ArrayIndexing, VArr xs, [index]) \<Rightarrow> Array_indexing xs index
     | (ArraySlicing, VArr xs, [VArr slices]) \<Rightarrow>
         (case Array_slicing xs slices of
            Some r \<Rightarrow> r
          | None \<Rightarrow> Inl (Unmodelled ''slice whose loop does not end''))
     | (StringMul, _, [VStr t, VNum n]) \<Rightarrow>
         (if n < 0 then Inl (Error ''Invalid count value'') else Inr (VStr (concat (replicate (nat n) t))))
     | (SetAdd, _, [VSet xs, VSet ys]) \<Rightarrow> Inr (VSet (new_Set [] (xs @ ys)))
     | (SetSub, _, [VSet xs, VSet ys]) \<Rightarrow> Inr (VSet (new_Set [] (filter (\<lambda>x. x \<notin> set ys) xs)))
     | _ \<Rightarrow> Inl (Unmodelled ''built-in overload''))"

subsection \<open>The slice in the words of the specification\<close>

text \<open>
  The indices that the words of the specification enumerate: from \<open>start\<close> in
  steps of \<open>step\<close> while the index is below \<open>endv\<close> (for a positive step), or
  above \<open>endv\<close> (for a negative step).  The number of indices is written out.
\<close>

definition indices_up :: "int \<Rightarrow> int \<Rightarrow> int \<Rightarrow> int list" where
  "indices_up start endv step =
    map (\<lambda>k. start + int k * step) [0..<nat ((endv - start + step - 1) div step)]"

definition indices_down :: "int \<Rightarrow> int \<Rightarrow> int \<Rightarrow> int list" where
  "indices_down start endv step =
    map (\<lambda>k. start + int k * step) [0..<nat ((start - endv + (- step) - 1) div (- step))]"

text \<open>
  The slice as the specification words it: the defaults of the three fields, the
  wrap of negative bounds, the refusal of step 0, and the elements at the
  enumerated indices.
\<close>

definition spec_slice :: "val list \<Rightarrow> int option \<Rightarrow> int option \<Rightarrow> int option \<Rightarrow> error + val" where
  "spec_slice this start endv step =
    (let len = int (length this);
         wrap = (\<lambda>i. if i < 0 then i + len else i);
         st = (case step of None \<Rightarrow> 1 | Some k \<Rightarrow> k)
     in
       if st = 0 then Inl (Error ''Slice step cannot be zero'')
       else if st > 0 then
         Inr (VArr (map (element this)
           (indices_up (case start of None \<Rightarrow> 0 | Some i \<Rightarrow> wrap i)
                       (case endv of None \<Rightarrow> len | Some e \<Rightarrow> wrap e) st)))
       else
         Inr (VArr (map (element this)
           (indices_down (case start of None \<Rightarrow> len - 1 | Some i \<Rightarrow> wrap i)
                         (case endv of None \<Rightarrow> - 1 | Some e \<Rightarrow> wrap e) st))))"

text \<open>A field of a \<^verbatim>\<open>Slice\<close> as a value, and the fields that are absent or safe
  integers.\<close>

definition field_val :: "int option \<Rightarrow> val" where
  "field_val x = (case x of None \<Rightarrow> VUndefined | Some i \<Rightarrow> VNum i)"

definition safe_field :: "int option \<Rightarrow> bool" where
  "safe_field x = (case x of None \<Rightarrow> True | Some i \<Rightarrow> isSafeInteger i)"

section \<open>Evaluater\<close>

text \<open>
  Functions of the host program may have effects.  The evaluater is therefore a
  state transformer over a state \<open>'s\<close> of the host program, and
  \<open>env_host k n this args\<close> is the call of host function \<open>n\<close> (of kind \<open>k\<close>) with
  receiver \<open>this\<close>: it returns a value or raises, and changes the state.  An
  exception leaves the state as it is at the point of the \<^verbatim>\<open>throw\<close>.
\<close>

record 's env =
  env_rop :: Rop
  env_realm :: realm
  env_host :: "FunctionType \<Rightarrow> nat \<Rightarrow> val \<Rightarrow> val list \<Rightarrow> 's \<Rightarrow> (error + val) \<times> 's"

text \<open>\<^verbatim>\<open>f.call(this, ...args)\<close>; a plain call \<^verbatim>\<open>f(...args)\<close> has receiver
  \<^verbatim>\<open>undefined\<close>.  The wrapper of an arrow function passes its receiver on as the
  first argument: \<^verbatim>\<open>return operationFn(this, ...args)\<close>.\<close>

fun invoke :: "'s env \<Rightarrow> code \<Rightarrow> val \<Rightarrow> val list \<Rightarrow> 's \<Rightarrow> (error + val) \<times> 's" where
  "invoke E (Host k n) this args s = env_host E k n this args s"
| "invoke E (Builtin b) this args s = (run_builtin b this args, s)"
| "invoke E (Adapter f) this args s = invoke E f VUndefined (this # args) s"

text \<open>\<^verbatim>\<open>evaluateValueNode\<close> and \<^verbatim>\<open>evaluateIdentifierNode\<close>.\<close>

definition evaluateValueNode :: "token \<Rightarrow> error + val" where
  "evaluateValueNode tok =
    (case tok of
       Embedded v \<Rightarrow> Inr v
     | Constant l v \<Rightarrow> Inr v
     | _ \<Rightarrow> Inl (Error ''Unknown value token type''))"

definition evaluateIdentifierNode :: "Rop \<Rightarrow> string \<Rightarrow> error + val" where
  "evaluateIdentifierNode r name =
    (case map_of (bindings r) name of
       None \<Rightarrow> Inl (Error (''Unknown identifier: '' @ name))
     | Some v \<Rightarrow> Inr v)"

text \<open>
  The part of \<^verbatim>\<open>evaluateUnaryNode\<close> after the operand is evaluated, and the part
  of \<^verbatim>\<open>evaluateBinaryNode\<close> after both operands are.
\<close>

definition dispatchUnary :: "'s env \<Rightarrow> string \<Rightarrow> val \<Rightarrow> 's \<Rightarrow> (error + val) \<times> 's" where
  "dispatchUnary E op operandValue s =
    (case meta op of
       None \<Rightarrow> (Inl (TypeError ''Cannot read properties of null''), s)
     | Some m \<Rightarrow>
         (if \<not> is_unary m then (Inl (Error ''Invalid node: [object Object]''), s)
          else
            (case getOverloadOnInstance (env_rop E) (env_realm E) operandValue op of
               Inl e \<Rightarrow> (Inl e, s)
             | Inr (Some f) \<Rightarrow> invoke E f operandValue [] s
             | Inr None \<Rightarrow> (native op operandValue VUndefined, s))))"

definition dispatchBinary :: "'s env \<Rightarrow> string \<Rightarrow> val \<Rightarrow> val \<Rightarrow> 's \<Rightarrow> (error + val) \<times> 's" where
  "dispatchBinary E op leftValue rightValue s =
    (case meta op of
       None \<Rightarrow> (Inl (TypeError ''Cannot read properties of null''), s)
     | Some m \<Rightarrow>
         (if \<not> is_binary m then (Inl (Error ''Invalid node: [object Object]''), s)
          else
            (case getOverloadOnInstance (env_rop E) (env_realm E) leftValue op of
               Inl e \<Rightarrow> (Inl e, s)
             | Inr (Some leftOverload) \<Rightarrow> invoke E leftOverload leftValue [rightValue] s
             | Inr None \<Rightarrow>
                 (case getOverloadOnInstance (env_rop E) (env_realm E) rightValue op of
                    Inl e \<Rightarrow> (Inl e, s)
                  | Inr (Some rightOverload) \<Rightarrow> invoke E rightOverload rightValue [leftValue] s
                  | Inr None \<Rightarrow> (native op leftValue rightValue, s)))))"

text \<open>The call of \<^verbatim>\<open>evaluateInvokeNode\<close>, after callee and arguments are evaluated.\<close>

definition callTarget :: "'s env \<Rightarrow> val \<Rightarrow> val list \<Rightarrow> 's \<Rightarrow> (error + val) \<times> 's" where
  "callTarget E target args s =
    (case code_of (Some target) of
       None \<Rightarrow> (Inl (Error (''Cannot invoke non-function: '' @ typeof target)), s)
     | Some f \<Rightarrow> invoke E f VUndefined args s)"

text \<open>
  The evaluater proper.  \<open>evaluateNodes\<close> is \<^verbatim>\<open>node.args.map(...)\<close>,
  \<open>evaluateOptional\<close> is \<^verbatim>\<open>ns.start ? this.evaluateNode(ns.start) : undefined\<close>,
  \<open>calculateSlices\<close> is \<^verbatim>\<open>node.slices.map((ns) => this.calculateSlice(ns))\<close>.
\<close>

fun evaluateNode :: "'s env \<Rightarrow> node \<Rightarrow> 's \<Rightarrow> (error + val) \<times> 's"
  and evaluateNodes :: "'s env \<Rightarrow> node list \<Rightarrow> 's \<Rightarrow> (error + val list) \<times> 's"
  and evaluateOptional :: "'s env \<Rightarrow> node option \<Rightarrow> 's \<Rightarrow> (error + val) \<times> 's"
  and calculateSlice :: "'s env \<Rightarrow> NodeSlice \<Rightarrow> 's \<Rightarrow> (error + val) \<times> 's"
  and calculateSlices :: "'s env \<Rightarrow> NodeSlice list \<Rightarrow> 's \<Rightarrow> (error + val list) \<times> 's"
where
  "evaluateNode E (ValueNode tok) s = (evaluateValueNode tok, s)"
| "evaluateNode E (IdentifierNode name) s = (evaluateIdentifierNode (env_rop E) name, s)"
| "evaluateNode E (UnaryNode op operand) s =
    (case evaluateNode E operand s of
       (Inl e, s1) \<Rightarrow> (Inl e, s1)
     | (Inr operandValue, s1) \<Rightarrow> dispatchUnary E op operandValue s1)"
| "evaluateNode E (BinaryNode left op right) s =
    (case evaluateNode E left s of
       (Inl e, s1) \<Rightarrow> (Inl e, s1)
     | (Inr leftValue, s1) \<Rightarrow>
         (case evaluateNode E right s1 of
            (Inl e, s2) \<Rightarrow> (Inl e, s2)
          | (Inr rightValue, s2) \<Rightarrow> dispatchBinary E op leftValue rightValue s2))"
| "evaluateNode E (AccessPropertyNode left name) s =
    (case evaluateNode E left s of
       (Inl e, s1) \<Rightarrow> (Inl e, s1)
     | (Inr leftValue, s1) \<Rightarrow> (get_property (env_realm E) leftValue (KStr name), s1))"
| "evaluateNode E (InvokeNode target args) s =
    (case evaluateNode E target s of
       (Inl e, s1) \<Rightarrow> (Inl e, s1)
     | (Inr targetValue, s1) \<Rightarrow>
         (case evaluateNodes E args s1 of
            (Inl e, s2) \<Rightarrow> (Inl e, s2)
          | (Inr argValues, s2) \<Rightarrow> callTarget E targetValue argValues s2))"
| "evaluateNode E (IndexingNode target index) s =
    (case evaluateNode E target s of
       (Inl e, s1) \<Rightarrow> (Inl e, s1)
     | (Inr targetValue, s1) \<Rightarrow>
         (case getOverloadOnInstance (env_rop E) (env_realm E) targetValue ''[i]'' of
            Inl e \<Rightarrow> (Inl e, s1)
          | Inr fn \<Rightarrow>
              (case evaluateNode E index s1 of
                 (Inl e, s2) \<Rightarrow> (Inl e, s2)
               | (Inr indexValue, s2) \<Rightarrow>
                   (case fn of
                      Some f \<Rightarrow> invoke E f targetValue [indexValue] s2
                    | None \<Rightarrow> (get_index (env_realm E) targetValue indexValue, s2)))))"
| "evaluateNode E (SlicingNode target slices) s =
    (case evaluateNode E target s of
       (Inl e, s1) \<Rightarrow> (Inl e, s1)
     | (Inr targetValue, s1) \<Rightarrow>
         (case getOverloadOnInstance (env_rop E) (env_realm E) targetValue ''[:]'' of
            Inl e \<Rightarrow> (Inl e, s1)
          | Inr (Some f) \<Rightarrow>
              (case calculateSlices E slices s1 of
                 (Inl e, s2) \<Rightarrow> (Inl e, s2)
               | (Inr sliceValues, s2) \<Rightarrow> invoke E f targetValue [VArr sliceValues] s2)
          | Inr None \<Rightarrow>
              (if length slices \<noteq> 1 then (Inl (Error ''Target does not support slicing''), s1)
               else
                 (case slices of
                    [] \<Rightarrow> (Inl (Error ''Target does not support slicing''), s1)
                  | dim # rest \<Rightarrow>
                      (if slice_end dim \<noteq> None \<or> slice_step dim \<noteq> None
                       then (Inl (Error ''Target does not support slicing with end or step''), s1)
                       else
                         (case calculateSlice E dim s1 of
                            (Inl e, s2) \<Rightarrow> (Inl e, s2)
                          | (Inr sl, s2) \<Rightarrow>
                              (case sl of
                                 VSlice start endv step \<Rightarrow>
                                   (get_index (env_realm E) targetValue start, s2)
                               | _ \<Rightarrow> (Inl (Unmodelled ''slice''), s2))))))))"
| "evaluateNodes E [] s = (Inr [], s)"
| "evaluateNodes E (n # ns) s =
    (case evaluateNode E n s of
       (Inl e, s1) \<Rightarrow> (Inl e, s1)
     | (Inr v, s1) \<Rightarrow>
         (case evaluateNodes E ns s1 of
            (Inl e, s2) \<Rightarrow> (Inl e, s2)
          | (Inr vs, s2) \<Rightarrow> (Inr (v # vs), s2)))"
| "evaluateOptional E None s = (Inr VUndefined, s)"
| "evaluateOptional E (Some n) s = evaluateNode E n s"
| "calculateSlice E (NodeSlice start endv step) s =
    (case evaluateOptional E start s of
       (Inl e, s1) \<Rightarrow> (Inl e, s1)
     | (Inr a, s1) \<Rightarrow>
         (case evaluateOptional E endv s1 of
            (Inl e, s2) \<Rightarrow> (Inl e, s2)
          | (Inr b, s2) \<Rightarrow>
              (case evaluateOptional E step s2 of
                 (Inl e, s3) \<Rightarrow> (Inl e, s3)
               | (Inr c, s3) \<Rightarrow> (Inr (VSlice a b c), s3))))"
| "calculateSlices E [] s = (Inr [], s)"
| "calculateSlices E (ns # rest) s =
    (case calculateSlice E ns s of
       (Inl e, s1) \<Rightarrow> (Inl e, s1)
     | (Inr v, s1) \<Rightarrow>
         (case calculateSlices E rest s1 of
            (Inl e, s2) \<Rightarrow> (Inl e, s2)
          | (Inr vs, s2) \<Rightarrow> (Inr (v # vs), s2)))"

section \<open>AST parser\<close>

text \<open>
  The parser walks a token array with a position that only moves forward
  (\<^verbatim>\<open>TokenWalker\<close>); its state here is the list of tokens not yet consumed.  The
  methods call each other recursively; each call below spends one unit of a fuel
  argument, and \<open>OutOfFuel\<close> is the answer of a call that was given too little.
  A result is otherwise the exception raised or the value with the remaining
  tokens.
\<close>

datatype 'a parsed = OutOfFuel | Fail error | Ok 'a "token list"

definition is_whitespace :: "token \<Rightarrow> bool" where
  "is_whitespace t = (case t of Whitespace l \<Rightarrow> True | _ \<Rightarrow> False)"

definition skipWhitespace :: "token list \<Rightarrow> token list" where
  "skipWhitespace ts = dropWhile is_whitespace ts"

text \<open>\<^verbatim>\<open>peekPunctuation(literal)\<close> as a test, and \<^verbatim>\<open>tryConsumePunctuation\<close>.\<close>

definition peekPunctuation :: "string \<Rightarrow> token list \<Rightarrow> bool" where
  "peekPunctuation lit ts = (case ts of Punctuation l # rest \<Rightarrow> l = lit | _ \<Rightarrow> False)"

definition tryConsumePunctuation :: "string \<Rightarrow> token list \<Rightarrow> token list option" where
  "tryConsumePunctuation lit ts =
    (case ts of Punctuation l # rest \<Rightarrow> (if l = lit then Some rest else None) | _ \<Rightarrow> None)"

text \<open>\<^verbatim>\<open>slice[colons] = s\<close> on the array read back as
  \<^verbatim>\<open>{ start: slice[0], end: slice[1], step: slice[2] }\<close>.\<close>

definition set_slot :: "nat \<Rightarrow> node \<Rightarrow> NodeSlice \<Rightarrow> NodeSlice" where
  "set_slot colons e ns =
    (case ns of NodeSlice a b c \<Rightarrow>
       if colons = 0 then NodeSlice (Some e) b c
       else if colons = 1 then NodeSlice a (Some e) c
       else if colons = 2 then NodeSlice a b (Some e)
       else ns)"

text \<open>
  The end of the \<^verbatim>\<open>[\<close> case: what node the subscript becomes.  When nothing
  applies (no slice and no flag) \<^verbatim>\<open>left\<close> stays as it is.
\<close>

definition subscriptNode :: "node \<Rightarrow> NodeSlice list \<Rightarrow> bool \<Rightarrow> node" where
  "subscriptNode left slices isSlicing =
    (if isSlicing \<or> length slices > 1 then SlicingNode left slices
     else
       (case slices of
          [ns] \<Rightarrow>
            (case ns of
               NodeSlice (Some e) None None \<Rightarrow> IndexingNode left e
             | _ \<Rightarrow> SlicingNode left slices)
        | _ \<Rightarrow> left))"

text \<open>
  \<open>parseExpression\<close> is the method of that name up to the loop, \<open>parseLoop\<close> the
  loop \<^verbatim>\<open>loop_parse_exp\<close>, \<open>parseArgs\<close> the loop of the \<^verbatim>\<open>(\<close> case,
  \<open>parseSubscript\<close> the \<^verbatim>\<open>[\<close> case after the bracket is consumed, \<open>parseSlices\<close>
  its outer loop and \<open>parseSlice\<close> the loop inside the function that reads one
  dimension; the flag \<^verbatim>\<open>isSlicing\<close> is shared by the two loops.
\<close>

function parseExpression :: "nat \<Rightarrow> nat \<Rightarrow> token list \<Rightarrow> node parsed"
  and parseLoop :: "nat \<Rightarrow> nat \<Rightarrow> node \<Rightarrow> token list \<Rightarrow> node parsed"
  and parseAtom :: "nat \<Rightarrow> token list \<Rightarrow> node parsed"
  and parseArgs :: "nat \<Rightarrow> node list \<Rightarrow> token list \<Rightarrow> (node list) parsed"
  and parseSubscript :: "nat \<Rightarrow> node \<Rightarrow> token list \<Rightarrow> node parsed"
  and parseSlices ::
    "nat \<Rightarrow> NodeSlice list \<Rightarrow> bool \<Rightarrow> nat \<Rightarrow> token list \<Rightarrow> (NodeSlice list \<times> bool \<times> nat) parsed"
  and parseSlice ::
    "nat \<Rightarrow> NodeSlice \<Rightarrow> nat \<Rightarrow> bool \<Rightarrow> bool \<Rightarrow> token list \<Rightarrow> (NodeSlice option \<times> bool) parsed"
where
  "parseExpression 0 prec ts = OutOfFuel"
| "parseExpression (Suc n) prec ts =
    (case parseAtom n ts of
       OutOfFuel \<Rightarrow> OutOfFuel
     | Fail e \<Rightarrow> Fail e
     | Ok left ts1 \<Rightarrow> parseLoop n prec left ts1)"
| "parseLoop 0 prec left ts0 = OutOfFuel"
| "parseLoop (Suc n) prec left ts0 =
    (case skipWhitespace ts0 of
       [] \<Rightarrow> Ok left []
     | Operator lit # rest \<Rightarrow>
         (case binaryFromLiteral lit of
            None \<Rightarrow> Fail (Error ''Unexpected token: [object Object], binary operator expected'')
          | Some operator \<Rightarrow>
              (case meta operator of
                 Some (BinaryOp l p) \<Rightarrow>
                   (if p < prec then Ok left (Operator lit # rest)
                    else
                      (case parseExpression n (if operator = ''**'' then p else p + 1) rest of
                         OutOfFuel \<Rightarrow> OutOfFuel
                       | Fail e \<Rightarrow> Fail e
                       | Ok right ts2 \<Rightarrow> parseLoop n prec (BinaryNode left operator right) ts2))
               | _ \<Rightarrow> Fail (Error ''Never!'')))
     | Punctuation lit # rest \<Rightarrow>
         (if lit = ''.'' then
            (case skipWhitespace rest of
               Identifier name # rest' \<Rightarrow> parseLoop n prec (AccessPropertyNode left name) rest'
             | _ \<Rightarrow> Fail (Error ''Expected identifier after dot''))
          else if lit = ''('' then
            (case parseArgs n [] rest of
               OutOfFuel \<Rightarrow> OutOfFuel
             | Fail e \<Rightarrow> Fail e
             | Ok args ts2 \<Rightarrow> parseLoop n prec (InvokeNode left args) ts2)
          else if lit = ''['' then
            (case parseSubscript n left rest of
               OutOfFuel \<Rightarrow> OutOfFuel
             | Fail e \<Rightarrow> Fail e
             | Ok nd ts2 \<Rightarrow> parseLoop n prec nd ts2)
          else Ok left (Punctuation lit # rest))
     | t # rest \<Rightarrow> Ok left (t # rest))"
| "parseAtom 0 ts0 = OutOfFuel"
| "parseAtom (Suc n) ts0 =
    (case skipWhitespace ts0 of
       [] \<Rightarrow> Fail (Error ''Unexpected end of expression'')
     | Embedded v # rest \<Rightarrow> Ok (ValueNode (Embedded v)) rest
     | Constant l v # rest \<Rightarrow> Ok (ValueNode (Constant l v)) rest
     | Identifier name # rest \<Rightarrow> Ok (IdentifierNode name) rest
     | Operator lit # rest \<Rightarrow>
         (case unaryFromLiteral lit of
            None \<Rightarrow> Fail (Error (''Unexpected operator: '' @ [CHR 0x27] @ lit @ [CHR 0x27]))
          | Some unaryOperatorName \<Rightarrow>
              (case meta unaryOperatorName of
                 Some (UnaryOp l p) \<Rightarrow>
                   (case parseExpression n p rest of
                      OutOfFuel \<Rightarrow> OutOfFuel
                    | Fail e \<Rightarrow> Fail e
                    | Ok operand ts1 \<Rightarrow> Ok (UnaryNode unaryOperatorName operand) ts1)
               | _ \<Rightarrow> Fail (Error ''Never!'')))
     | Punctuation lit # rest \<Rightarrow>
         (if lit = ''('' then
            (case parseExpression n 0 rest of
               OutOfFuel \<Rightarrow> OutOfFuel
             | Fail e \<Rightarrow> Fail e
             | Ok expr ts1 \<Rightarrow>
                 (case tryConsumePunctuation '')'' (skipWhitespace ts1) of
                    None \<Rightarrow> Fail (Error ''Expected closing parenthesis'')
                  | Some ts2 \<Rightarrow> Ok expr ts2))
          else Fail (Error (''Unexpected punctuation: '' @ lit)))
     | Whitespace l # rest \<Rightarrow>
         Fail (Error (''Unexpected whitespace token: '' @ [CHR 0x27] @ l @ [CHR 0x27])))"
| "parseArgs 0 args ts0 = OutOfFuel"
| "parseArgs (Suc n) args ts0 =
    (case tryConsumePunctuation '')'' (skipWhitespace ts0) of
       Some rest \<Rightarrow> Ok args rest
     | None \<Rightarrow>
         (case parseExpression n 0 (skipWhitespace ts0) of
            OutOfFuel \<Rightarrow> OutOfFuel
          | Fail e \<Rightarrow> Fail e
          | Ok arg ts1 \<Rightarrow>
              parseArgs n (args @ [arg])
                (case tryConsumePunctuation '','' (skipWhitespace ts1) of
                   Some rest \<Rightarrow> rest
                 | None \<Rightarrow> skipWhitespace ts1)))"
| "parseSubscript 0 left ts0 = OutOfFuel"
| "parseSubscript (Suc n) left ts0 =
    (if peekPunctuation '']'' (skipWhitespace ts0)
     then Fail (Error ''Empty subscript is not allowed'')
     else
       (case parseSlices n [] False 0 (skipWhitespace ts0) of
          OutOfFuel \<Rightarrow> OutOfFuel
        | Fail e \<Rightarrow> Fail e
        | Ok (slices, isSlicing, elementCount) ts1 \<Rightarrow>
            (if elementCount = 0 then Fail (Error ''Empty indexing or slicing expression'')
             else Ok (subscriptNode left slices isSlicing) ts1)))"
| "parseSlices 0 slices isSlicing elementCount ts0 = OutOfFuel"
| "parseSlices (Suc n) slices isSlicing elementCount ts0 =
    (case parseSlice n (NodeSlice None None None) 0 False isSlicing (skipWhitespace ts0) of
       OutOfFuel \<Rightarrow> OutOfFuel
     | Fail e \<Rightarrow> Fail e
     | Ok (sl, isSlicing1) ts1 \<Rightarrow>
         (let slices1 = (case sl of None \<Rightarrow> slices | Some ns \<Rightarrow> slices @ [ns]);
              elementCount1 = (case sl of None \<Rightarrow> elementCount | Some ns \<Rightarrow> elementCount + 1)
          in
            (case tryConsumePunctuation '','' (skipWhitespace ts1) of
               Some rest \<Rightarrow> parseSlices n slices1 True elementCount1 rest
             | None \<Rightarrow>
                 (case tryConsumePunctuation '']'' (skipWhitespace ts1) of
                    Some rest \<Rightarrow> Ok (slices1, isSlicing1, elementCount1) rest
                  | None \<Rightarrow> parseSlices n slices1 isSlicing1 elementCount1 (skipWhitespace ts1)))))"
| "parseSlice 0 ns colons hasExpression isSlicing ts = OutOfFuel"
| "parseSlice (Suc n) ns colons hasExpression isSlicing ts =
    (if peekPunctuation '','' ts \<or> peekPunctuation '']'' ts then
       Ok (if hasExpression \<or> colons > 0 then Some ns else None, isSlicing) ts
     else
       (case tryConsumePunctuation '':'' ts of
          Some rest \<Rightarrow> parseSlice n ns (colons + 1) hasExpression True rest
        | None \<Rightarrow>
            (case parseExpression n 0 ts of
               OutOfFuel \<Rightarrow> OutOfFuel
             | Fail e \<Rightarrow> Fail e
             | Ok e ts1 \<Rightarrow> parseSlice n (set_slot colons e ns) colons True isSlicing ts1)))"

  by pat_completeness auto
termination
  by (relation "measure (case_sum (case_sum fst (case_sum fst fst))
        (case_sum (case_sum fst fst) (case_sum fst fst)))") simp_all

text \<open>A dimension that has a start and nothing else.\<close>

definition start_only :: "NodeSlice \<Rightarrow> bool" where
  "start_only ns = (case ns of NodeSlice a b c \<Rightarrow> a \<noteq> None \<and> b = None \<and> c = None)"

text \<open>\<^verbatim>\<open>AstParser.parse\<close>.\<close>

definition parse :: "nat \<Rightarrow> token list \<Rightarrow> node parsed" where
  "parse fuel tokens =
    (if skipWhitespace tokens = [] then Fail (Error ''Empty expression'')
     else
       (case parseExpression fuel 0 (skipWhitespace tokens) of
          OutOfFuel \<Rightarrow> OutOfFuel
        | Fail e \<Rightarrow> Fail e
        | Ok result ts \<Rightarrow>
            (if skipWhitespace ts \<noteq> [] then Fail (Error ''Unexpected token at end of expression'')
             else Ok result [])))"

subsection \<open>Brackets by their dimensions\<close>

text \<open>
  The tokens of a bracket, written by its parts: dimensions separated by commas,
  each dimension a first slot and further slots, each behind a colon, and a slot
  either empty or an expression.  An expression is given by its tokens and the
  node it parses to (a \<open>source\<close>).  \<open>bracket_tokens\<close> are the tokens after the
  opening bracket, up to the closing one.
\<close>

type_synonym source = "token list \<times> node"
type_synonym dimension = "source option \<times> source option list"

definition slot_tokens :: "source option \<Rightarrow> token list" where
  "slot_tokens s = (case s of None \<Rightarrow> [] | Some src \<Rightarrow> fst src)"

definition dim_tokens :: "dimension \<Rightarrow> token list" where
  "dim_tokens d =
    slot_tokens (fst d) @ concat (map (\<lambda>s. Punctuation '':'' # slot_tokens s) (snd d))"

definition bracket_tokens :: "dimension \<Rightarrow> dimension list \<Rightarrow> token list" where
  "bracket_tokens d ds =
    dim_tokens d @ concat (map (\<lambda>d'. Punctuation '','' # dim_tokens d') ds) @ [Punctuation '']'']"

text \<open>
  What the parser makes of them.  A dimension with no expression and no colon
  gives no slice; any other gives the slice of its first three slots.  The node is
  a Slicing node when a dimension has a colon or the bracket has a comma, and an
  Indexing node otherwise.
\<close>

definition nth_node :: "source option list \<Rightarrow> nat \<Rightarrow> node option" where
  "nth_node slots i = (if i < length slots then map_option snd (slots ! i) else None)"

definition dim_slice :: "dimension \<Rightarrow> NodeSlice option" where
  "dim_slice d =
    (if fst d = None \<and> snd d = [] then None
     else Some (NodeSlice (nth_node (fst d # snd d) 0) (nth_node (fst d # snd d) 1)
                  (nth_node (fst d # snd d) 2)))"

definition bracket_node :: "node \<Rightarrow> dimension \<Rightarrow> dimension list \<Rightarrow> node" where
  "bracket_node left d ds =
    (if (\<exists>d' \<in> set (d # ds). snd d' \<noteq> []) \<or> ds \<noteq> []
     then SlicingNode left (List.map_filter dim_slice (d # ds))
     else (case fst d of Some src \<Rightarrow> IndexingNode left (snd src) | None \<Rightarrow> left))"

text \<open>
  For the proofs: a slot without the whitespace in front of its expression, the
  tokens at which an expression inside a bracket ends, and the array \<^verbatim>\<open>slice\<close> of
  the inner loop after it has read some slots, from colon count \<open>c\<close> on.
\<close>

definition strip :: "source option \<Rightarrow> source option" where
  "strip s = map_option (\<lambda>src. (skipWhitespace (fst src), snd src)) s"

definition stops :: "token list \<Rightarrow> bool" where
  "stops ts = (peekPunctuation '']'' ts \<or> peekPunctuation '','' ts \<or> peekPunctuation '':'' ts)"

fun fill :: "NodeSlice \<Rightarrow> nat \<Rightarrow> source option list \<Rightarrow> NodeSlice" where
  "fill ns c [] = ns"
| "fill ns c (s # ss) =
    fill (case s of None \<Rightarrow> ns | Some src \<Rightarrow> set_slot c (snd src) ns) (c + 1) ss"

section \<open>The process-wide instance\<close>

text \<open>\<^verbatim>\<open>bindDefaults\<close>, \<^verbatim>\<open>bindMaths\<close> and \<^verbatim>\<open>overloadDefaults\<close>.  The classes
  \<^verbatim>\<open>Array\<close>, \<^verbatim>\<open>String\<close> and \<^verbatim>\<open>Set\<close> are those of the host, whose \<^verbatim>\<open>prototype\<close>
  properties are the prototypes of the realm.\<close>

definition bindDefaults :: "realm \<Rightarrow> Rop \<Rightarrow> Rop" where
  "bindDefaults rl r =
    bind_all
      [(''true'', VBool True),
       (''false'', VBool False),
       (''null'', VNull),
       (''undefined'', VUndefined),
       (''Infinity'', VNumOther ''Infinity''),
       (''NaN'', VNumOther ''NaN''),
       (''Object'', globals rl ''Object''),
       (''Number'', globals rl ''Number''),
       (''BigInt'', globals rl ''BigInt''),
       (''String'', globals rl ''String''),
       (''Boolean'', globals rl ''Boolean''),
       (''Array'', globals rl ''Array''),
       (''Date'', globals rl ''Date''),
       (''Symbol'', globals rl ''Symbol''),
       (''JSON'', globals rl ''JSON''),
       (''Math'', globals rl ''Math'')] r"

definition bindMaths :: "realm \<Rightarrow> Rop \<Rightarrow> Rop" where
  "bindMaths rl r = bind_all (mathProps rl) r"

definition overloadDefaults :: "realm \<Rightarrow> Rop \<Rightarrow> Rop" where
  "overloadDefaults rl r =
    overloads_on (oid (setProto rl)) [(''+'', Builtin SetAdd), (''-'', Builtin SetSub)]
      (overloads_on (oid (stringProto rl)) [(''*'', Builtin StringMul)]
        (overloads_on (oid (arrayProto rl))
           [(''+'', Builtin ArrayAdd), (''[i]'', Builtin ArrayIndexing), (''[:]'', Builtin ArraySlicing)]
           r))"

text \<open>\<^verbatim>\<open>new Rop().bindDefaults().bindMaths().overloadDefaults()\<close>.\<close>

definition default_Rop :: "realm \<Rightarrow> Rop" where
  "default_Rop rl = overloadDefaults rl (bindMaths rl (bindDefaults rl new_Rop))"

text \<open>
  Engines are objects of the host program: the program holds references to them,
  and a method such as \<^verbatim>\<open>bind\<close> changes the engine behind a reference.  A world is
  the store of all engines made so far (a reference is an index into it) together
  with the static field \<^verbatim>\<open>Rop.instance\<close>.
\<close>

record world =
  engines :: "Rop list"
  instance_field :: "nat option"

text \<open>\<^verbatim>\<open>new Rop()\<close> followed by calls that configure the new engine.\<close>

definition create :: "Rop \<Rightarrow> world \<Rightarrow> nat \<times> world" where
  "create r w = (length (engines w), w\<lparr>engines := engines w @ [r]\<rparr>)"

text \<open>A method call that changes the engine behind the reference \<open>a\<close>.\<close>

definition modify :: "nat \<Rightarrow> (Rop \<Rightarrow> Rop) \<Rightarrow> world \<Rightarrow> world" where
  "modify a f w = (if a < length (engines w) then w\<lparr>engines := (engines w)[a := f (engines w ! a)]\<rparr> else w)"

text \<open>The getter \<^verbatim>\<open>Rop.INST\<close> and \<^verbatim>\<open>Rop.resetDefaultInstance\<close>.\<close>

definition INST :: "realm \<Rightarrow> world \<Rightarrow> nat \<times> world" where
  "INST rl w =
    (case instance_field w of
       None \<Rightarrow> (let (a, w1) = create (default_Rop rl) w in (a, w1\<lparr>instance_field := Some a\<rparr>))
     | Some a \<Rightarrow> (a, w))"

definition resetDefaultInstance :: "world \<Rightarrow> world" where
  "resetDefaultInstance w = w\<lparr>instance_field := None\<rparr>"

section \<open>A small host for examples\<close>

text \<open>A realm whose built-in prototypes declare nothing, and a host whose
  functions count their calls in the state and return what \<open>ret\<close> makes of the
  receiver and the arguments.\<close>

definition plain_realm :: realm where
  "plain_realm =
    \<lparr>objectProto = Obj 1 None [] None,
     numberProto = Obj 2 None [] (Some (Obj 1 None [] None)),
     stringProto = Obj 3 None [] (Some (Obj 1 None [] None)),
     booleanProto = Obj 4 None [] (Some (Obj 1 None [] None)),
     bigintProto = Obj 5 None [] (Some (Obj 1 None [] None)),
     arrayProto = Obj 6 None [] (Some (Obj 1 None [] None)),
     setProto = Obj 7 None [] (Some (Obj 1 None [] None)),
     globals = (\<lambda>n. VUndefined),
     mathProps = [(''PI'', VNumOther ''3.141592653589793'')]\<rparr>"

definition counting_host ::
  "(val \<Rightarrow> val list \<Rightarrow> val) \<Rightarrow> FunctionType \<Rightarrow> nat \<Rightarrow> val \<Rightarrow> val list \<Rightarrow> nat \<Rightarrow> (error + val) \<times> nat" where
  "counting_host ret k n this args s = (Inr (ret this args), Suc s)"

definition plain_env :: "(val \<Rightarrow> val list \<Rightarrow> val) \<Rightarrow> nat env" where
  "plain_env ret = \<lparr>env_rop = new_Rop, env_realm = plain_realm, env_host = counting_host ret\<rparr>"

text \<open>A host function as a value, \<^verbatim>\<open>() => ...\<close>.\<close>

definition arrow_fn :: val where
  "arrow_fn = VObj (Obj 20 (Some (Host FnArrow 0)) [] None)"

text \<open>A class \<^verbatim>\<open>Vec2\<close> that declares \<^verbatim>\<open>[Rop.op('+')]\<close> as a method (code 1), an
  instance of it, and an engine on which \<^verbatim>\<open>rop.overload(Vec2, '+', ...)\<close> has
  registered another function (code 2).\<close>

definition Vec2_prototype :: obj where
  "Vec2_prototype =
    Obj 10 None [(KSym ''+'', VObj (Obj 11 (Some (Host FnMethod 1)) [] None))]
      (Some (objectProto plain_realm))"

definition Vec2_instance :: obj where
  "Vec2_instance = Obj 12 None [(KStr ''x'', VNum 2), (KStr ''y'', VNum 3)] (Some Vec2_prototype)"

definition Vec2_rop :: Rop where
  "Vec2_rop = setOverload new_Rop (oid Vec2_prototype) ''+'' (Host FnNormal 2)"

text \<open>
  A world that has been in use: a user engine at reference 0 with a binding and an
  overload of its own, and the singleton at reference 1, to which a binding
  \<open>name\<close> and an overload on the \<open>Vec2\<close> prototype were added.
\<close>

definition user_engine :: Rop where
  "user_engine = setOverload (bind ''a'' (VNum 1) new_Rop) 10 ''-'' (Host FnNormal 3)"

definition used_world :: world where
  "used_world =
    \<lparr>engines =
       [user_engine,
        setOverload (bind ''name'' (VStr ''rop'') (default_Rop plain_realm)) 10 ''+'' (Host FnNormal 2)],
     instance_field = Some 1\<rparr>"

text \<open>The constant token of a natural number.\<close>

definition num :: "nat \<Rightarrow> token" where
  "num n = Constant (show_nat n) (VNum (int n))"

section \<open>Tokenizer: embedded values\<close>

lemma TokenFactory_interpolation:
  "TokenFactory_call ''interpolation'' v = Inl (TypeError ''TokenFactory.interpolation is not a function'')"
  by (simp add: TokenFactory_call_def TokenFactory_def)

lemma tokenize_args_fails:
  "as \<noteq> [] \<Longrightarrow> \<exists>e. tokenize_args scan raw i as tokens = Inl e"
  by (cases as) (auto simp: TokenFactory_interpolation split: sum.splits)

text \<open>
  Claim C1 (the tokenizer puts, between the tokens of consecutive fragments, an
  Embedded token carrying the host value): the code does not do this.  The entry
  point calls \<^verbatim>\<open>TokenFactory.interpolation\<close>, a method the factory does not have
  (its method is \<^verbatim>\<open>embeddedValue\<close>), so every template with at least one embedded
  value fails, whatever the fragments are; with a first fragment that scans, the
  failure is the \<^verbatim>\<open>TypeError\<close> of the missing method.
\<close>

theorem tokenize_embedded_fails:
  "args \<noteq> [] \<Longrightarrow>
    (\<exists>e. tokenize scan (Template raw) args = Inl e) \<and>
    (\<forall>ts. raw \<noteq> [] \<and> scan (hd raw) = Inr ts \<longrightarrow>
       tokenize scan (Template raw) args =
         Inl (TypeError ''TokenFactory.interpolation is not a function''))"
proof -
  assume ne: "args \<noteq> []"
  then obtain a as where args: "args = a # as" by (cases args) auto
  from tokenize_args_fails [OF ne] obtain e where
    "tokenize_args scan raw 0 args [] = Inl e" by blast
  then have first: "\<exists>e. tokenize scan (Template raw) args = Inl e"
    by (simp add: tokenize_def)
  have second: "tokenize scan (Template raw) args =
      Inl (TypeError ''TokenFactory.interpolation is not a function'')"
    if "raw \<noteq> []" "scan (hd raw) = Inr ts" for ts
  proof -
    from that have "0 < length raw" "scan (raw ! 0) = Inr ts"
      by (simp_all add: hd_conv_nth)
    then show ?thesis
      by (simp add: tokenize_def args TokenFactory_interpolation)
  qed
  from first second show ?thesis by blast
qed

theorem tokenize_embedded_fails_witness:
  "[VNum 2] \<noteq> [] \<and>
   tokenize (\<lambda>s. Inr []) (Template [[], []]) [VNum 2] =
     Inl (TypeError ''TokenFactory.interpolation is not a function'')"
  using tokenize_embedded_fails [of "[VNum 2]" "\<lambda>s. Inr []" "[[], []]"]
  by simp

section \<open>Overload resolution: what the walk finds\<close>

lemma lookup_undefined:
  "getOverloadOnInstance r rl VUndefined tag =
    Inl (TypeError ''Cannot convert undefined or null to object'')"
  by (simp add: getOverloadOnInstance_def getOverloadFromPrototypeChain_def typeof_def
      getPrototypeOf_def code_of_def)

lemma lookup_null: "getOverloadOnInstance r rl VNull tag = Inr None"
  by (simp add: getOverloadOnInstance_def getOverloadFromPrototypeChain_def)

lemma plain_env_sel:
  "env_rop (plain_env ret) = new_Rop" "env_realm (plain_env ret) = plain_realm"
  by (simp_all add: plain_env_def)

lemma plain_lookup_bool:
  "getOverloadOnInstance (env_rop (plain_env ret)) (env_realm (plain_env ret)) (VBool b) tag = Inr None"
  by (simp add: plain_env_sel getOverloadOnInstance_def getOverloadFromPrototypeChain_def
      typeof_def getPrototypeOf_def plain_realm_def table_get_def new_Rop_def code_of_def)

lemma plain_lookup_num:
  "getOverloadOnInstance (env_rop (plain_env ret)) (env_realm (plain_env ret)) (VNum n) tag = Inr None"
  by (simp add: plain_env_sel getOverloadOnInstance_def getOverloadFromPrototypeChain_def
      typeof_def getPrototypeOf_def plain_realm_def table_get_def new_Rop_def code_of_def)

text \<open>
  The walk from a prototype on: an entry of the engine's table for that very
  prototype is found first.
\<close>

lemma walk_table_first:
  "table_get r (oid p) tag = Some g \<Longrightarrow> walk r tag p = Some g"
  by (cases p) simp

lemma Vec2_table:
  "table_get Vec2_rop 10 ''+'' = Some (Host FnNormal 2)"
  "table_get Vec2_rop 12 ''+'' = None"
  by (simp_all add: Vec2_rop_def setOverload_def new_Rop_def table_get_def Vec2_prototype_def
      detectFunctionType_def)

text \<open>
  Claim C4 (at each prototype the engine's table is consulted first, then the
  prototype's own declaration, then the walk moves up; no property inherited from a
  higher prototype wins over a table entry registered on that higher prototype):
  the code does not do this.  Its property test is \<^verbatim>\<open>symbol in p\<close>, which also
  sees inherited properties, and the walk of \<^verbatim>\<open>getOverloadOnInstance\<close> starts at
  the instance.  So for an object \<open>Obj i None ps (Some p)\<close> with no table entry of
  its own and no own declaration, a method that its prototype chain declares is
  returned at once, whatever the table holds for \<open>p\<close> or above.  The walk that
  starts at the prototype (\<^verbatim>\<open>getOverloadOnClass\<close>) finds the table entry instead.
\<close>

theorem inherited_declaration_shadows_table:
  assumes "table_get r i tag = None"
    and "map_of ps (KSym tag) = None"
    and "code_of (lookup_chain p (KSym tag)) = Some f"
  shows "getOverloadOnInstance r rl (VObj (Obj i None ps (Some p))) tag = Inr (Some f)"
  using assms by (simp add: getOverloadOnInstance_def getOverloadFromPrototypeChain_def)

theorem inherited_declaration_shadows_table_witness:
  "getOverloadOnInstance Vec2_rop plain_realm (VObj Vec2_instance) ''+'' = Inr (Some (Host FnMethod 1)) \<and>
   table_get Vec2_rop (oid Vec2_prototype) ''+'' = Some (Host FnNormal 2) \<and>
   getOverloadFromPrototypeChain Vec2_rop plain_realm (VObj Vec2_prototype) ''+''
     = Inr (Some (Host FnNormal 2))"
proof -
  have 1: "getOverloadOnInstance Vec2_rop plain_realm (VObj Vec2_instance) ''+''
      = Inr (Some (Host FnMethod 1))"
    unfolding Vec2_instance_def
    by (rule inherited_declaration_shadows_table)
       (simp_all add: Vec2_table Vec2_prototype_def code_of_def)
  have 2: "getOverloadFromPrototypeChain Vec2_rop plain_realm (VObj Vec2_prototype) ''+''
      = Inr (Some (Host FnNormal 2))"
    by (simp add: getOverloadFromPrototypeChain_def Vec2_prototype_def Vec2_table)
  from 1 2 show ?thesis by (simp add: Vec2_table Vec2_prototype_def)
qed

section \<open>Evaluater: dispatch\<close>

lemma meta_or: "meta ''||'' = Some (BinaryOp ''||'' 1)"
  by (simp add: meta_def OPERATION_REGISTRY_def)

lemma meta_and: "meta ''&&'' = Some (BinaryOp ''&&'' 2)"
  by (simp add: meta_def OPERATION_REGISTRY_def)

lemma meta_pow: "meta ''**'' = Some (BinaryOp ''**'' 11)"
  by (simp add: meta_def OPERATION_REGISTRY_def)

lemma native_and: "native ''&&'' a b = Inr (if truthy a then b else a)"
  by (simp add: native_def)

lemma native_or: "native ''||'' a b = Inr (if truthy a then a else b)"
  by (simp add: native_def)

lemma eval_embedded: "evaluateNode E (ValueNode (Embedded v)) s = (Inr v, s)"
  by (simp add: evaluateValueNode_def)

lemma eval_constant: "evaluateNode E (ValueNode (Constant l v)) s = (Inr v, s)"
  by (simp add: evaluateValueNode_def)

text \<open>
  The three alternatives of \<^verbatim>\<open>evaluateBinaryNode\<close>, for operands whose overload
  lookup returns: the left overload with the right value as argument, else the
  right overload with the left value as argument, else the native function.  The
  state of the host passes through exactly one of the three.
\<close>

lemma dispatchBinary_alternatives:
  assumes "meta op = Some m" "is_binary m"
  shows "getOverloadOnInstance (env_rop E) (env_realm E) l op = Inr (Some f) \<Longrightarrow>
           dispatchBinary E op l r s = invoke E f l [r] s"
    and "getOverloadOnInstance (env_rop E) (env_realm E) l op = Inr None \<Longrightarrow>
         getOverloadOnInstance (env_rop E) (env_realm E) r op = Inr (Some g) \<Longrightarrow>
           dispatchBinary E op l r s = invoke E g r [l] s"
    and "getOverloadOnInstance (env_rop E) (env_realm E) l op = Inr None \<Longrightarrow>
         getOverloadOnInstance (env_rop E) (env_realm E) r op = Inr None \<Longrightarrow>
           dispatchBinary E op l r s = (native op l r, s)"
  using assms by (simp_all add: dispatchBinary_def)

lemma dispatchBinary_undefined:
  assumes "meta op = Some m" "is_binary m"
    and "l = VUndefined \<or>
         (getOverloadOnInstance (env_rop E) (env_realm E) l op = Inr None \<and> r = VUndefined)"
  shows "dispatchBinary E op l r s =
          (Inl (TypeError ''Cannot convert undefined or null to object''), s)"
  using assms by (auto simp: dispatchBinary_def lookup_undefined)

text \<open>
  Claim C3 (every binary evaluation invokes exactly one of: the left overload, the
  right overload with swapped operands, the native fallback): the order of the
  three alternatives is that of the code (lemma \<open>dispatchBinary_alternatives\<close>),
  but not every evaluation reaches one of them.  The walk of the overload lookup
  stops at \<^verbatim>\<open>null\<close> only; on an operand that is \<^verbatim>\<open>undefined\<close> it calls
  \<^verbatim>\<open>Object.getPrototypeOf(undefined)\<close>, which raises.  So when the left operand
  is \<^verbatim>\<open>undefined\<close>, or the left operand has no overload and the right one is
  \<^verbatim>\<open>undefined\<close>, the evaluation raises a \<^verbatim>\<open>TypeError\<close> and invokes nothing, where
  the claim has the native fallback invoked.
\<close>

theorem binary_undefined_operand_raises:
  assumes "meta op = Some m" "is_binary m"
    and "evaluateNode E a s = (Inr l, s1)"
    and "evaluateNode E b s1 = (Inr r, s2)"
    and "l = VUndefined \<or>
         (getOverloadOnInstance (env_rop E) (env_realm E) l op = Inr None \<and> r = VUndefined)"
  shows "evaluateNode E (BinaryNode a op b) s =
          (Inl (TypeError ''Cannot convert undefined or null to object''), s2)"
  using assms(3,4) dispatchBinary_undefined [OF assms(1,2,5)] by simp

theorem binary_undefined_operand_raises_witness:
  "evaluateNode (plain_env (\<lambda>t a. VUndefined))
     (BinaryNode (ValueNode (Embedded VUndefined)) ''||'' (ValueNode (Constant ''5'' (VNum 5)))) (0::nat)
     = (Inl (TypeError ''Cannot convert undefined or null to object''), 0) \<and>
   native ''||'' VUndefined (VNum 5) = Inr (VNum 5)"
proof -
  have b: "is_binary (BinaryOp ''||'' 1)" by (simp add: is_binary_def)
  have "evaluateNode (plain_env (\<lambda>t a. VUndefined))
     (BinaryNode (ValueNode (Embedded VUndefined)) ''||'' (ValueNode (Constant ''5'' (VNum 5)))) (0::nat)
     = (Inl (TypeError ''Cannot convert undefined or null to object''), 0)"
    by (rule binary_undefined_operand_raises
          [OF meta_or b eval_embedded eval_constant disjI1 [OF refl]])
  moreover have "native ''||'' VUndefined (VNum 5) = Inr (VNum 5)"
    by (simp add: native_or truthy_def)
  ultimately show ?thesis by (rule conjI)
qed

lemma dispatchBinary_native:
  assumes "meta op = Some m" "is_binary m"
    and "getOverloadOnInstance (env_rop E) (env_realm E) l op = Inr None"
    and "getOverloadOnInstance (env_rop E) (env_realm E) r op = Inr None"
  shows "dispatchBinary E op l r s = (native op l r, s)"
  using assms by (simp add: dispatchBinary_def)

lemma eval_call_arrow_fn:
  "evaluateNode (plain_env ret) (InvokeNode (ValueNode (Embedded arrow_fn)) []) s
    = (Inr (ret VUndefined []), Suc s)"
  by (simp add: evaluateValueNode_def callTarget_def code_of_def plain_env_def counting_host_def
      arrow_fn_def)

text \<open>
  The right operand of a binary node is evaluated even when it raises: its
  exception is the result, whatever the left value is.
\<close>

lemma binary_right_operand_raises:
  assumes "evaluateNode E a s = (Inr l, s1)" "evaluateNode E b s1 = (Inl e, s2)"
  shows "evaluateNode E (BinaryNode a op b) s = (Inl e, s2)"
  using assms by simp

text \<open>
  Claim C2 (\<^verbatim>\<open>&&\<close> and \<^verbatim>\<open>||\<close> are short-circuit), as amended: they are not.  Once
  the left operand has a value \<open>l\<close>, the right operand is evaluated in the state
  the left one leaves, whatever \<open>l\<close> is; its exception is the result when it
  raises, and otherwise the two values go through the dispatch of every binary
  operation, in the state \<open>s2\<close> the right operand leaves (first line).  The second
  line is that dispatch, written out: the overload lookup on the left value, then
  on the right value, and the native result last, when neither lookup finds an
  overload: for \<^verbatim>\<open>&&\<close> the left value if it is falsy and the right value otherwise,
  for \<^verbatim>\<open>||\<close> the left value if it is truthy and the right value otherwise.  An
  exception of a lookup is the result as well, and it too comes after the right
  operand has been evaluated.
\<close>

theorem logical_operands_both_evaluated:
  assumes op: "op = ''&&'' \<or> op = ''||''"
    and a: "evaluateNode E a s = (Inr l, s1)"
  shows "evaluateNode E (BinaryNode a op b) s =
      (case evaluateNode E b s1 of
         (Inl e, s2) \<Rightarrow> (Inl e, s2)
       | (Inr r, s2) \<Rightarrow> dispatchBinary E op l r s2) \<and>
    dispatchBinary E op l r s2 =
      (case getOverloadOnInstance (env_rop E) (env_realm E) l op of
         Inl e \<Rightarrow> (Inl e, s2)
       | Inr (Some leftOverload) \<Rightarrow> invoke E leftOverload l [r] s2
       | Inr None \<Rightarrow>
           (case getOverloadOnInstance (env_rop E) (env_realm E) r op of
              Inl e \<Rightarrow> (Inl e, s2)
            | Inr (Some rightOverload) \<Rightarrow> invoke E rightOverload r [l] s2
            | Inr None \<Rightarrow>
                (Inr (if op = ''&&'' then (if truthy l then r else l)
                      else (if truthy l then l else r)), s2)))"
proof
  show "evaluateNode E (BinaryNode a op b) s =
      (case evaluateNode E b s1 of
         (Inl e, s2) \<Rightarrow> (Inl e, s2)
       | (Inr r, s2) \<Rightarrow> dispatchBinary E op l r s2)"
    using a by simp
  from op obtain m where m: "meta op = Some m" "is_binary m"
    using meta_and meta_or by (auto simp: is_binary_def)
  from op have n: "native op l r =
      Inr (if op = ''&&'' then (if truthy l then r else l) else (if truthy l then l else r))"
    by (auto simp: native_and native_or)
  show "dispatchBinary E op l r s2 =
      (case getOverloadOnInstance (env_rop E) (env_realm E) l op of
         Inl e \<Rightarrow> (Inl e, s2)
       | Inr (Some leftOverload) \<Rightarrow> invoke E leftOverload l [r] s2
       | Inr None \<Rightarrow>
           (case getOverloadOnInstance (env_rop E) (env_realm E) r op of
              Inl e \<Rightarrow> (Inl e, s2)
            | Inr (Some rightOverload) \<Rightarrow> invoke E rightOverload r [l] s2
            | Inr None \<Rightarrow>
                (Inr (if op = ''&&'' then (if truthy l then r else l)
                      else (if truthy l then l else r)), s2)))"
    unfolding dispatchBinary_def m option.case n [symmetric] using m(2) by simp
qed

text \<open>
  On \<^verbatim>\<open>${false} && ${f}()\<close> and on \<^verbatim>\<open>${undefined} && ${f}()\<close>, where every call of \<open>f\<close>
  adds one to the state: the call happens in both, the first has the native
  result, the second the exception of the lookup on \<^verbatim>\<open>undefined\<close>.
\<close>

theorem logical_operands_both_evaluated_witness:
  "evaluateNode (plain_env (\<lambda>t a. VBool True))
     (BinaryNode (ValueNode (Embedded (VBool False))) ''&&''
        (InvokeNode (ValueNode (Embedded arrow_fn)) [])) 0 = (Inr (VBool False), 1) \<and>
   evaluateNode (plain_env (\<lambda>t a. VBool True))
     (BinaryNode (ValueNode (Embedded VUndefined)) ''&&''
        (InvokeNode (ValueNode (Embedded arrow_fn)) [])) 0
     = (Inl (TypeError ''Cannot convert undefined or null to object''), 1)"
proof -
  note T = logical_operands_both_evaluated [OF disjI1 [OF refl] eval_embedded]
  have 1: "evaluateNode (plain_env (\<lambda>t a. VBool True))
     (BinaryNode (ValueNode (Embedded v)) ''&&''
        (InvokeNode (ValueNode (Embedded arrow_fn)) [])) 0
     = dispatchBinary (plain_env (\<lambda>t a. VBool True)) ''&&'' v (VBool True) (Suc 0)" for v
    by (simp only: T [THEN conjunct1] eval_call_arrow_fn prod.case sum.case)
  have 2: "dispatchBinary (plain_env (\<lambda>t a. VBool True)) ''&&'' (VBool False) (VBool True) (Suc 0)
     = (Inr (VBool False), Suc 0)"
    by (simp only: T [THEN conjunct2] plain_lookup_bool sum.case option.case) (simp add: truthy_def)
  have 3: "dispatchBinary (plain_env (\<lambda>t a. VBool True)) ''&&'' VUndefined (VBool True) (Suc 0)
     = (Inl (TypeError ''Cannot convert undefined or null to object''), Suc 0)"
    by (simp only: T [THEN conjunct2] lookup_undefined sum.case)
  from 1 [of "VBool False"] 1 [of VUndefined] 2 3 show ?thesis by simp
qed

text \<open>
  The claim as stated fails on \<^verbatim>\<open>${false} && ${f}()\<close> and \<^verbatim>\<open>${true} || ${f}()\<close>,
  where every call of \<open>f\<close> adds one to the state: the left operand alone leaves the
  state at 0, and the whole expression leaves it at 1, although the left value is
  falsy (for \<^verbatim>\<open>&&\<close>) or truthy (for \<^verbatim>\<open>||\<close>).
\<close>

theorem short_circuit_counterexample:
  "evaluateNode (plain_env (\<lambda>t a. VBool True)) (ValueNode (Embedded (VBool False))) 0
     = (Inr (VBool False), 0) \<and>
   \<not> truthy (VBool False) \<and>
   evaluateNode (plain_env (\<lambda>t a. VBool True))
     (BinaryNode (ValueNode (Embedded (VBool False))) ''&&''
        (InvokeNode (ValueNode (Embedded arrow_fn)) [])) 0 = (Inr (VBool False), 1) \<and>
   evaluateNode (plain_env (\<lambda>t a. VBool True)) (ValueNode (Embedded (VBool True))) 0
     = (Inr (VBool True), 0) \<and>
   truthy (VBool True) \<and>
   evaluateNode (plain_env (\<lambda>t a. VBool True))
     (BinaryNode (ValueNode (Embedded (VBool True))) ''||''
        (InvokeNode (ValueNode (Embedded arrow_fn)) [])) 0 = (Inr (VBool True), 1)"
  by (simp add: evaluateValueNode_def eval_call_arrow_fn dispatchBinary_def meta_and meta_or
      is_binary_def plain_lookup_bool native_and native_or truthy_def
      del: evaluateNode.simps(6))

section \<open>Evaluater: slicing without an overload\<close>

text \<open>
  What \<^verbatim>\<open>evaluateSlicingNode\<close> does for a target without a \<^verbatim>\<open>[:]\<close> overload: several
  dimensions (or none) are refused, a dimension with an end or a step is refused,
  and a dimension with neither becomes one subscript access.
\<close>

lemma slicing_without_overload:
  assumes "evaluateNode E target s = (Inr tv, s1)"
    and "getOverloadOnInstance (env_rop E) (env_realm E) tv ''[:]'' = Inr None"
  shows "length slices \<noteq> 1 \<Longrightarrow>
           evaluateNode E (SlicingNode target slices) s =
             (Inl (Error ''Target does not support slicing''), s1)"
    and "en \<noteq> None \<or> st \<noteq> None \<Longrightarrow>
           evaluateNode E (SlicingNode target [NodeSlice a en st]) s =
             (Inl (Error ''Target does not support slicing with end or step''), s1)"
    and "evaluateOptional E a s1 = (Inr i, s2) \<Longrightarrow>
           evaluateNode E (SlicingNode target [NodeSlice a None None]) s =
             (get_index (env_realm E) tv i, s2)"
  using assms by (simp_all split: list.splits)

lemma get_index_number_undefined:
  "get_index plain_realm (VNum n) VUndefined = Inr VUndefined"
  by (simp add: get_index_def toPropertyKey_def get_property_def find_property_def own_props_def
      getPrototypeOf_def plain_realm_def)

text \<open>
  Claim C5 (without a \<^verbatim>\<open>[:]\<close> overload, slicing succeeds if and only if there is
  exactly one dimension with only \<open>start\<close> defined; a dimension with nothing defined,
  as \<^verbatim>\<open>[:]\<close> gives, fails): the code does not do this for the empty dimension.  It
  tests the end and the step of the single dimension and never its start, so the
  dimension of \<^verbatim>\<open>[:]\<close> is let through and the result is the subscript access
  \<^verbatim>\<open>target[undefined]\<close>; on a number, for instance, that is \<^verbatim>\<open>undefined\<close> and no
  error.
\<close>

theorem slicing_empty_dimension:
  assumes "evaluateNode E target s = (Inr tv, s1)"
    and "getOverloadOnInstance (env_rop E) (env_realm E) tv ''[:]'' = Inr None"
  shows "evaluateNode E (SlicingNode target [NodeSlice None None None]) s =
          (get_index (env_realm E) tv VUndefined, s1)"
  using assms by simp

theorem slicing_empty_dimension_witness:
  "evaluateNode (plain_env (\<lambda>t a. VUndefined))
     (SlicingNode (ValueNode (Embedded (VNum 5))) [NodeSlice None None None]) (0::nat)
    = (Inr VUndefined, 0)"
proof -
  have "evaluateNode (plain_env (\<lambda>t a. VUndefined))
     (SlicingNode (ValueNode (Embedded (VNum 5))) [NodeSlice None None None]) (0::nat)
    = (get_index (env_realm (plain_env (\<lambda>t a. VUndefined))) (VNum 5) VUndefined, 0)"
    by (rule slicing_empty_dimension [OF eval_embedded plain_lookup_num])
  then show ?thesis by (simp add: plain_env_sel get_index_number_undefined)
qed

section \<open>Evaluater: invocation\<close>

lemma evaluateNodes_in_order:
  "evaluateNodes E (n # ns) s =
    (case evaluateNode E n s of
       (Inl e, s1) \<Rightarrow> (Inl e, s1)
     | (Inr v, s1) \<Rightarrow>
         (case evaluateNodes E ns s1 of
            (Inl e, s2) \<Rightarrow> (Inl e, s2)
          | (Inr vs, s2) \<Rightarrow> (Inr (v # vs), s2)))"
  by simp

text \<open>
  Claim C10 (an Invoke node evaluates the callee, then each argument in order, and
  calls the callee as a detached function, even when the callee comes from a
  property access: \<^verbatim>\<open>obj.m(x)\<close> calls the function stored at \<^verbatim>\<open>obj.m\<close> without
  \<open>this\<close> bound to \<open>obj\<close>).  The callee node is evaluated from the initial state, the
  arguments from the state it leaves, the first before the others; the function is
  then called with receiver \<^verbatim>\<open>undefined\<close>.  For a callee \<^verbatim>\<open>obj.m\<close> the function
  called is the property \<open>m\<close> of the value of \<open>obj\<close>, and the receiver is still
  \<^verbatim>\<open>undefined\<close>.
\<close>

theorem invoke_detached:
  assumes callee: "evaluateNode E callee s = (Inr tv, s1)"
    and args: "evaluateNodes E args s1 = (Inr vs, s2)"
    and fn: "code_of (Some tv) = Some f"
  shows "evaluateNode E (InvokeNode callee args) s = invoke E f VUndefined vs s2 \<and>
    (\<forall>ob m. callee = AccessPropertyNode ob m \<longrightarrow>
       (\<exists>ov. evaluateNode E ob s = (Inr ov, s1) \<and>
             get_property (env_realm E) ov (KStr m) = Inr tv)) \<and>
    (\<forall>n ns. args = n # ns \<longrightarrow>
       (\<exists>v vs' sa. evaluateNode E n s1 = (Inr v, sa) \<and>
                   evaluateNodes E ns sa = (Inr vs', s2) \<and> vs = v # vs'))"
proof (intro conjI allI impI)
  from assms show "evaluateNode E (InvokeNode callee args) s = invoke E f VUndefined vs s2"
    by (simp add: callTarget_def)
next
  fix ob m assume "callee = AccessPropertyNode ob m"
  with callee show "\<exists>ov. evaluateNode E ob s = (Inr ov, s1) \<and>
      get_property (env_realm E) ov (KStr m) = Inr tv"
    by (auto split: prod.splits sum.splits)
next
  fix n ns assume "args = n # ns"
  with args show "\<exists>v vs' sa. evaluateNode E n s1 = (Inr v, sa) \<and>
      evaluateNodes E ns sa = (Inr vs', s2) \<and> vs = v # vs'"
    by (auto split: prod.splits sum.splits)
qed

text \<open>An object with a method \<open>m\<close> that returns its receiver.\<close>

lemma eval_method_callee:
  "evaluateNode (plain_env ret)
     (AccessPropertyNode (ValueNode (Embedded (VObj (Obj 30 None [(KStr ''m'', arrow_fn)] None)))) ''m'') s
    = (Inr arrow_fn, s)"
  by (simp add: evaluateValueNode_def get_property_def find_property_def own_props_def)

lemma eval_one_argument:
  "evaluateNodes E [ValueNode (Constant ''7'' (VNum 7))] s = (Inr [VNum 7], s)"
  by (simp add: evaluateValueNode_def)

theorem invoke_detached_witness:
  "evaluateNode (plain_env (\<lambda>this args. this))
     (InvokeNode
        (AccessPropertyNode (ValueNode (Embedded (VObj (Obj 30 None [(KStr ''m'', arrow_fn)] None)))) ''m'')
        [ValueNode (Constant ''7'' (VNum 7))]) 0
    = (Inr VUndefined, 1)"
proof -
  have fn: "code_of (Some arrow_fn) = Some (Host FnArrow 0)"
    by (simp add: code_of_def arrow_fn_def)
  from invoke_detached [OF eval_method_callee eval_one_argument fn]
  have "evaluateNode (plain_env (\<lambda>this args. this))
     (InvokeNode
        (AccessPropertyNode (ValueNode (Embedded (VObj (Obj 30 None [(KStr ''m'', arrow_fn)] None)))) ''m'')
        [ValueNode (Constant ''7'' (VNum 7))]) 0
    = invoke (plain_env (\<lambda>this args. this)) (Host FnArrow 0) VUndefined [VNum 7] 0"
    by (rule conjunct1)
  then show ?thesis by (simp add: plain_env_def counting_host_def)
qed

section \<open>The default slice of arrays\<close>

text \<open>
  The two loops of the default \<^verbatim>\<open>[:]\<close> overload of arrays are shown to visit
  exactly the indices that \<open>indices_up\<close> and \<open>indices_down\<close> enumerate in closed
  form, for an array of the host and bounds that are safe integers.  First a fact
  of integer division that the count of iterations needs.
\<close>

lemma le_div_pos:
  assumes "0 < (c::int)"
  shows "(a \<le> b div c) = (a * c \<le> b)"
proof
  assume "a \<le> b div c"
  then have "a * c \<le> (b div c) * c" using assms by (simp add: mult_right_mono)
  also have "\<dots> = b - b mod c" by (simp add: minus_mod_eq_div_mult)
  also have "\<dots> \<le> b" using assms by simp
  finally show "a * c \<le> b" .
next
  assume "a * c \<le> b"
  then have "(a * c) div c \<le> b div c" using assms by (rule zdiv_mono1)
  then show "a \<le> b div c" using assms by simp
qed

text \<open>The count of \<open>indices_up\<close> is right: index \<open>k\<close> is listed exactly when it is
  below the end.\<close>

lemma count_up:
  assumes "0 < (step::int)"
  shows "(k < nat ((endv - start + step - 1) div step)) = (start + int k * step < endv)"
proof -
  have "(k < nat ((endv - start + step - 1) div step)) = (int k + 1 \<le> (endv - start + step - 1) div step)"
    by (simp add: zless_nat_eq_int_zless) linarith
  also have "\<dots> = ((int k + 1) * step \<le> endv - start + step - 1)"
    by (rule le_div_pos [OF assms])
  also have "\<dots> = (start + int k * step < endv)"
    by (simp add: algebra_simps) linarith
  finally show ?thesis .
qed

lemma count_up_step:
  assumes "0 < (step::int)" "i < e"
  shows "nat ((e - i + step - 1) div step) = Suc (nat ((e - (i + step) + step - 1) div step))"
proof -
  have "(e - i + step - 1) div step = ((e - (i + step) + step - 1) + step) div step"
    by (simp add: algebra_simps)
  also have "\<dots> = (e - (i + step) + step - 1) div step + 1"
    using assms(1) div_add_self2 [of step "e - (i + step) + step - 1"] by simp
  finally have eq: "(e - i + step - 1) div step = (e - (i + step) + step - 1) div step + 1" .
  have "0 \<le> (e - (i + step) + step - 1) div step"
    using assms by (simp add: pos_imp_zdiv_nonneg_iff)
  with eq show ?thesis by simp
qed

lemma count_up_done:
  assumes "0 < (step::int)" "\<not> i < e"
  shows "nat ((e - i + step - 1) div step) = 0"
proof -
  have "e - i + step - 1 < step" using assms by simp
  then have "(e - i + step - 1) div step < 1"
    using assms(1) by (metis le_div_pos mult_1 not_less)
  then show ?thesis by simp
qed

lemma indices_up_step:
  "0 < step \<Longrightarrow> i < e \<Longrightarrow> indices_up i e step = i # indices_up (i + step) e step"
  unfolding indices_up_def count_up_step
  by (simp add: map_upt_Suc algebra_simps del: upt_Suc)

lemma indices_up_done:
  "0 < step \<Longrightarrow> \<not> i < e \<Longrightarrow> indices_up i e step = []"
  unfolding indices_up_def count_up_done by simp

lemma indices_down_step:
  assumes "step < 0" "e < i"
  shows "indices_down i e step = i # indices_down (i + step) e step"
proof -
  from assms have "0 < - step" "- i < - e" by simp_all
  from count_up_step [OF this] show ?thesis
    unfolding indices_down_def by (simp add: map_upt_Suc algebra_simps del: upt_Suc)
qed

lemma indices_down_done:
  assumes "step < 0" "\<not> e < i"
  shows "indices_down i e step = []"
proof -
  from assms have "0 < - step" "\<not> - i < - e" by simp_all
  from count_up_done [OF this] show ?thesis
    unfolding indices_down_def by (simp add: algebra_simps)
qed

text \<open>
  Rounding: an integer of magnitude below \<open>2^53\<close> is a double, and rounding never
  crosses \<open>2^53\<close> or \<open>- 2^53\<close>, which are doubles.
\<close>

lemma double_exact: "\<bar>x\<bar> < 9007199254740992 \<Longrightarrow> double x = x"
  by (simp add: double_def spacing.simps [of _ 1] Let_def mult_sgn_abs)

lemma spacing_bounds:
  "0 < g \<Longrightarrow> 4503599627370496 * g \<le> a \<Longrightarrow>
    g \<le> spacing a g \<and> 4503599627370496 * spacing a g \<le> a \<and> a < 9007199254740992 * spacing a g"
proof (induction a g rule: spacing.induct)
  case (1 a g)
  show ?case
  proof (cases "a < 9007199254740992 * g")
    case True
    with 1(2,3) show ?thesis by (simp add: spacing.simps [of a g])
  next
    case False
    with 1(2) have c: "\<not> (g \<le> 0 \<or> a < 9007199254740992 * g)" by simp
    from False 1(2) have "0 < 2 * g" "4503599627370496 * (2 * g) \<le> a" by simp_all
    from 1(1) [OF c this] have "2 * g \<le> spacing a (2 * g) \<and>
        4503599627370496 * spacing a (2 * g) \<le> a \<and> a < 9007199254740992 * spacing a (2 * g)" .
    moreover have "spacing a g = spacing a (2 * g)" using c by (simp add: spacing.simps [of a g])
    ultimately show ?thesis using 1(2) by simp
  qed
qed

lemma double_large:
  assumes "9007199254740992 \<le> x"
  shows "9007199254740992 \<le> double x"
proof -
  define g where "g = spacing x 1"
  define q where "q = x div g"
  define m where "m = (if 2 * (x mod g) < g \<or> (2 * (x mod g) = g \<and> even q) then q else q + 1)"
  from assms have "(0::int) < 1" "4503599627370496 * 1 \<le> x" by simp_all
  from spacing_bounds [OF this] have b: "1 \<le> g" "4503599627370496 * g \<le> x" "x < 9007199254740992 * g"
    by (simp_all add: g_def)
  from b(3) assms have g2: "2 \<le> g" by linarith
  from b(1) have gpos: "0 < g" by simp
  have "4503599627370496 \<le> q"
    unfolding q_def le_div_pos [OF gpos] using b(2) .
  then have "4503599627370496 \<le> m" by (simp add: m_def)
  then have "4503599627370496 * g \<le> m * g" using gpos by (simp add: mult_right_mono)
  with g2 have "9007199254740992 \<le> m * g" by linarith
  moreover from assms have "double x = m * g"
    by (simp add: double_def Let_def g_def q_def m_def)
  ultimately show ?thesis by simp
qed

lemma double_minus: "double (- x) = - double x"
  by (simp add: double_def Let_def sgn_minus)

lemma double_small:
  assumes "x \<le> - 9007199254740992"
  shows "double x \<le> - 9007199254740992"
proof -
  from assms have "9007199254740992 \<le> double (- x)" by (intro double_large) simp
  then show ?thesis by (simp add: double_minus)
qed

lemma double_examples:
  "double 9007199254740993 = 9007199254740992"
  "double 9007199254740995 = 9007199254740996"
  "double 9007199254740994 = 9007199254740994"
  "double (- 9007199254740993) = - 9007199254740992"
  "double 18014398509481986 = 18014398509481984"
  "double 18014398509481990 = 18014398509481992"
  by code_simp+

text \<open>
  The loops.  While the counter is below the end, which is below \<open>2^53\<close>, either
  the next sum is below \<open>2^53\<close> too and exact, or it is rounded to a double from
  \<open>2^53\<close> on and the loop ends there, as the enumeration does.
\<close>

lemma slice_up_indices:
  assumes "0 < step" "- 9007199254740992 < i" "endv < 9007199254740992"
  shows "slice_up this i endv step result =
    Some (result @ map (element this) (indices_up i endv step))"
  using assms(2)
proof (induction "nat (endv - i)" arbitrary: i result rule: less_induct)
  case less
  show ?case
  proof (cases "i < endv")
    case False
    then show ?thesis
      by (subst slice_up.simps) (simp add: indices_up_done [OF assms(1)])
  next
    case True
    note step = indices_up_step [OF assms(1) True]
    show ?thesis
    proof (cases "i + step < 9007199254740992")
      case exact: True
      with less.prems assms(1) have d: "double (i + step) = i + step"
        by (intro double_exact) simp
      have "slice_up this (i + step) endv step (result @ [element this i]) =
          Some ((result @ [element this i]) @ map (element this) (indices_up (i + step) endv step))"
        using True assms(1) less.prems by (intro less.hyps) simp_all
      with True d step show ?thesis
        by (subst slice_up.simps) simp
    next
      case False
      then have "9007199254740992 \<le> double (i + step)" by (intro double_large) simp
      with assms(3) have stop: "\<not> double (i + step) < endv" by simp
      from False assms(3) have "indices_up (i + step) endv step = []"
        by (intro indices_up_done [OF assms(1)]) simp
      with True stop step show ?thesis
        by (subst slice_up.simps, subst slice_up.simps) simp
    qed
  qed
qed

lemma slice_down_indices:
  assumes "step < 0" "i < 9007199254740992" "- 9007199254740992 < endv"
  shows "slice_down this i endv step result =
    Some (result @ map (element this) (indices_down i endv step))"
  using assms(2)
proof (induction "nat (i - endv)" arbitrary: i result rule: less_induct)
  case less
  show ?case
  proof (cases "endv < i")
    case False
    then show ?thesis
      by (subst slice_down.simps) (simp add: indices_down_done [OF assms(1)])
  next
    case True
    note step = indices_down_step [OF assms(1) True]
    show ?thesis
    proof (cases "- 9007199254740992 < i + step")
      case exact: True
      with less.prems assms(1) have d: "double (i + step) = i + step"
        by (intro double_exact) simp
      have "slice_down this (i + step) endv step (result @ [element this i]) =
          Some ((result @ [element this i]) @ map (element this) (indices_down (i + step) endv step))"
        using True assms(1) less.prems by (intro less.hyps) simp_all
      with True d step show ?thesis
        by (subst slice_down.simps) simp
    next
      case False
      then have "double (i + step) \<le> - 9007199254740992" by (intro double_small) simp
      with assms(3) have stop: "\<not> endv < double (i + step)" by simp
      from False assms(3) have "indices_down (i + step) endv step = []"
        by (intro indices_down_done [OF assms(1)]) simp
      with True stop step show ?thesis
        by (subst slice_down.simps, subst slice_down.simps) simp
    qed
  qed
qed

text \<open>
  Beyond the safe integers a loop need not end: from \<open>2^53\<close> with step 1 the sum
  \<open>2^53 + 1\<close> is rounded back to \<open>2^53\<close>, the counter stays where it is, and the
  loop returns nothing.
\<close>

lemma slice_up_stalls_aux:
  assumes "slice_up this i endv step result = Some y"
  shows "\<not> (i = 9007199254740992 \<and> endv = 9007199254740994 \<and> step = 1)"
proof (rule slice_up.raw_induct
    [where P = "\<lambda>this i endv step result y.
        \<not> (i = 9007199254740992 \<and> endv = 9007199254740994 \<and> step = 1)",
      OF _ assms])
  fix f :: "val list \<Rightarrow> int \<Rightarrow> int \<Rightarrow> int \<Rightarrow> val list \<Rightarrow> val list option"
  fix this i endv step result y
  assume IH: "\<And>this i endv step result y. f this i endv step result = Some y \<Longrightarrow>
      \<not> (i = 9007199254740992 \<and> endv = 9007199254740994 \<and> step = 1)"
    and eq: "(if i < endv then f this (double (i + step)) endv step (result @ [element this i])
             else Some result) = Some y"
  show "\<not> (i = 9007199254740992 \<and> endv = 9007199254740994 \<and> step = 1)"
  proof
    assume h: "i = 9007199254740992 \<and> endv = 9007199254740994 \<and> step = 1"
    with eq have "f this 9007199254740992 9007199254740994 1 (result @ [element this i]) = Some y"
      by (simp add: double_examples)
    from IH [OF this] show False by simp
  qed
qed

lemma slice_up_stalls:
  "slice_up this 9007199254740992 9007199254740994 1 result = None"
proof (cases "slice_up this 9007199254740992 9007199254740994 1 result")
  case None
  then show ?thesis .
next
  case (Some y)
  from slice_up_stalls_aux [OF this] show ?thesis by simp
qed

lemma count_down:
  assumes "(step::int) < 0"
  shows "(k < nat ((start - endv + (- step) - 1) div (- step))) = (start + int k * step > endv)"
proof -
  from assms have pos: "0 < - step" by simp
  have e1: "- endv - (- start) + (- step) - 1 = start - endv + (- step) - 1" by simp
  have e2: "- start + int k * (- step) = - (start + int k * step)" by simp
  have "(k < nat ((- endv - (- start) + (- step) - 1) div (- step)))
      = (- start + int k * (- step) < - endv)"
    by (rule count_up [OF pos])
  also have "\<dots> = (start + int k * step > endv)"
    unfolding e2 by linarith
  finally show ?thesis unfolding e1 .
qed

lemma indices_up_member:
  assumes "0 < step"
  shows "(i \<in> set (indices_up start endv step)) = (\<exists>k. i = start + int k * step \<and> i < endv)"
proof -
  have "(i \<in> set (indices_up start endv step))
      = (\<exists>k. k < nat ((endv - start + step - 1) div step) \<and> i = start + int k * step)"
    unfolding indices_up_def by (simp add: image_iff Bex_def conj_commute)
  also have "\<dots> = (\<exists>k. start + int k * step < endv \<and> i = start + int k * step)"
    by (simp only: count_up [OF assms])
  also have "\<dots> = (\<exists>k. i = start + int k * step \<and> i < endv)"
    by (rule arg_cong [where f = Ex]) (rule ext, blast)
  finally show ?thesis .
qed

lemma indices_down_member:
  assumes "step < 0"
  shows "(i \<in> set (indices_down start endv step)) = (\<exists>k. i = start + int k * step \<and> i > endv)"
proof -
  have "(i \<in> set (indices_down start endv step))
      = (\<exists>k. k < nat ((start - endv + (- step) - 1) div (- step)) \<and> i = start + int k * step)"
    unfolding indices_down_def by (simp add: image_iff Bex_def conj_commute)
  also have "\<dots> = (\<exists>k. start + int k * step > endv \<and> i = start + int k * step)"
    by (simp only: count_down [OF assms])
  also have "\<dots> = (\<exists>k. i = start + int k * step \<and> i > endv)"
    by (rule arg_cong [where f = Ex]) (rule ext, blast)
  finally show ?thesis .
qed

text \<open>The wrap of a safe integer on an array of the host is exact and safe.\<close>

lemma normalizeIndex_safe:
  assumes "isSafeInteger i" "0 \<le> len" "len < 4294967296"
  shows "normalizeIndex i len = (if i < 0 then i + len else i)"
    and "- 9007199254740992 < normalizeIndex i len"
    and "normalizeIndex i len < 9007199254740992"
proof -
  have "double (i + len) = i + len" if "i < 0"
    using that assms by (intro double_exact) (simp add: isSafeInteger_def)
  then show e: "normalizeIndex i len = (if i < 0 then i + len else i)"
    by (simp add: normalizeIndex_def)
  show "- 9007199254740992 < normalizeIndex i len" "normalizeIndex i len < 9007199254740992"
    unfolding e using assms by (simp_all add: isSafeInteger_def abs_le_iff)
qed

lemma slice_elements_up:
  assumes "length this < 4294967296" "safe_field start" "safe_field endv" "0 < st"
  shows "slice_elements this start endv st =
    Some (map (element this)
      (indices_up
         (case start of None \<Rightarrow> 0 | Some i \<Rightarrow> if i < 0 then i + int (length this) else i)
         (case endv of None \<Rightarrow> int (length this) | Some e \<Rightarrow> if e < 0 then e + int (length this) else e)
         st))"
proof -
  define len where "len = int (length this)"
  from assms(1) have len: "0 \<le> len" "len < 4294967296" by (simp_all add: len_def)
  define s0 where "s0 = (case start of None \<Rightarrow> 0 | Some i \<Rightarrow> normalizeIndex i len)"
  define e0 where "e0 = (case endv of None \<Rightarrow> len | Some e \<Rightarrow> normalizeIndex e len)"
  have s: "s0 = (case start of None \<Rightarrow> 0 | Some i \<Rightarrow> if i < 0 then i + len else i)"
    "- 9007199254740992 < s0"
    using assms(2) normalizeIndex_safe [OF _ len]
    by (cases start; simp add: s0_def safe_field_def)+
  have e: "e0 = (case endv of None \<Rightarrow> len | Some e \<Rightarrow> if e < 0 then e + len else e)"
    "e0 < 9007199254740992"
    using assms(3) normalizeIndex_safe [OF _ len] len
    by (cases endv; simp add: e0_def safe_field_def)+
  have "slice_elements this start endv st = slice_up this s0 e0 st []"
    unfolding slice_elements_def Let_def s0_def e0_def len_def using assms(4) by simp
  also have "\<dots> = Some ([] @ map (element this) (indices_up s0 e0 st))"
    by (rule slice_up_indices [OF assms(4) s(2) e(2)])
  finally show ?thesis unfolding s(1) e(1) len_def by simp
qed

lemma slice_elements_down:
  assumes "length this < 4294967296" "safe_field start" "safe_field endv" "st < 0"
  shows "slice_elements this start endv st =
    Some (map (element this)
      (indices_down
         (case start of None \<Rightarrow> int (length this) - 1 | Some i \<Rightarrow> if i < 0 then i + int (length this) else i)
         (case endv of None \<Rightarrow> - 1 | Some e \<Rightarrow> if e < 0 then e + int (length this) else e)
         st))"
proof -
  define len where "len = int (length this)"
  from assms(1) have len: "0 \<le> len" "len < 4294967296" by (simp_all add: len_def)
  define s0 where "s0 = (case start of None \<Rightarrow> len - 1 | Some i \<Rightarrow> normalizeIndex i len)"
  define e0 where "e0 = (case endv of None \<Rightarrow> - 1 | Some e \<Rightarrow> normalizeIndex e len)"
  have s: "s0 = (case start of None \<Rightarrow> len - 1 | Some i \<Rightarrow> if i < 0 then i + len else i)"
    "s0 < 9007199254740992"
    using assms(2) normalizeIndex_safe [OF _ len] len
    by (cases start; simp add: s0_def safe_field_def)+
  have e: "e0 = (case endv of None \<Rightarrow> - 1 | Some e \<Rightarrow> if e < 0 then e + len else e)"
    "- 9007199254740992 < e0"
    using assms(3) normalizeIndex_safe [OF _ len]
    by (cases endv; simp add: e0_def safe_field_def)+
  have "slice_elements this start endv st = slice_down this s0 e0 st []"
    unfolding slice_elements_def Let_def s0_def e0_def len_def using assms(4) by simp
  also have "\<dots> = Some ([] @ map (element this) (indices_down s0 e0 st))"
    by (rule slice_down_indices [OF assms(4) s(2) e(2)])
  finally show ?thesis unfolding s(1) e(1) len_def by simp
qed

lemma Array_slicing_one:
  assumes "length this < 4294967296" "safe_field start" "safe_field endv" "safe_field step"
  shows "Array_slicing this [VSlice (field_val start) (field_val endv) (field_val step)]
    = Some (spec_slice this start endv step)"
proof (cases "step = Some 0")
  case True
  then show ?thesis by (simp add: Array_slicing_def spec_slice_def field_val_def)
next
  case False
  define st where "st = (case step of None \<Rightarrow> 1 | Some k \<Rightarrow> k)"
  from False have st0: "st \<noteq> 0" by (cases step) (auto simp: st_def)
  have f: "slice_field (if field_val step = VUndefined \<or> field_val step = VNull then VNum 1
                        else field_val step) = Inr (Some st)"
    by (simp add: st_def field_val_def slice_field_def split: option.splits)
  have g: "slice_field (field_val x) = Inr x" for x
    by (simp add: field_val_def slice_field_def split: option.splits)
  have z: "field_val step \<noteq> VNum 0"
    using False by (cases step) (simp_all add: field_val_def)
  have A: "Array_slicing this [VSlice (field_val start) (field_val endv) (field_val step)]
      = map_option (\<lambda>result. Inr (VArr result)) (slice_elements this start endv st)"
    by (simp add: Array_slicing_def f g z)
  show ?thesis
  proof (cases "0 < st")
    case True
    from slice_elements_up [OF assms(1,2,3) True] True st0 show ?thesis
      unfolding A by (simp add: spec_slice_def Let_def st_def [symmetric])
  next
    case False
    with st0 have neg: "st < 0" by simp
    from slice_elements_down [OF assms(1,2,3) neg] neg st0 show ?thesis
      unfolding A by (simp add: spec_slice_def Let_def st_def [symmetric])
  qed
qed

text \<open>
  Claim C6 (the default \<^verbatim>\<open>[:]\<close> overload of sequences).  Any number of dimensions
  other than one is rejected (first two lines).  With one dimension, on an array
  of the host (fewer than \<open>2^32\<close> elements) and with fields that are absent or
  safe integers, the overload returns, and what it returns or raises is
  \<open>spec_slice\<close>, which is the claim in formulas (step defaults to 1 and must not
  be 0; for a positive step start defaults to 0 and end to the length, for a
  negative step start defaults to the length minus 1 and end to \<open>- 1\<close>; negative
  bounds wrap by adding the length; the elements are those at the enumerated
  indices).  The last two lines say that \<open>indices_up\<close> and \<open>indices_down\<close> list
  exactly the indices \<open>start + k * step\<close> below, respectively above, the end.  The
  arithmetic of the code is that of doubles, modelled with its rounding: on safe
  integers every sum the loop compares below the end is exact.
\<close>

theorem Array_slicing_meets_spec:
  "Array_slicing this [] = Some (Inl (Error ''Multi slice is not supported'')) \<and>
   Array_slicing this (d1 # d2 # ds) = Some (Inl (Error ''Multi slice is not supported'')) \<and>
   (length this < 4294967296 \<and> safe_field start \<and> safe_field endv \<and> safe_field step \<longrightarrow>
    Array_slicing this [VSlice (field_val start) (field_val endv) (field_val step)]
      = Some (spec_slice this start endv step)) \<and>
   (0 < st \<longrightarrow> (i \<in> set (indices_up s e st)) = (\<exists>k. i = s + int k * st \<and> i < e)) \<and>
   (st < 0 \<longrightarrow> (i \<in> set (indices_down s e st)) = (\<exists>k. i = s + int k * st \<and> i > e))"
proof (intro conjI impI)
  show "Array_slicing this [] = Some (Inl (Error ''Multi slice is not supported''))"
    by (simp add: Array_slicing_def)
  show "Array_slicing this (d1 # d2 # ds) = Some (Inl (Error ''Multi slice is not supported''))"
    by (simp add: Array_slicing_def)
  show "Array_slicing this [VSlice (field_val start) (field_val endv) (field_val step)]
     = Some (spec_slice this start endv step)"
    if "length this < 4294967296 \<and> safe_field start \<and> safe_field endv \<and> safe_field step"
    using that by (intro Array_slicing_one) simp_all
  show "(i \<in> set (indices_up s e st)) = (\<exists>k. i = s + int k * st \<and> i < e)" if "0 < st"
    by (rule indices_up_member [OF that])
  show "(i \<in> set (indices_down s e st)) = (\<exists>k. i = s + int k * st \<and> i > e)" if "st < 0"
    by (rule indices_down_member [OF that])
qed

lemma spec_slice_example:
  "spec_slice ([VNum 1, VNum 2, VNum 3, VNum 4, VNum 5, VNum 6, VNum 7, VNum 8]) (Some 1) (Some (- 2)) (Some 2)
    = Inr (VArr [VNum 2, VNum 4, VNum 6])"
  by code_simp

lemma spec_slice_reverse:
  "spec_slice ([VNum 1, VNum 2, VNum 3, VNum 4, VNum 5, VNum 6, VNum 7, VNum 8]) None None (Some (- 1))
    = Inr (VArr [VNum 8, VNum 7, VNum 6, VNum 5, VNum 4, VNum 3, VNum 2, VNum 1])"
  by code_simp

lemma spec_slice_zero:
  "spec_slice this start endv (Some 0) = Inl (Error ''Slice step cannot be zero'')"
  by (simp add: spec_slice_def)

theorem Array_slicing_meets_spec_witness:
  "Array_slicing ([VNum 1, VNum 2, VNum 3, VNum 4, VNum 5, VNum 6, VNum 7, VNum 8]) [VSlice (VNum 1) (VNum (- 2)) (VNum 2)]
     = Some (Inr (VArr [VNum 2, VNum 4, VNum 6])) \<and>
   Array_slicing ([VNum 1, VNum 2, VNum 3, VNum 4, VNum 5, VNum 6, VNum 7, VNum 8]) [VSlice VUndefined VUndefined (VNum (- 1))]
     = Some (Inr (VArr [VNum 8, VNum 7, VNum 6, VNum 5, VNum 4, VNum 3, VNum 2, VNum 1])) \<and>
   Array_slicing ([VNum 1, VNum 2, VNum 3, VNum 4, VNum 5, VNum 6, VNum 7, VNum 8]) [VSlice VUndefined VUndefined (VNum 0)]
     = Some (Inl (Error ''Slice step cannot be zero'')) \<and>
   (5 \<in> set (indices_up 1 6 2)) = (\<exists>k. (5::int) = 1 + int k * 2 \<and> (5::int) < 6)"
proof -
  note T = Array_slicing_meets_spec [where this = "[VNum 1, VNum 2, VNum 3, VNum 4, VNum 5, VNum 6, VNum 7, VNum 8]"]
  have len: "length [VNum 1, VNum 2, VNum 3, VNum 4, VNum 5, VNum 6, VNum 7, VNum 8] < 4294967296"
    by simp
  have safe: "safe_field None" "safe_field (Some 1)" "safe_field (Some (- 2))" "safe_field (Some 2)"
    "safe_field (Some (- 1))" "safe_field (Some 0)"
    by (simp_all add: safe_field_def isSafeInteger_def)
  have 1: "Array_slicing ([VNum 1, VNum 2, VNum 3, VNum 4, VNum 5, VNum 6, VNum 7, VNum 8]) [VSlice (VNum 1) (VNum (- 2)) (VNum 2)]
     = Some (Inr (VArr [VNum 2, VNum 4, VNum 6]))"
    using T [where start = "Some 1" and endv = "Some (- 2)" and step = "Some 2",
        THEN conjunct2, THEN conjunct2, THEN conjunct1, rule_format,
        OF conjI [OF len conjI [OF safe(2) conjI [OF safe(3) safe(4)]]]]
    by (simp only: field_val_def option.case spec_slice_example)
  have 2: "Array_slicing ([VNum 1, VNum 2, VNum 3, VNum 4, VNum 5, VNum 6, VNum 7, VNum 8]) [VSlice VUndefined VUndefined (VNum (- 1))]
     = Some (Inr (VArr [VNum 8, VNum 7, VNum 6, VNum 5, VNum 4, VNum 3, VNum 2, VNum 1]))"
    using T [where start = None and endv = None and step = "Some (- 1)",
        THEN conjunct2, THEN conjunct2, THEN conjunct1, rule_format,
        OF conjI [OF len conjI [OF safe(1) conjI [OF safe(1) safe(5)]]]]
    by (simp only: field_val_def option.case spec_slice_reverse)
  have 3: "Array_slicing ([VNum 1, VNum 2, VNum 3, VNum 4, VNum 5, VNum 6, VNum 7, VNum 8]) [VSlice VUndefined VUndefined (VNum 0)]
     = Some (Inl (Error ''Slice step cannot be zero''))"
    using T [where start = None and endv = None and step = "Some 0",
        THEN conjunct2, THEN conjunct2, THEN conjunct1, rule_format,
        OF conjI [OF len conjI [OF safe(1) conjI [OF safe(1) safe(6)]]]]
    by (simp only: field_val_def option.case spec_slice_zero)
  have "0 < (2::int) \<longrightarrow>
      (5 \<in> set (indices_up 1 6 2)) = (\<exists>k. (5::int) = 1 + int k * 2 \<and> (5::int) < 6)"
    by (rule T [where st = 2 and i = 5 and s = 1 and e = 6,
          THEN conjunct2, THEN conjunct2, THEN conjunct2, THEN conjunct1])
  then have 4: "(5 \<in> set (indices_up 1 6 2)) = (\<exists>k. (5::int) = 1 + int k * 2 \<and> (5::int) < 6)"
    by simp
  from 1 2 3 4 show ?thesis by (intro conjI)
qed

section \<open>The process-wide instance: reset\<close>

lemma INST_after_reset:
  "INST rl (resetDefaultInstance w) =
    (length (engines w),
     \<lparr>engines = engines w @ [default_Rop rl], instance_field = Some (length (engines w))\<rparr>)"
  by (simp add: INST_def resetDefaultInstance_def create_def)

text \<open>
  Claim C9 (resetting the process-wide engine discards what was added to it, and
  leaves every user-created engine unchanged).  Whatever the world \<open>w\<close> is, that
  is, whatever was bound or overloaded on the singleton or on any other engine:
  the reset changes no engine of the store; the next access to \<^verbatim>\<open>Rop.INST\<close>
  yields a reference \<open>b\<close> that is new, behind it the engine that
  \<^verbatim>\<open>new Rop().bindDefaults().bindMaths().overloadDefaults()\<close> builds, and the field
  holds \<open>b\<close> from then on; every engine that existed before, at any reference \<open>a\<close>,
  has the tables it had.
\<close>

theorem reset_discards_and_preserves:
  "engines (resetDefaultInstance w) = engines w \<and>
   (case INST rl (resetDefaultInstance w) of
      (b, w2) \<Rightarrow>
        b = length (engines w) \<and>
        engines w2 ! b = default_Rop rl \<and>
        instance_field w2 = Some b \<and>
        (\<forall>a < length (engines w).
           bindings (engines w2 ! a) = bindings (engines w ! a) \<and>
           overloadings (engines w2 ! a) = overloadings (engines w ! a)))"
proof
  show "engines (resetDefaultInstance w) = engines w"
    by (simp add: resetDefaultInstance_def)
  show "case INST rl (resetDefaultInstance w) of
      (b, w2) \<Rightarrow>
        b = length (engines w) \<and>
        engines w2 ! b = default_Rop rl \<and>
        instance_field w2 = Some b \<and>
        (\<forall>a < length (engines w).
           bindings (engines w2 ! a) = bindings (engines w ! a) \<and>
           overloadings (engines w2 ! a) = overloadings (engines w ! a))"
    by (simp add: INST_after_reset nth_append)
qed

lemma default_bindings_plain:
  "map fst (bindings (default_Rop plain_realm)) =
    [''true'', ''false'', ''null'', ''undefined'', ''Infinity'', ''NaN'', ''Object'', ''Number'',
     ''BigInt'', ''String'', ''Boolean'', ''Array'', ''Date'', ''Symbol'', ''JSON'', ''Math'', ''PI'']"
  by code_simp

lemma default_overloadings_plain:
  "overloadings (default_Rop plain_realm) =
    [(6, [(''+'', Adapter (Builtin ArrayAdd)), (''[i]'', Builtin ArrayIndexing),
          (''[:]'', Builtin ArraySlicing)]),
     (3, [(''*'', Adapter (Builtin StringMul))]),
     (7, [(''+'', Adapter (Builtin SetAdd)), (''-'', Adapter (Builtin SetSub))])]"
  by code_simp

lemma used_world_singleton:
  "map_of (bindings (engines used_world ! 1)) ''name'' = Some (VStr ''rop'')"
  "table_get (engines used_world ! 1) 10 ''+'' = Some (Host FnNormal 2)"
  by code_simp+

theorem reset_discards_and_preserves_witness:
  "map_of (bindings (engines used_world ! 1)) ''name'' = Some (VStr ''rop'') \<and>
   table_get (engines used_world ! 1) 10 ''+'' = Some (Host FnNormal 2) \<and>
   (case INST plain_realm (resetDefaultInstance used_world) of
      (b, w2) \<Rightarrow>
        b = 2 \<and>
        map_of (bindings (engines w2 ! b)) ''name'' = None \<and>
        table_get (engines w2 ! b) 10 ''+'' = None \<and>
        engines w2 ! b = default_Rop plain_realm \<and>
        engines w2 ! 0 = user_engine \<and>
        engines w2 ! 1 = engines used_world ! 1)"
proof -
  have len: "length (engines used_world) = 2" by (simp add: used_world_def)
  obtain b w2 where I: "INST plain_realm (resetDefaultInstance used_world) = (b, w2)"
    by (cases "INST plain_realm (resetDefaultInstance used_world)")
  note T = reset_discards_and_preserves [of used_world plain_realm, unfolded I prod.case len]
  have b: "b = 2" by (rule T [THEN conjunct2, THEN conjunct1])
  have d: "engines w2 ! b = default_Rop plain_realm"
    by (rule T [THEN conjunct2, THEN conjunct2, THEN conjunct1])
  have f: "\<forall>a < 2. bindings (engines w2 ! a) = bindings (engines used_world ! a) \<and>
              overloadings (engines w2 ! a) = overloadings (engines used_world ! a)"
    by (rule T [THEN conjunct2, THEN conjunct2, THEN conjunct2, THEN conjunct2])
  from f have "engines w2 ! 0 = engines used_world ! 0" "engines w2 ! 1 = engines used_world ! 1"
    by (auto intro: Rop.equality)
  moreover have "engines used_world ! 0 = user_engine" by (simp add: used_world_def)
  moreover have "map_of (bindings (default_Rop plain_realm)) ''name'' = None" by code_simp
  moreover have "table_get (default_Rop plain_realm) 10 ''+'' = None" by code_simp
  ultimately have "case INST plain_realm (resetDefaultInstance used_world) of
      (b, w2) \<Rightarrow>
        b = 2 \<and>
        map_of (bindings (engines w2 ! b)) ''name'' = None \<and>
        table_get (engines w2 ! b) 10 ''+'' = None \<and>
        engines w2 ! b = default_Rop plain_realm \<and>
        engines w2 ! 0 = user_engine \<and>
        engines w2 ! 1 = engines used_world ! 1"
    using I b d by simp
  with used_world_singleton show ?thesis by (intro conjI)
qed

section \<open>AST parser: binary operators\<close>

lemma skipWhitespace_simps:
  "skipWhitespace [] = []"
  "skipWhitespace (Operator l # ts) = Operator l # ts"
  "skipWhitespace (Embedded v # ts) = Embedded v # ts"
  "skipWhitespace (Constant l v # ts) = Constant l v # ts"
  "skipWhitespace (Identifier l # ts) = Identifier l # ts"
  "skipWhitespace (Punctuation l # ts) = Punctuation l # ts"
  "skipWhitespace (Whitespace l # ts) = skipWhitespace ts"
  by (simp_all add: skipWhitespace_def is_whitespace_def)

text \<open>
  The loop of \<open>parseExpression\<close> at a binary operator: the operator is left in
  place when its precedence is below the minimum, and otherwise consumed, the
  right operand being parsed at the operator's precedence for \<^verbatim>\<open>**\<close> and at one
  more for every other operator.
\<close>

lemma parseLoop_operator:
  assumes "skipWhitespace ts = Operator lit # rest"
    and "binaryFromLiteral lit = Some operator"
    and "meta operator = Some (BinaryOp l p)"
  shows "parseLoop (Suc n) prec left ts =
    (if p < prec then Ok left (Operator lit # rest)
     else
       (case parseExpression n (if operator = ''**'' then p else p + 1) rest of
          OutOfFuel \<Rightarrow> OutOfFuel
        | Fail e \<Rightarrow> Fail e
        | Ok right ts2 \<Rightarrow> parseLoop n prec (BinaryNode left operator right) ts2))"
  using assms by simp

text \<open>Three operands joined by one operator twice: \<^verbatim>\<open>x op y op z\<close>.\<close>

lemma parse_twice:
  assumes "binaryFromLiteral lit = Some operator"
    and "meta operator = Some (BinaryOp l p)"
  shows "parse (7 + n) [Identifier x, Operator lit, Identifier y, Operator lit, Identifier z] =
    Ok (if operator = ''**''
        then BinaryNode (IdentifierNode x) operator
               (BinaryNode (IdentifierNode y) operator (IdentifierNode z))
        else BinaryNode (BinaryNode (IdentifierNode x) operator (IdentifierNode y)) operator
               (IdentifierNode z)) []"
proof -
  have fuel: "7 + n = Suc (Suc (Suc (Suc (Suc (Suc (Suc n))))))" by simp
  show ?thesis
    unfolding parse_def fuel using assms
    by (simp add: skipWhitespace_simps)
qed

lemma parse_pow_pow:
  "parse 10 [num 2, Operator ''**'', num 3, Operator ''**'', num 2] =
    Ok (BinaryNode (ValueNode (num 2)) ''**''
          (BinaryNode (ValueNode (num 3)) ''**'' (ValueNode (num 2)))) []"
  by code_simp

lemma parse_paren_pow:
  "parse 10 [Punctuation ''('', num 2, Operator ''**'', num 3, Punctuation '')'', Operator ''**'', num 2] =
    Ok (BinaryNode (BinaryNode (ValueNode (num 2)) ''**'' (ValueNode (num 3))) ''**''
          (ValueNode (num 2))) []"
  by code_simp

lemma native_pow:
  "0 \<le> y \<Longrightarrow> \<bar>x ^ nat y\<bar> < 9007199254740992 \<Longrightarrow>
    native ''**'' (VNum x) (VNum y) = Inr (VNum (x ^ nat y))"
  by (simp add: native_def native_num_def)

lemma dispatch_pow:
  assumes "\<And>k. getOverloadOnInstance (env_rop E) (env_realm E) (VNum k) ''**'' = Inr None"
    and "0 \<le> y" "\<bar>x ^ nat y\<bar> < 9007199254740992"
  shows "dispatchBinary E ''**'' (VNum x) (VNum y) s = (Inr (VNum (x ^ nat y)), s)"
proof -
  have "is_binary (BinaryOp ''**'' 11)" by (simp add: is_binary_def)
  from dispatchBinary_native [OF meta_pow this assms(1) assms(1)] native_pow [OF assms(2,3)]
  show ?thesis by simp
qed

lemma eval_num: "evaluateNode E (ValueNode (num k)) s = (Inr (VNum (int k)), s)"
  by (simp add: num_def evaluateValueNode_def)

text \<open>
  Claim C8 (precedence climbing; \<^verbatim>\<open>**\<close> alone associates to the right).  First
  line: at a binary operator the loop stops without consuming it when its
  precedence is below the minimum, and otherwise consumes it and parses the right
  operand at the operator's precedence for \<^verbatim>\<open>**\<close> and one above it for any other
  operator.  Second line: hence \<^verbatim>\<open>x op y op z\<close> nests to the right for \<^verbatim>\<open>**\<close> and
  to the left for every other binary operator (with any fuel from 7 on).  Then the
  two examples: \<^verbatim>\<open>2 ** 3 ** 2\<close> parses as \<^verbatim>\<open>2 ** (3 ** 2)\<close> and evaluates to 512,
  \<^verbatim>\<open>(2 ** 3) ** 2\<close> evaluates to 64, on any engine without overloads on numbers.
\<close>

theorem precedence_climbing:
  "(\<forall>ts lit rest operator l p n prec left.
      skipWhitespace ts = Operator lit # rest \<and> binaryFromLiteral lit = Some operator \<and>
      meta operator = Some (BinaryOp l p) \<longrightarrow>
      parseLoop (Suc n) prec left ts =
        (if p < prec then Ok left (Operator lit # rest)
         else
           (case parseExpression n (if operator = ''**'' then p else p + 1) rest of
              OutOfFuel \<Rightarrow> OutOfFuel
            | Fail e \<Rightarrow> Fail e
            | Ok right ts2 \<Rightarrow> parseLoop n prec (BinaryNode left operator right) ts2))) \<and>
   (\<forall>lit operator l p x y z n.
      binaryFromLiteral lit = Some operator \<and> meta operator = Some (BinaryOp l p) \<longrightarrow>
      parse (7 + n) [Identifier x, Operator lit, Identifier y, Operator lit, Identifier z] =
        Ok (if operator = ''**''
            then BinaryNode (IdentifierNode x) operator
                   (BinaryNode (IdentifierNode y) operator (IdentifierNode z))
            else BinaryNode (BinaryNode (IdentifierNode x) operator (IdentifierNode y)) operator
                   (IdentifierNode z)) []) \<and>
   parse 10 [num 2, Operator ''**'', num 3, Operator ''**'', num 2] =
     Ok (BinaryNode (ValueNode (num 2)) ''**''
           (BinaryNode (ValueNode (num 3)) ''**'' (ValueNode (num 2)))) [] \<and>
   parse 10 [Punctuation ''('', num 2, Operator ''**'', num 3, Punctuation '')'', Operator ''**'', num 2] =
     Ok (BinaryNode (BinaryNode (ValueNode (num 2)) ''**'' (ValueNode (num 3))) ''**''
           (ValueNode (num 2))) [] \<and>
   ((\<forall>k. getOverloadOnInstance (env_rop E) (env_realm E) (VNum k) ''**'' = Inr None) \<longrightarrow>
      evaluateNode E
        (BinaryNode (ValueNode (num 2)) ''**''
           (BinaryNode (ValueNode (num 3)) ''**'' (ValueNode (num 2)))) s = (Inr (VNum 512), s) \<and>
      evaluateNode E
        (BinaryNode (BinaryNode (ValueNode (num 2)) ''**'' (ValueNode (num 3))) ''**''
           (ValueNode (num 2))) s = (Inr (VNum 64), s))"
proof (intro conjI allI impI)
  fix ts lit rest operator l p n prec left
  assume "skipWhitespace ts = Operator lit # rest \<and> binaryFromLiteral lit = Some operator \<and>
      meta operator = Some (BinaryOp l p)"
  then show "parseLoop (Suc n) prec left ts =
        (if p < prec then Ok left (Operator lit # rest)
         else
           (case parseExpression n (if operator = ''**'' then p else p + 1) rest of
              OutOfFuel \<Rightarrow> OutOfFuel
            | Fail e \<Rightarrow> Fail e
            | Ok right ts2 \<Rightarrow> parseLoop n prec (BinaryNode left operator right) ts2))"
    using parseLoop_operator by blast
next
  fix lit operator l p x y z n
  assume "binaryFromLiteral lit = Some operator \<and> meta operator = Some (BinaryOp l p)"
  then show "parse (7 + n) [Identifier x, Operator lit, Identifier y, Operator lit, Identifier z] =
        Ok (if operator = ''**''
            then BinaryNode (IdentifierNode x) operator
                   (BinaryNode (IdentifierNode y) operator (IdentifierNode z))
            else BinaryNode (BinaryNode (IdentifierNode x) operator (IdentifierNode y)) operator
                   (IdentifierNode z)) []"
    using parse_twice by blast
next
  show "parse 10 [num 2, Operator ''**'', num 3, Operator ''**'', num 2] =
     Ok (BinaryNode (ValueNode (num 2)) ''**''
           (BinaryNode (ValueNode (num 3)) ''**'' (ValueNode (num 2)))) []"
    by (rule parse_pow_pow)
next
  show "parse 10 [Punctuation ''('', num 2, Operator ''**'', num 3, Punctuation '')'', Operator ''**'', num 2] =
     Ok (BinaryNode (BinaryNode (ValueNode (num 2)) ''**'' (ValueNode (num 3))) ''**''
           (ValueNode (num 2))) []"
    by (rule parse_paren_pow)
next
  assume no: "\<forall>k. getOverloadOnInstance (env_rop E) (env_realm E) (VNum k) ''**'' = Inr None"
  then have d: "dispatchBinary E ''**'' (VNum x) (VNum (int y)) t = (Inr (VNum (x ^ y)), t)"
    if "\<bar>x ^ y\<bar> < 9007199254740992" for x y t
    using dispatch_pow [of E "int y" x t] that by simp
  show "evaluateNode E
        (BinaryNode (ValueNode (num 2)) ''**''
           (BinaryNode (ValueNode (num 3)) ''**'' (ValueNode (num 2)))) s = (Inr (VNum 512), s)"
    using d [of 3 2] d [of 2 9] by (simp add: eval_num del: evaluateNode.simps(1))
  show "evaluateNode E
        (BinaryNode (BinaryNode (ValueNode (num 2)) ''**'' (ValueNode (num 3))) ''**''
           (ValueNode (num 2))) s = (Inr (VNum 64), s)"
    using d [of 2 3] d [of 8 2] by (simp add: eval_num del: evaluateNode.simps(1))
qed

theorem precedence_climbing_witness:
  "parseLoop 3 10 (IdentifierNode ''x'') [Operator ''+'', Identifier ''y'']
     = Ok (IdentifierNode ''x'') [Operator ''+'', Identifier ''y''] \<and>
   parse 7 [Identifier ''x'', Operator ''-'', Identifier ''y'', Operator ''-'', Identifier ''z''] =
     Ok (BinaryNode (BinaryNode (IdentifierNode ''x'') ''-'' (IdentifierNode ''y'')) ''-''
           (IdentifierNode ''z'')) [] \<and>
   parse 7 [Identifier ''x'', Operator ''**'', Identifier ''y'', Operator ''**'', Identifier ''z''] =
     Ok (BinaryNode (IdentifierNode ''x'') ''**''
           (BinaryNode (IdentifierNode ''y'') ''**'' (IdentifierNode ''z''))) [] \<and>
   evaluateNode (plain_env (\<lambda>t a. VUndefined))
        (BinaryNode (ValueNode (num 2)) ''**''
           (BinaryNode (ValueNode (num 3)) ''**'' (ValueNode (num 2)))) (0::nat) = (Inr (VNum 512), 0) \<and>
   evaluateNode (plain_env (\<lambda>t a. VUndefined))
        (BinaryNode (BinaryNode (ValueNode (num 2)) ''**'' (ValueNode (num 3))) ''**''
           (ValueNode (num 2))) (0::nat) = (Inr (VNum 64), 0)"
proof -
  note T = precedence_climbing [where E = "plain_env (\<lambda>t a. VUndefined)" and s = "0::nat"]
  have plus: "binaryFromLiteral ''+'' = Some ''+''" "meta ''+'' = Some (BinaryOp ''+'' 9)"
    by code_simp+
  have minus: "binaryFromLiteral ''-'' = Some ''-''" "meta ''-'' = Some (BinaryOp ''-'' 9)"
    by code_simp+
  have pow: "binaryFromLiteral ''**'' = Some ''**''"
    by code_simp
  have sk: "skipWhitespace [Operator ''+'', Identifier ''y''] = Operator ''+'' # [Identifier ''y'']"
    by (simp add: skipWhitespace_simps)
  have 1: "parseLoop 3 10 (IdentifierNode ''x'') [Operator ''+'', Identifier ''y'']
     = Ok (IdentifierNode ''x'') [Operator ''+'', Identifier ''y'']"
    using T [THEN conjunct1, rule_format, OF conjI [OF sk conjI [OF plus]],
        where n = 2 and prec = 10]
    by simp
  have 2: "parse 7 [Identifier ''x'', Operator ''-'', Identifier ''y'', Operator ''-'', Identifier ''z''] =
     Ok (BinaryNode (BinaryNode (IdentifierNode ''x'') ''-'' (IdentifierNode ''y'')) ''-''
           (IdentifierNode ''z'')) []"
    using T [THEN conjunct2, THEN conjunct1, rule_format, OF conjI [OF minus], where n = 0]
    by simp
  have 3: "parse 7 [Identifier ''x'', Operator ''**'', Identifier ''y'', Operator ''**'', Identifier ''z''] =
     Ok (BinaryNode (IdentifierNode ''x'') ''**''
           (BinaryNode (IdentifierNode ''y'') ''**'' (IdentifierNode ''z''))) []"
    using T [THEN conjunct2, THEN conjunct1, rule_format, OF conjI [OF pow meta_pow], where n = 0]
    by simp
  have 4: "evaluateNode (plain_env (\<lambda>t a. VUndefined))
        (BinaryNode (ValueNode (num 2)) ''**''
           (BinaryNode (ValueNode (num 3)) ''**'' (ValueNode (num 2)))) (0::nat) = (Inr (VNum 512), 0) \<and>
      evaluateNode (plain_env (\<lambda>t a. VUndefined))
        (BinaryNode (BinaryNode (ValueNode (num 2)) ''**'' (ValueNode (num 3))) ''**''
           (ValueNode (num 2))) (0::nat) = (Inr (VNum 64), 0)"
    using T [THEN conjunct2, THEN conjunct2, THEN conjunct2, THEN conjunct2] plain_lookup_num
    by blast
  from 1 2 3 4 show ?thesis by (intro conjI) (elim conjE, assumption)+
qed

section \<open>AST parser: fuel\<close>

text \<open>
  A call of the parser that was given enough fuel has the same answer with more:
  fuel only bounds the depth of the calls.  First one more unit, for each of the
  seven functions, given the same of the functions it calls.
\<close>

lemmas parser_simps = parseExpression.simps parseLoop.simps parseAtom.simps parseArgs.simps
  parseSubscript.simps parseSlices.simps parseSlice.simps

lemma step_parseExpression:
  assumes A: "\<And>ts. parseAtom n ts \<noteq> OutOfFuel \<Longrightarrow> parseAtom (Suc n) ts = parseAtom n ts"
    and L: "\<And>prec left ts. parseLoop n prec left ts \<noteq> OutOfFuel \<Longrightarrow>
      parseLoop (Suc n) prec left ts = parseLoop n prec left ts"
    and nz: "parseExpression (Suc n) prec ts \<noteq> OutOfFuel"
  shows "parseExpression (Suc n) prec ts = parseExpression (Suc (Suc n)) prec ts"
  using nz
  unfolding parseExpression.simps(2) [of n prec ts] parseExpression.simps(2) [of "Suc n" prec ts]
  by (auto simp: A L simp del: parser_simps split: parsed.splits)

lemma step_parseAtom:
  assumes E: "\<And>prec ts. parseExpression n prec ts \<noteq> OutOfFuel \<Longrightarrow>
      parseExpression (Suc n) prec ts = parseExpression n prec ts"
    and nz: "parseAtom (Suc n) ts \<noteq> OutOfFuel"
  shows "parseAtom (Suc n) ts = parseAtom (Suc (Suc n)) ts"
  using nz
  unfolding parseAtom.simps(2) [of n ts] parseAtom.simps(2) [of "Suc n" ts]
  by (auto simp: E simp del: parser_simps split: parsed.splits list.splits token.splits option.splits OperationMeta.splits if_splits)

lemma step_parseArgs:
  assumes E: "\<And>prec ts. parseExpression n prec ts \<noteq> OutOfFuel \<Longrightarrow>
      parseExpression (Suc n) prec ts = parseExpression n prec ts"
    and G: "\<And>args ts. parseArgs n args ts \<noteq> OutOfFuel \<Longrightarrow>
      parseArgs (Suc n) args ts = parseArgs n args ts"
    and nz: "parseArgs (Suc n) args ts \<noteq> OutOfFuel"
  shows "parseArgs (Suc n) args ts = parseArgs (Suc (Suc n)) args ts"
  using nz
  unfolding parseArgs.simps(2) [of n args ts] parseArgs.simps(2) [of "Suc n" args ts]
  by (auto simp: E G simp del: parser_simps split: parsed.splits option.splits if_splits)

lemma step_parseSubscript:
  assumes SS: "\<And>slices f c ts. parseSlices n slices f c ts \<noteq> OutOfFuel \<Longrightarrow>
      parseSlices (Suc n) slices f c ts = parseSlices n slices f c ts"
    and nz: "parseSubscript (Suc n) left ts \<noteq> OutOfFuel"
  shows "parseSubscript (Suc n) left ts = parseSubscript (Suc (Suc n)) left ts"
  using nz
  unfolding parseSubscript.simps(2) [of n left ts] parseSubscript.simps(2) [of "Suc n" left ts]
  by (auto simp: SS simp del: parser_simps split: parsed.splits if_splits)

lemma step_parseSlices:
  assumes SS: "\<And>slices f c ts. parseSlices n slices f c ts \<noteq> OutOfFuel \<Longrightarrow>
      parseSlices (Suc n) slices f c ts = parseSlices n slices f c ts"
    and SL: "\<And>ns colons h f ts. parseSlice n ns colons h f ts \<noteq> OutOfFuel \<Longrightarrow>
      parseSlice (Suc n) ns colons h f ts = parseSlice n ns colons h f ts"
    and nz: "parseSlices (Suc n) slices f c ts \<noteq> OutOfFuel"
  shows "parseSlices (Suc n) slices f c ts = parseSlices (Suc (Suc n)) slices f c ts"
  using nz
  unfolding parseSlices.simps(2) [of n slices f c ts] parseSlices.simps(2) [of "Suc n" slices f c ts]
  by (auto simp: SS SL Let_def simp del: parser_simps split: parsed.splits option.splits if_splits)

lemma step_parseSlice:
  assumes SL: "\<And>ns colons h f ts. parseSlice n ns colons h f ts \<noteq> OutOfFuel \<Longrightarrow>
      parseSlice (Suc n) ns colons h f ts = parseSlice n ns colons h f ts"
    and E: "\<And>prec ts. parseExpression n prec ts \<noteq> OutOfFuel \<Longrightarrow>
      parseExpression (Suc n) prec ts = parseExpression n prec ts"
    and nz: "parseSlice (Suc n) ns colons h f ts \<noteq> OutOfFuel"
  shows "parseSlice (Suc n) ns colons h f ts = parseSlice (Suc (Suc n)) ns colons h f ts"
  using nz
  unfolding parseSlice.simps(2) [of n ns colons h f ts] parseSlice.simps(2) [of "Suc n" ns colons h f ts]
  by (auto simp: SL E simp del: parser_simps split: parsed.splits option.splits if_splits)

lemma step_parseLoop:
  assumes E: "\<And>prec ts. parseExpression n prec ts \<noteq> OutOfFuel \<Longrightarrow>
      parseExpression (Suc n) prec ts = parseExpression n prec ts"
    and L: "\<And>prec left ts. parseLoop n prec left ts \<noteq> OutOfFuel \<Longrightarrow>
      parseLoop (Suc n) prec left ts = parseLoop n prec left ts"
    and G: "\<And>args ts. parseArgs n args ts \<noteq> OutOfFuel \<Longrightarrow>
      parseArgs (Suc n) args ts = parseArgs n args ts"
    and S: "\<And>left ts. parseSubscript n left ts \<noteq> OutOfFuel \<Longrightarrow>
      parseSubscript (Suc n) left ts = parseSubscript n left ts"
    and nz: "parseLoop (Suc n) prec left ts \<noteq> OutOfFuel"
  shows "parseLoop (Suc n) prec left ts = parseLoop (Suc (Suc n)) prec left ts"
proof -
  note U0 = parseLoop.simps(2) [of n prec left ts]
  note U1 = parseLoop.simps(2) [of "Suc n" prec left ts]
  show ?thesis
  proof (cases "skipWhitespace ts")
    case Nil
    then show ?thesis unfolding U0 U1 by (simp del: parser_simps)
  next
    case (Cons t rest)
    show ?thesis
    proof (cases t)
      case (Whitespace l)
      with Cons show ?thesis unfolding U0 U1 by (simp del: parser_simps)
    next
      case (Operator lit)
      with Cons nz show ?thesis unfolding U0 U1
        by (auto simp: E L simp del: parser_simps
            split: parsed.splits option.splits OperationMeta.splits if_splits)
    next
      case (Embedded v)
      with Cons show ?thesis unfolding U0 U1 by (simp del: parser_simps)
    next
      case (Constant l v)
      with Cons show ?thesis unfolding U0 U1 by (simp del: parser_simps)
    next
      case (Identifier l)
      with Cons show ?thesis unfolding U0 U1 by (simp del: parser_simps)
    next
      case (Punctuation lit)
      show ?thesis
      proof (cases "lit = ''.''")
        case True
        with Punctuation Cons nz show ?thesis unfolding U0 U1
          by (auto simp: L simp del: parser_simps split: list.splits token.splits)
      next
        case False
        with Punctuation Cons nz show ?thesis unfolding U0 U1
          by (auto simp: L G S simp del: parser_simps split: parsed.splits if_splits)
      qed
    qed
  qed
qed

lemma fuel_step:
  "(\<forall>prec ts. parseExpression n prec ts \<noteq> OutOfFuel \<longrightarrow>
      parseExpression (Suc n) prec ts = parseExpression n prec ts) \<and>
   (\<forall>prec left ts. parseLoop n prec left ts \<noteq> OutOfFuel \<longrightarrow>
      parseLoop (Suc n) prec left ts = parseLoop n prec left ts) \<and>
   (\<forall>ts. parseAtom n ts \<noteq> OutOfFuel \<longrightarrow> parseAtom (Suc n) ts = parseAtom n ts) \<and>
   (\<forall>args ts. parseArgs n args ts \<noteq> OutOfFuel \<longrightarrow>
      parseArgs (Suc n) args ts = parseArgs n args ts) \<and>
   (\<forall>left ts. parseSubscript n left ts \<noteq> OutOfFuel \<longrightarrow>
      parseSubscript (Suc n) left ts = parseSubscript n left ts) \<and>
   (\<forall>slices f c ts. parseSlices n slices f c ts \<noteq> OutOfFuel \<longrightarrow>
      parseSlices (Suc n) slices f c ts = parseSlices n slices f c ts) \<and>
   (\<forall>ns colons h f ts. parseSlice n ns colons h f ts \<noteq> OutOfFuel \<longrightarrow>
      parseSlice (Suc n) ns colons h f ts = parseSlice n ns colons h f ts)"
proof (induction n)
  case 0
  show ?case by simp
next
  case (Suc n)
  then have E: "\<And>prec ts. parseExpression n prec ts \<noteq> OutOfFuel \<Longrightarrow>
      parseExpression (Suc n) prec ts = parseExpression n prec ts"
    and L: "\<And>prec left ts. parseLoop n prec left ts \<noteq> OutOfFuel \<Longrightarrow>
      parseLoop (Suc n) prec left ts = parseLoop n prec left ts"
    and A: "\<And>ts. parseAtom n ts \<noteq> OutOfFuel \<Longrightarrow> parseAtom (Suc n) ts = parseAtom n ts"
    and G: "\<And>args ts. parseArgs n args ts \<noteq> OutOfFuel \<Longrightarrow>
      parseArgs (Suc n) args ts = parseArgs n args ts"
    and S: "\<And>left ts. parseSubscript n left ts \<noteq> OutOfFuel \<Longrightarrow>
      parseSubscript (Suc n) left ts = parseSubscript n left ts"
    and SS: "\<And>slices f c ts. parseSlices n slices f c ts \<noteq> OutOfFuel \<Longrightarrow>
      parseSlices (Suc n) slices f c ts = parseSlices n slices f c ts"
    and SL: "\<And>ns colons h f ts. parseSlice n ns colons h f ts \<noteq> OutOfFuel \<Longrightarrow>
      parseSlice (Suc n) ns colons h f ts = parseSlice n ns colons h f ts"
    by blast+
  show ?case
  proof (intro conjI allI impI)
    fix prec ts
    assume "parseExpression (Suc n) prec ts \<noteq> OutOfFuel"
    from step_parseExpression [OF A L this]
    show "parseExpression (Suc (Suc n)) prec ts = parseExpression (Suc n) prec ts" by (rule sym)
  next
    fix prec left ts
    assume "parseLoop (Suc n) prec left ts \<noteq> OutOfFuel"
    from step_parseLoop [OF E L G S this]
    show "parseLoop (Suc (Suc n)) prec left ts = parseLoop (Suc n) prec left ts" by (rule sym)
  next
    fix ts
    assume "parseAtom (Suc n) ts \<noteq> OutOfFuel"
    from step_parseAtom [OF E this]
    show "parseAtom (Suc (Suc n)) ts = parseAtom (Suc n) ts" by (rule sym)
  next
    fix args ts
    assume "parseArgs (Suc n) args ts \<noteq> OutOfFuel"
    from step_parseArgs [OF E G this]
    show "parseArgs (Suc (Suc n)) args ts = parseArgs (Suc n) args ts" by (rule sym)
  next
    fix left ts
    assume "parseSubscript (Suc n) left ts \<noteq> OutOfFuel"
    from step_parseSubscript [OF SS this]
    show "parseSubscript (Suc (Suc n)) left ts = parseSubscript (Suc n) left ts" by (rule sym)
  next
    fix slices f c ts
    assume "parseSlices (Suc n) slices f c ts \<noteq> OutOfFuel"
    from step_parseSlices [OF SS SL this]
    show "parseSlices (Suc (Suc n)) slices f c ts = parseSlices (Suc n) slices f c ts" by (rule sym)
  next
    fix ns colons h f ts
    assume "parseSlice (Suc n) ns colons h f ts \<noteq> OutOfFuel"
    from step_parseSlice [OF SL E this]
    show "parseSlice (Suc (Suc n)) ns colons h f ts = parseSlice (Suc n) ns colons h f ts"
      by (rule sym)
  qed
qed

text \<open>Hence any amount more, for an expression, a subscript and a whole parse.\<close>

lemma parseExpression_fuel:
  assumes "parseExpression n prec ts = Ok e r" "n \<le> m"
  shows "parseExpression m prec ts = Ok e r"
  using assms(2)
proof (induction m rule: dec_induct)
  case base
  show ?case by (rule assms(1))
next
  case (step k)
  then have "parseExpression k prec ts \<noteq> OutOfFuel" by simp
  with fuel_step [of k] have "parseExpression (Suc k) prec ts = parseExpression k prec ts" by blast
  with step show ?case by simp
qed

lemma parseSubscript_fuel:
  assumes "parseSubscript n left ts = Ok e r" "n \<le> m"
  shows "parseSubscript m left ts = Ok e r"
  using assms(2)
proof (induction m rule: dec_induct)
  case base
  show ?case by (rule assms(1))
next
  case (step k)
  then have "parseSubscript k left ts \<noteq> OutOfFuel" by simp
  with fuel_step [of k] have "parseSubscript (Suc k) left ts = parseSubscript k left ts" by blast
  with step show ?case by simp
qed

lemma parse_fuel:
  assumes "parse n tokens = Ok e r" "n \<le> m"
  shows "parse m tokens = Ok e r"
proof -
  from assms(1) obtain e' r' where
    "parseExpression n 0 (skipWhitespace tokens) = Ok e' r'"
    by (auto simp: parse_def split: if_splits parsed.splits)
  from parseExpression_fuel [OF this assms(2)] this assms(1) show ?thesis
    by (auto simp: parse_def split: if_splits)
qed

section \<open>AST parser: subscripts\<close>

lemma punctuation_simps:
  "peekPunctuation lit (Punctuation l # ts) = (l = lit)"
  "peekPunctuation lit [] = False"
  "peekPunctuation lit (Operator l # ts) = False"
  "peekPunctuation lit (Embedded v # ts) = False"
  "peekPunctuation lit (Constant l v # ts) = False"
  "peekPunctuation lit (Identifier l # ts) = False"
  "peekPunctuation lit (Whitespace l # ts) = False"
  "tryConsumePunctuation lit (Punctuation l # ts) = (if l = lit then Some ts else None)"
  "tryConsumePunctuation lit [] = None"
  "tryConsumePunctuation lit (Operator l # ts) = None"
  "tryConsumePunctuation lit (Embedded v # ts) = None"
  "tryConsumePunctuation lit (Constant l v # ts) = None"
  "tryConsumePunctuation lit (Identifier l # ts) = None"
  "tryConsumePunctuation lit (Whitespace l # ts) = None"
  by (simp_all add: peekPunctuation_def tryConsumePunctuation_def)

text \<open>The flag \<^verbatim>\<open>isSlicing\<close> is never cleared: once set, both loops return it set.\<close>

lemma parseSlice_flag:
  "parseSlice n ns colons hasExpression True ts = Ok (sl, f) ts' \<Longrightarrow> f"
proof (induction n arbitrary: ns colons hasExpression ts)
  case 0
  then show ?case by simp
next
  case (Suc n)
  from Suc.prems show ?case
    by (auto split: if_splits option.splits parsed.splits dest: Suc.IH)
qed

lemma parseSlices_flag:
  "parseSlices n slices True elementCount ts = Ok (sl, f, c) ts' \<Longrightarrow> f"
proof (induction n arbitrary: slices elementCount ts)
  case 0
  then show ?case by simp
next
  case (Suc n)
  from Suc.prems obtain sl0 f1 ts1 where
    A: "parseSlice n (NodeSlice None None None) 0 False True (skipWhitespace ts) = Ok (sl0, f1) ts1"
    by (auto split: parsed.splits prod.splits)
  then have f1 by (rule parseSlice_flag)
  with Suc.prems A show ?case
    by (auto simp: Let_def split: option.splits dest: Suc.IH)
qed

text \<open>A colon inside a dimension sets the flag, and so does a comma after one.\<close>

lemma parseSlice_colon:
  "parseSlice (Suc n) ns colons hasExpression isSlicing (Punctuation '':'' # rest) =
    parseSlice n ns (colons + 1) hasExpression True rest"
  by (simp add: punctuation_simps)

lemma parseSlices_comma:
  assumes "parseSlice n (NodeSlice None None None) 0 False isSlicing (skipWhitespace ts) = Ok (sl, f) ts1"
    and "skipWhitespace ts1 = Punctuation '','' # rest"
  shows "parseSlices (Suc n) slices isSlicing elementCount ts =
    parseSlices n (case sl of None \<Rightarrow> slices | Some ns \<Rightarrow> slices @ [ns]) True
      (case sl of None \<Rightarrow> elementCount | Some ns \<Rightarrow> elementCount + 1) rest"
  using assms by (simp add: punctuation_simps)

lemma subscriptNode_flagged: "subscriptNode left slices True = SlicingNode left slices"
  by (simp add: subscriptNode_def)

text \<open>One expression followed by the closing bracket.\<close>

lemma parseSubscript_single:
  assumes e: "parseExpression n 0 (t # ts) = Ok e (Punctuation '']'' # rest)"
    and t: "\<not> is_whitespace t" "t \<noteq> Punctuation '']''" "t \<noteq> Punctuation '',''" "t \<noteq> Punctuation '':''"
  shows "parseSubscript (n + 3) left (t # ts) = Ok (IndexingNode left e) rest"
proof -
  from e obtain k where n: "n = Suc k" by (cases n) auto
  from t have sk: "skipWhitespace (t # ts) = t # ts"
    by (simp add: skipWhitespace_def)
  from t have p: "\<not> peekPunctuation '']'' (t # ts)" "\<not> peekPunctuation '','' (t # ts)"
    "tryConsumePunctuation '':'' (t # ts) = None"
    by (auto simp: peekPunctuation_def tryConsumePunctuation_def split: token.splits)
  have "parseSlice (Suc n) (NodeSlice None None None) 0 False False (t # ts) =
      Ok (Some (NodeSlice (Some e) None None), False) (Punctuation '']'' # rest)"
    using e p by (simp add: n punctuation_simps set_slot_def)
  then have "parseSlices (Suc (Suc n)) [] False 0 (t # ts) =
      Ok ([NodeSlice (Some e) None None], False, 1) rest"
    by (simp add: sk skipWhitespace_simps punctuation_simps del: parseSlice.simps)
  then show ?thesis
    using p(1) by (simp add: sk subscriptNode_def numeral_3_eq_3 del: parseSlices.simps)
qed

text \<open>The brackets \<^verbatim>\<open>[:]\<close>, \<^verbatim>\<open>[::]\<close> and \<^verbatim>\<open>[]\<close>.\<close>

lemma parseSubscript_colon:
  "parseSubscript (4 + n) left (Punctuation '':'' # Punctuation '']'' # rest) =
    Ok (SlicingNode left [NodeSlice None None None]) rest"
proof -
  have fuel: "4 + n = Suc (Suc (Suc (Suc n)))" by simp
  show ?thesis unfolding fuel
    by (simp add: skipWhitespace_simps punctuation_simps subscriptNode_def)
qed

lemma parseSubscript_two_colons:
  "parseSubscript (5 + n) left (Punctuation '':'' # Punctuation '':'' # Punctuation '']'' # rest) =
    Ok (SlicingNode left [NodeSlice None None None]) rest"
proof -
  have fuel: "5 + n = Suc (Suc (Suc (Suc (Suc n))))" by simp
  show ?thesis unfolding fuel
    by (simp add: skipWhitespace_simps punctuation_simps subscriptNode_def)
qed

lemma parseSubscript_empty:
  "parseSubscript (Suc n) left (Punctuation '']'' # rest) =
    Fail (Error ''Empty subscript is not allowed'')"
  by (simp add: skipWhitespace_simps punctuation_simps)

lemma parse_trailing_comma:
  "parse 10 [Identifier ''a'', Punctuation ''['', num 1, Punctuation '','', Punctuation '']''] =
    Ok (SlicingNode (IdentifierNode ''a'') [NodeSlice (Some (ValueNode (num 1))) None None]) []"
  by code_simp

lemma parse_subscript_examples:
  "parse 10 [Identifier ''a'', Punctuation ''['', num 1, Punctuation '']''] =
    Ok (IndexingNode (IdentifierNode ''a'') (ValueNode (num 1))) []"
  "parse 10 [Identifier ''a'', Punctuation ''['', Punctuation '':'', Punctuation '']''] =
    Ok (SlicingNode (IdentifierNode ''a'') [NodeSlice None None None]) []"
  "parse 10 [Identifier ''a'', Punctuation ''['', Punctuation '':'', Punctuation '':'', Punctuation '']''] =
    Ok (SlicingNode (IdentifierNode ''a'') [NodeSlice None None None]) []"
  "parse 10 [Identifier ''a'', Punctuation ''['', Punctuation '']''] =
    Fail (Error ''Empty subscript is not allowed'')"
  "parse 10 [Identifier ''a'', Punctuation ''['', num 1, Punctuation '','', num 2, Punctuation '']''] =
    Ok (SlicingNode (IdentifierNode ''a'')
          [NodeSlice (Some (ValueNode (num 1))) None None,
           NodeSlice (Some (ValueNode (num 2))) None None]) []"
  "parse 10 [Identifier ''a'', Punctuation ''['', num 1, Punctuation '':'', Punctuation '']''] =
    Ok (SlicingNode (IdentifierNode ''a'') [NodeSlice (Some (ValueNode (num 1))) None None]) []"
  by code_simp+

text \<open>
  A dimension that ends with the flag still clear was read without a colon: it is
  absent or has a start and nothing else.  The loop of a dimension stops in front
  of a comma or a closing bracket only.
\<close>

lemma parseSlice_unflagged:
  assumes "parseSlice n ns colons hasExpression f0 ts = Ok (sl, False) ts'"
    and "colons = 0" "slice_end ns = None" "slice_step ns = None"
    and "hasExpression \<longrightarrow> slice_start ns \<noteq> None"
  shows "case sl of None \<Rightarrow> True | Some d \<Rightarrow> start_only d"
  using assms
proof (induction n arbitrary: ns hasExpression f0 ts)
  case 0
  then show ?case by simp
next
  case (Suc n)
  show ?case
  proof (cases "peekPunctuation '','' ts \<or> peekPunctuation '']'' ts")
    case True
    with Suc.prems show ?thesis
      by (cases ns) (auto simp: start_only_def split: if_splits)
  next
    case False
    show ?thesis
    proof (cases "tryConsumePunctuation '':'' ts")
      case (Some rest)
      with False Suc.prems(1) have "parseSlice n ns (colons + 1) hasExpression True rest = Ok (sl, False) ts'"
        by simp
      from parseSlice_flag [OF this] show ?thesis by simp
    next
      case None
      with False Suc.prems(1) obtain e ts1 where
        e: "parseExpression n 0 ts = Ok e ts1"
        and r: "parseSlice n (set_slot colons e ns) colons True f0 ts1 = Ok (sl, False) ts'"
        by (auto split: parsed.splits)
      from Suc.prems(2,3,4) have "slice_end (set_slot colons e ns) = None"
        "slice_step (set_slot colons e ns) = None"
        "True \<longrightarrow> slice_start (set_slot colons e ns) \<noteq> None"
        by (cases ns; simp add: set_slot_def)+
      from Suc.IH [OF r Suc.prems(2) this] show ?thesis .
    qed
  qed
qed

lemma parseSlice_stops:
  "parseSlice n ns colons hasExpression f0 ts = Ok r ts' \<Longrightarrow>
    peekPunctuation '','' ts' \<or> peekPunctuation '']'' ts'"
proof (induction n arbitrary: ns colons hasExpression f0 ts)
  case 0
  then show ?case by simp
next
  case (Suc n)
  from Suc.prems show ?case
    by (auto split: if_splits option.splits parsed.splits dest: Suc.IH)
qed

lemma peek_skipWhitespace:
  "peekPunctuation lit ts \<Longrightarrow> skipWhitespace ts = ts"
  by (cases ts) (auto simp: peekPunctuation_def skipWhitespace_def is_whitespace_def
      split: token.splits)

text \<open>So a subscript that ends with the flag clear has read at most one dimension,
  with a start only.\<close>

lemma parseSlices_unflagged:
  assumes "parseSlices n [] f0 0 ts = Ok (slices, False, c) ts'"
  shows "(slices = [] \<and> c = 0) \<or> (\<exists>d. slices = [d] \<and> start_only d)"
proof (cases n)
  case 0
  with assms show ?thesis by simp
next
  case (Suc m)
  from assms Suc obtain sl f1 ts1 where
    A: "parseSlice m (NodeSlice None None None) 0 False f0 (skipWhitespace ts) = Ok (sl, f1) ts1"
    by (auto split: parsed.splits prod.splits)
  from parseSlice_stops [OF A] have stop: "peekPunctuation '','' ts1 \<or> peekPunctuation '']'' ts1" .
  then have sk: "skipWhitespace ts1 = ts1" by (auto dest: peek_skipWhitespace)
  show ?thesis
  proof (cases "tryConsumePunctuation '','' ts1")
    case (Some rest)
    with assms Suc A sk have
      "parseSlices m (case sl of None \<Rightarrow> [] | Some ns \<Rightarrow> [] @ [ns]) True
         (case sl of None \<Rightarrow> 0 | Some ns \<Rightarrow> 0 + 1) rest = Ok (slices, False, c) ts'"
      by (simp add: Let_def)
    from parseSlices_flag [OF this] show ?thesis by simp
  next
    case None
    with stop obtain rest where rest: "tryConsumePunctuation '']'' ts1 = Some rest"
      by (cases ts1) (auto simp: peekPunctuation_def tryConsumePunctuation_def split: token.splits)
    with assms Suc A sk None have r: "slices = (case sl of None \<Rightarrow> [] | Some ns \<Rightarrow> [ns])"
      "f1 = False" "c = (case sl of None \<Rightarrow> 0 | Some ns \<Rightarrow> 1)"
      by (simp_all add: Let_def split: option.splits)
    from A r(2) have "case sl of None \<Rightarrow> True | Some d \<Rightarrow> start_only d"
      by (intro parseSlice_unflagged [where colons = 0 and hasExpression = False]) auto
    with r show ?thesis by (cases sl) auto
  qed
qed

text \<open>
  What a subscript becomes: a Slicing node when the flag is set at the end, an
  Indexing node when it is clear.
\<close>

lemma parseSubscript_node:
  assumes "parseSubscript n left ts = Ok nd ts'"
  shows "\<exists>m slices f c. n = Suc m \<and>
      parseSlices m [] False 0 (skipWhitespace ts) = Ok (slices, f, c) ts' \<and>
      (f \<longrightarrow> nd = SlicingNode left slices) \<and>
      (\<not> f \<longrightarrow> (\<exists>e. slices = [NodeSlice (Some e) None None] \<and> nd = IndexingNode left e))"
proof -
  from assms obtain m where n: "n = Suc m" by (cases n) auto
  from assms n obtain slices f c where
    P: "parseSlices m [] False 0 (skipWhitespace ts) = Ok (slices, f, c) ts'"
    and c: "c \<noteq> 0" and nd: "nd = subscriptNode left slices f"
    by (auto split: if_splits parsed.splits prod.splits)
  have "\<exists>e. slices = [NodeSlice (Some e) None None] \<and> nd = IndexingNode left e" if "\<not> f"
  proof -
    from that P have "parseSlices m [] False 0 (skipWhitespace ts) = Ok (slices, False, c) ts'"
      by simp
    from parseSlices_unflagged [OF this] c obtain d where d: "slices = [d]" "start_only d"
      by auto
    then obtain e where "d = NodeSlice (Some e) None None"
      by (cases d) (auto simp: start_only_def)
    with d nd that show ?thesis by (simp add: subscriptNode_def)
  qed
  with P nd n show ?thesis
    by (auto simp: subscriptNode_flagged)
qed

text \<open>
  An expression does not begin with a comma, a colon or a closing bracket: the
  only punctuation at which an atom begins is the opening parenthesis.
\<close>

lemma parseExpression_punctuation:
  assumes "parseExpression n prec (Punctuation l # ts) = Ok e r"
  shows "l = ''(''"
proof -
  from assms obtain k where n: "n = Suc k" by (cases n) auto
  with assms obtain j where k: "k = Suc j" by (cases k) auto
  from assms show ?thesis
    unfolding n k by (auto simp: skipWhitespace_simps split: if_splits parsed.splits)
qed

lemma skipWhitespace_idem: "skipWhitespace (skipWhitespace ts) = skipWhitespace ts"
  by (simp add: skipWhitespace_def)

subsection \<open>Every bracket\<close>

text \<open>
  The node of every bracket that is written with dimensions and slots.  The
  expressions are any that parse: \<open>k\<close> is a fuel with which each of them does,
  whatever follows it of a colon, a comma or a closing bracket.
\<close>

lemma stops_simps:
  "stops (Punctuation l # ts) = (l = '']'' \<or> l = '','' \<or> l = '':'')"
  "stops [] = False"
  by (auto simp: stops_def punctuation_simps)

lemma first_token:
  assumes "parseExpression k 0 (toks @ rest) = Ok e rest" "stops rest"
  shows "\<not> peekPunctuation '','' (toks @ rest)" "\<not> peekPunctuation '']'' (toks @ rest)"
    "tryConsumePunctuation '':'' (toks @ rest) = None"
proof -
  have "l = ''(''" if "toks @ rest = Punctuation l # r" for l r
    using assms(1) unfolding that by (rule parseExpression_punctuation)
  then show "\<not> peekPunctuation '','' (toks @ rest)" "\<not> peekPunctuation '']'' (toks @ rest)"
    "tryConsumePunctuation '':'' (toks @ rest) = None"
    by (auto simp: peekPunctuation_def tryConsumePunctuation_def split: list.splits token.splits)
qed

lemma parseSlice_stop:
  assumes "peekPunctuation '','' rest \<or> peekPunctuation '']'' rest"
  shows "parseSlice (Suc n) ns colons h f rest =
    Ok (if h \<or> colons > 0 then Some ns else None, f) rest"
  using assms by simp

lemma parseSlice_expression:
  assumes "parseExpression n 0 (toks @ rest) = Ok e rest" "stops rest"
  shows "parseSlice (Suc n) ns colons h f (toks @ rest) =
    parseSlice n (set_slot colons e ns) colons True f rest"
  using assms(1) first_token [OF assms] by simp

text \<open>
  The inner loop on one dimension, from any state of its variables: it reads the
  slots, sets the flag when there is a colon, and stops in front of the comma or
  the closing bracket that follows.
\<close>

lemma parseSlice_slots:
  assumes ok: "\<And>toks e rest. Some (toks, e) \<in> set (s # ss) \<Longrightarrow> stops rest \<Longrightarrow>
      parseExpression k 0 (toks @ rest) = Ok e rest"
    and rest: "peekPunctuation '','' rest \<or> peekPunctuation '']'' rest"
  shows "\<exists>N. \<forall>m \<ge> N. parseSlice m ns colons h f (dim_tokens (s, ss) @ rest) =
      Ok (if h \<or> s \<noteq> None \<or> colons > 0 \<or> ss \<noteq> [] then Some (fill ns colons (s # ss)) else None,
          f \<or> ss \<noteq> []) rest"
  using ok
proof (induction ss arbitrary: s ns colons h f)
  case Nil
  from rest have st: "stops rest" by (auto simp: stops_def)
  show ?case
  proof (cases s)
    case None
    have "parseSlice m ns colons h f (dim_tokens (s, []) @ rest) =
      Ok (if h \<or> s \<noteq> None \<or> colons > 0 \<or> [] \<noteq> [] then Some (fill ns colons [s]) else None,
          f \<or> [] \<noteq> []) rest" if "1 \<le> m" for m
    proof -
      from that obtain n where m: "m = Suc n" by (cases m) auto
      show ?thesis unfolding m using None parseSlice_stop [OF rest]
        by (simp add: dim_tokens_def slot_tokens_def del: parseSlice.simps)
    qed
    then show ?thesis by blast
  next
    case (Some src)
    obtain toks e where src: "src = (toks, e)" by (cases src)
    have p: "parseExpression k 0 (toks @ rest) = Ok e rest"
      using Nil.prems [of toks e rest] st by (simp add: Some src)
    have "parseSlice m ns colons h f (dim_tokens (s, []) @ rest) =
      Ok (if h \<or> s \<noteq> None \<or> colons > 0 \<or> [] \<noteq> [] then Some (fill ns colons [s]) else None,
          f \<or> [] \<noteq> []) rest" if "k + 2 \<le> m" for m
    proof -
      from that obtain n where m: "m = Suc (Suc n)" "k \<le> Suc n"
        by (cases m; cases "m - 1") auto
      from parseExpression_fuel [OF p m(2)]
      have "parseSlice (Suc (Suc n)) ns colons h f (toks @ rest) =
          parseSlice (Suc n) (set_slot colons e ns) colons True f rest"
        using st by (rule parseSlice_expression)
      also have "\<dots> = Ok (Some (set_slot colons e ns), f) rest"
        using parseSlice_stop [OF rest] by (simp del: parseSlice.simps)
      finally show ?thesis
        by (simp add: m Some src dim_tokens_def slot_tokens_def del: parseSlice.simps)
    qed
    then show ?thesis by blast
  qed
next
  case (Cons s' ss')
  have toks: "dim_tokens (s, s' # ss') @ rest =
      slot_tokens s @ Punctuation '':'' # (dim_tokens (s', ss') @ rest)"
    by (simp add: dim_tokens_def)
  have st: "stops (Punctuation '':'' # (dim_tokens (s', ss') @ rest))"
    by (simp add: stops_simps)
  have ok': "\<And>toks e rest. Some (toks, e) \<in> set (s' # ss') \<Longrightarrow> stops rest \<Longrightarrow>
      parseExpression k 0 (toks @ rest) = Ok e rest"
    using Cons.prems by auto
  show ?case
  proof (cases s)
    case None
    from Cons.IH [of s' ns "colons + 1" h True, OF ok'] obtain N where
      N: "\<And>m. N \<le> m \<Longrightarrow> parseSlice m ns (colons + 1) h True (dim_tokens (s', ss') @ rest) =
        Ok (if h \<or> s' \<noteq> None \<or> colons + 1 > 0 \<or> ss' \<noteq> []
            then Some (fill ns (colons + 1) (s' # ss')) else None, True \<or> ss' \<noteq> []) rest"
      by blast
    have "parseSlice m ns colons h f (dim_tokens (s, s' # ss') @ rest) =
      Ok (if h \<or> s \<noteq> None \<or> colons > 0 \<or> s' # ss' \<noteq> []
          then Some (fill ns colons (s # s' # ss')) else None, f \<or> s' # ss' \<noteq> []) rest"
      if "N + 1 \<le> m" for m
    proof -
      from that obtain n where m: "m = Suc n" "N \<le> n" by (cases m) auto
      show ?thesis
        unfolding toks m(1) using N [OF m(2)] None
        by (simp add: slot_tokens_def parseSlice_colon del: parseSlice.simps)
    qed
    then show ?thesis by blast
  next
    case (Some src)
    obtain toks' e where src: "src = (toks', e)" by (cases src)
    have p: "parseExpression k 0 (toks' @ Punctuation '':'' # (dim_tokens (s', ss') @ rest))
        = Ok e (Punctuation '':'' # (dim_tokens (s', ss') @ rest))"
      using Cons.prems [of toks' e] st by (simp add: Some src)
    from Cons.IH [of s' "set_slot colons e ns" "colons + 1" True True, OF ok'] obtain N where
      N: "\<And>m. N \<le> m \<Longrightarrow>
        parseSlice m (set_slot colons e ns) (colons + 1) True True (dim_tokens (s', ss') @ rest) =
        Ok (if True \<or> s' \<noteq> None \<or> colons + 1 > 0 \<or> ss' \<noteq> []
            then Some (fill (set_slot colons e ns) (colons + 1) (s' # ss')) else None,
            True \<or> ss' \<noteq> []) rest"
      by blast
    have "parseSlice m ns colons h f (dim_tokens (s, s' # ss') @ rest) =
      Ok (if h \<or> s \<noteq> None \<or> colons > 0 \<or> s' # ss' \<noteq> []
          then Some (fill ns colons (s # s' # ss')) else None, f \<or> s' # ss' \<noteq> []) rest"
      if "k + N + 2 \<le> m" for m
    proof -
      from that obtain n where m: "m = Suc (Suc n)" "k \<le> Suc n" "N \<le> n"
        by (cases m; cases "m - 1") auto
      from parseExpression_fuel [OF p m(2)]
      have "parseSlice (Suc (Suc n)) ns colons h f
          (toks' @ Punctuation '':'' # (dim_tokens (s', ss') @ rest)) =
          parseSlice (Suc n) (set_slot colons e ns) colons True f
            (Punctuation '':'' # (dim_tokens (s', ss') @ rest))"
        using st by (rule parseSlice_expression)
      also have "\<dots> = parseSlice n (set_slot colons e ns) (colons + 1) True True
            (dim_tokens (s', ss') @ rest)"
        by (rule parseSlice_colon)
      finally show ?thesis
        unfolding toks m(1) using N [OF m(3)] Some src
        by (simp add: slot_tokens_def del: parseSlice.simps)
    qed
    then show ?thesis by blast
  qed
qed


text \<open>The slice has its first three slots; what is behind a third colon is dropped.\<close>

lemma fill_ignore: "3 \<le> c \<Longrightarrow> fill ns c ss = ns"
  by (induction ss arbitrary: c) (auto simp: set_slot_def split: option.splits NodeSlice.splits)

lemma fill_nodes:
  "fill (NodeSlice None None None) 0 slots =
    NodeSlice (nth_node slots 0) (nth_node slots 1) (nth_node slots 2)"
proof -
  consider "slots = []" | s0 where "slots = [s0]" | s0 s1 where "slots = [s0, s1]"
    | s0 s1 s2 others where "slots = s0 # s1 # s2 # others"
    by (cases slots; cases "tl slots"; cases "tl (tl slots)") auto
  then show ?thesis
  proof cases
    case 4
    have "fill ns 3 others = ns" for ns by (rule fill_ignore) simp
    then show ?thesis
      unfolding 4 by (simp add: nth_node_def set_slot_def numeral_3_eq_3 split: option.splits)
  qed (simp_all add: nth_node_def set_slot_def split: option.splits)
qed

text \<open>Whitespace in front of an expression is skipped by the parser of atoms.\<close>

lemma parseAtom_skipWhitespace: "parseAtom n (skipWhitespace ts) = parseAtom n ts"
  by (cases n) (simp_all add: skipWhitespace_idem)

lemma parseExpression_skipWhitespace:
  "parseExpression n prec (skipWhitespace ts) = parseExpression n prec ts"
  by (cases n) (simp_all add: parseAtom_skipWhitespace)

lemma source_strip:
  assumes ok: "\<And>rest. stops rest \<Longrightarrow> parseExpression k 0 (toks @ rest) = Ok e rest"
  shows "skipWhitespace (toks @ others) = skipWhitespace toks @ others"
    and "stops rest \<Longrightarrow> parseExpression k 0 (skipWhitespace toks @ rest) = Ok e rest"
proof -
  have ne: "\<exists>t \<in> set toks. \<not> is_whitespace t"
  proof (rule ccontr)
    assume "\<not> (\<exists>t \<in> set toks. \<not> is_whitespace t)"
    then have "skipWhitespace (toks @ [Punctuation '']'']) = [Punctuation '']'']"
      by (simp add: skipWhitespace_def dropWhile_append2 is_whitespace_def)
    moreover have "parseExpression k 0 (toks @ [Punctuation '']'']) = Ok e [Punctuation '']'']"
      by (rule ok) (simp add: stops_simps)
    ultimately have "parseExpression k 0 [Punctuation '']''] = Ok e [Punctuation '']'']"
      using parseExpression_skipWhitespace [of k 0 "toks @ [Punctuation '']'']"] by simp
    from parseExpression_punctuation [OF this] show False by simp
  qed
  then show s: "skipWhitespace (toks @ others) = skipWhitespace toks @ others" for others
    by (auto simp: skipWhitespace_def dropWhile_append1)
  assume "stops rest"
  from ok [OF this] show "parseExpression k 0 (skipWhitespace toks @ rest) = Ok e rest"
    using parseExpression_skipWhitespace [of k 0 "toks @ rest"] by (simp add: s)
qed


lemma dim_tokens_strip:
  assumes ok: "\<And>toks e rest. fst d = Some (toks, e) \<Longrightarrow> stops rest \<Longrightarrow>
      parseExpression k 0 (toks @ rest) = Ok e rest"
    and X: "peekPunctuation '','' X \<or> peekPunctuation '']'' X"
  shows "skipWhitespace (dim_tokens d @ X) = dim_tokens (strip (fst d), snd d) @ X"
proof (cases "fst d")
  case None
  from X have "skipWhitespace X = X" by (auto dest: peek_skipWhitespace)
  with None show ?thesis
    by (cases "snd d") (simp_all add: dim_tokens_def slot_tokens_def strip_def skipWhitespace_simps)
next
  case (Some src)
  obtain toks e where src: "src = (toks, e)" by (cases src)
  from source_strip(1) [of k toks e] ok [of toks e] Some src
  have "skipWhitespace (toks @ others) = skipWhitespace toks @ others" for others by simp
  with Some src show ?thesis
    by (simp add: dim_tokens_def slot_tokens_def strip_def)
qed

lemma dim_slice_strip: "dim_slice (strip (fst d), snd d) = dim_slice d"
proof -
  have "nth_node (strip s # ss) i = nth_node (s # ss) i" for s ss i
    by (cases i) (auto simp: nth_node_def strip_def option.map_comp comp_def)
  then show ?thesis by (simp add: dim_slice_def strip_def)
qed

lemma parseSlice_dim:
  assumes ok: "\<And>toks e rest. Some (toks, e) \<in> set (fst d # snd d) \<Longrightarrow> stops rest \<Longrightarrow>
      parseExpression k 0 (toks @ rest) = Ok e rest"
    and X: "peekPunctuation '','' X \<or> peekPunctuation '']'' X"
  shows "\<exists>N. \<forall>m \<ge> N.
    parseSlice m (NodeSlice None None None) 0 False f (skipWhitespace (dim_tokens d @ X)) =
      Ok (dim_slice d, f \<or> snd d \<noteq> []) X"
proof -
  have ok': "parseExpression k 0 (toks @ rest) = Ok e rest"
    if "Some (toks, e) \<in> set (strip (fst d) # snd d)" "stops rest" for toks e rest
  proof (cases "Some (toks, e) \<in> set (snd d)")
    case True
    with ok that(2) show ?thesis by simp
  next
    case False
    with that(1) obtain toks0 where f: "fst d = Some (toks0, e)" "toks = skipWhitespace toks0"
      by (cases "fst d") (auto simp: strip_def)
    from ok [of toks0 e] f(1) have "\<And>rest. stops rest \<Longrightarrow> parseExpression k 0 (toks0 @ rest) = Ok e rest"
      by simp
    from source_strip(2) [of k toks0 e, OF this that(2)] show ?thesis by (simp add: f(2))
  qed
  have t: "skipWhitespace (dim_tokens d @ X) = dim_tokens (strip (fst d), snd d) @ X"
  proof (rule dim_tokens_strip [where k = k, OF _ X])
    fix toks e rest
    assume "fst d = Some (toks, e)" "stops rest"
    then show "parseExpression k 0 (toks @ rest) = Ok e rest"
      using ok [of toks e rest] by simp
  qed
  have sl: "(if False \<or> strip (fst d) \<noteq> None \<or> (0::nat) > 0 \<or> snd d \<noteq> []
             then Some (fill (NodeSlice None None None) 0 (strip (fst d) # snd d)) else None)
      = dim_slice d"
    unfolding fill_nodes dim_slice_strip [symmetric, of d]
    by (simp add: dim_slice_def)
  from parseSlice_slots [of "strip (fst d)" "snd d" k X "NodeSlice None None None" 0 False f,
      OF ok' X]
  show ?thesis unfolding t sl by simp
qed

lemma parseSlices_skipWhitespace:
  "parseSlices m slices f c (skipWhitespace ts) = parseSlices m slices f c ts"
  by (cases m) (simp_all add: skipWhitespace_idem)

text \<open>
  The outer loop on the dimensions: every comma sets the flag, every dimension
  that is not empty adds a slice.
\<close>

lemma parseSlices_dims:
  assumes ok: "\<And>toks e rest d'. d' \<in> set (d # ds) \<Longrightarrow> Some (toks, e) \<in> set (fst d' # snd d') \<Longrightarrow>
      stops rest \<Longrightarrow> parseExpression k 0 (toks @ rest) = Ok e rest"
  shows "\<exists>N. \<forall>m \<ge> N.
    parseSlices m slices f c
      (dim_tokens d @ concat (map (\<lambda>d'. Punctuation '','' # dim_tokens d') ds) @
         Punctuation '']'' # rest) =
      Ok (slices @ List.map_filter dim_slice (d # ds),
          f \<or> (\<exists>d' \<in> set (d # ds). snd d' \<noteq> []) \<or> ds \<noteq> [],
          c + length (List.map_filter dim_slice (d # ds))) rest"
  using ok
proof (induction ds arbitrary: d slices f c)
  case Nil
  let ?X = "Punctuation '']'' # rest"
  have X: "peekPunctuation '','' ?X \<or> peekPunctuation '']'' ?X" by (simp add: punctuation_simps)
  have okd: "\<And>toks e rest. Some (toks, e) \<in> set (fst d # snd d) \<Longrightarrow> stops rest \<Longrightarrow>
      parseExpression k 0 (toks @ rest) = Ok e rest"
    by (rule Nil.prems [OF _ _ _, of d]) simp_all
  from parseSlice_dim [of d k ?X f, OF okd X] obtain N where
    N: "\<And>m. N \<le> m \<Longrightarrow>
      parseSlice m (NodeSlice None None None) 0 False f (skipWhitespace (dim_tokens d @ ?X)) =
        Ok (dim_slice d, f \<or> snd d \<noteq> []) ?X"
    by blast
  have "parseSlices m slices f c (dim_tokens d @ concat (map (\<lambda>d'. Punctuation '','' # dim_tokens d') []) @ ?X) =
      Ok (slices @ List.map_filter dim_slice [d],
          f \<or> (\<exists>d' \<in> set [d]. snd d' \<noteq> []) \<or> [] \<noteq> [],
          c + length (List.map_filter dim_slice [d])) rest" if "N + 1 \<le> m" for m
  proof -
    from that obtain n where m: "m = Suc n" "N \<le> n" by (cases m) auto
    show ?thesis
      unfolding m(1) using N [OF m(2)]
      by (cases "dim_slice d")
        (simp_all add: map_filter_simps skipWhitespace_simps punctuation_simps del: parseSlice.simps)
  qed
  then show ?case by blast
next
  case (Cons d1 ds1)
  let ?Y = "dim_tokens d1 @ concat (map (\<lambda>d'. Punctuation '','' # dim_tokens d') ds1) @
         Punctuation '']'' # rest"
  let ?X = "Punctuation '','' # ?Y"
  have X: "peekPunctuation '','' ?X \<or> peekPunctuation '']'' ?X" by (simp add: punctuation_simps)
  have okd: "\<And>toks e rest. Some (toks, e) \<in> set (fst d # snd d) \<Longrightarrow> stops rest \<Longrightarrow>
      parseExpression k 0 (toks @ rest) = Ok e rest"
    by (rule Cons.prems [OF _ _ _, of d]) simp_all
  from parseSlice_dim [of d k ?X f, OF okd X] obtain N1 where
    N1: "\<And>m. N1 \<le> m \<Longrightarrow>
      parseSlice m (NodeSlice None None None) 0 False f (skipWhitespace (dim_tokens d @ ?X)) =
        Ok (dim_slice d, f \<or> snd d \<noteq> []) ?X"
    by blast
  define slices1 where "slices1 = (case dim_slice d of None \<Rightarrow> slices | Some ns \<Rightarrow> slices @ [ns])"
  define c1 where "c1 = (case dim_slice d of None \<Rightarrow> c | Some ns \<Rightarrow> c + 1)"
  have ok1: "parseExpression k 0 (toks @ rest) = Ok e rest"
    if "d' \<in> set (d1 # ds1)" "Some (toks, e) \<in> set (fst d' # snd d')" "stops rest"
    for toks e rest d'
    by (rule Cons.prems [OF _ that(2,3)]) (use that(1) in simp)
  have "\<exists>N. \<forall>m \<ge> N. parseSlices m slices1 True c1 ?Y =
      Ok (slices1 @ List.map_filter dim_slice (d1 # ds1),
          True \<or> (\<exists>d' \<in> set (d1 # ds1). snd d' \<noteq> []) \<or> ds1 \<noteq> [],
          c1 + length (List.map_filter dim_slice (d1 # ds1))) rest"
    by (rule Cons.IH) (rule ok1, assumption+)
  then obtain N2 where
    N2: "\<And>m. N2 \<le> m \<Longrightarrow> parseSlices m slices1 True c1 ?Y =
      Ok (slices1 @ List.map_filter dim_slice (d1 # ds1),
          True \<or> (\<exists>d' \<in> set (d1 # ds1). snd d' \<noteq> []) \<or> ds1 \<noteq> [],
          c1 + length (List.map_filter dim_slice (d1 # ds1))) rest"
    by blast
  have "parseSlices m slices f c
      (dim_tokens d @ concat (map (\<lambda>d'. Punctuation '','' # dim_tokens d') (d1 # ds1)) @
         Punctuation '']'' # rest) =
      Ok (slices @ List.map_filter dim_slice (d # d1 # ds1),
          f \<or> (\<exists>d' \<in> set (d # d1 # ds1). snd d' \<noteq> []) \<or> d1 # ds1 \<noteq> [],
          c + length (List.map_filter dim_slice (d # d1 # ds1))) rest" if "N1 + N2 + 1 \<le> m" for m
  proof -
    from that obtain n where m: "m = Suc n" "N1 \<le> n" "N2 \<le> n" by (cases m) auto
    have t: "dim_tokens d @ concat (map (\<lambda>d'. Punctuation '','' # dim_tokens d') (d1 # ds1)) @
         Punctuation '']'' # rest = dim_tokens d @ ?X" by simp
    have "parseSlices (Suc n) slices f c (dim_tokens d @ ?X) = parseSlices n slices1 True c1 ?Y"
      using parseSlices_comma [OF N1 [OF m(2)], of ?Y slices c]
      by (simp add: skipWhitespace_simps slices1_def c1_def)
    with N2 [OF m(3)] show ?thesis
      unfolding t m(1)
      by (cases "dim_slice d") (simp_all add: map_filter_simps slices1_def c1_def)
  qed
  then show ?case by blast
qed


lemma subscriptNode_bracket:
  "List.map_filter dim_slice (d # ds) \<noteq> [] \<Longrightarrow>
    subscriptNode left (List.map_filter dim_slice (d # ds))
      ((\<exists>d' \<in> set (d # ds). snd d' \<noteq> []) \<or> ds \<noteq> []) = bracket_node left d ds"
  by (cases "fst d")
    (auto simp: subscriptNode_def bracket_node_def map_filter_simps dim_slice_def nth_node_def)

text \<open>
  The bracket: with enough fuel, it fails when it is empty or has commas only, and
  is otherwise the node \<open>bracket_node\<close>, a Slicing node exactly when a dimension
  has a colon or the bracket has a comma.
\<close>

lemma parseSubscript_bracket:
  assumes ok: "\<And>toks e rest d'. d' \<in> set (d # ds) \<Longrightarrow> Some (toks, e) \<in> set (fst d' # snd d') \<Longrightarrow>
      stops rest \<Longrightarrow> parseExpression k 0 (toks @ rest) = Ok e rest"
  shows "\<exists>N. \<forall>m \<ge> N. parseSubscript m left (bracket_tokens d ds @ rest) =
    (if d = (None, []) \<and> ds = [] then Fail (Error ''Empty subscript is not allowed'')
     else if List.map_filter dim_slice (d # ds) = []
       then Fail (Error ''Empty indexing or slicing expression'')
     else Ok (bracket_node left d ds) rest)"
proof -
  let ?X = "concat (map (\<lambda>d'. Punctuation '','' # dim_tokens d') ds) @ Punctuation '']'' # rest"
  have T: "bracket_tokens d ds @ rest = dim_tokens d @ ?X" by (simp add: bracket_tokens_def)
  have X: "peekPunctuation '','' ?X \<or> peekPunctuation '']'' ?X"
    by (cases ds) (simp_all add: punctuation_simps)
  have okd: "parseExpression k 0 (toks @ rest) = Ok e rest"
    if "Some (toks, e) \<in> set (fst d # snd d)" "stops rest" for toks e rest
    by (rule ok [OF _ that]) simp
  have sk: "skipWhitespace (dim_tokens d @ ?X) = dim_tokens (strip (fst d), snd d) @ ?X"
  proof (rule dim_tokens_strip [where k = k, OF _ X])
    fix toks e rest
    assume "fst d = Some (toks, e)" "stops rest"
    then show "parseExpression k 0 (toks @ rest) = Ok e rest"
      using okd [of toks e rest] by simp
  qed
  have pk: "peekPunctuation '']'' (skipWhitespace (dim_tokens d @ ?X)) = (d = (None, []) \<and> ds = [])"
  proof (cases "fst d")
    case None
    show ?thesis
    proof (cases "snd d")
      case Nil
      with None have d: "d = (None, [])" by (cases d) simp
      show ?thesis unfolding sk
        by (cases ds) (simp_all add: d dim_tokens_def slot_tokens_def strip_def punctuation_simps)
    next
      case (Cons s ss)
      with None have "d \<noteq> (None, [])" by auto
      with None Cons show ?thesis unfolding sk
        by (simp add: dim_tokens_def slot_tokens_def strip_def punctuation_simps)
    qed
  next
    case (Some src)
    obtain toks e where src: "src = (toks, e)" by (cases src)
    let ?Z = "concat (map (\<lambda>s. Punctuation '':'' # slot_tokens s) (snd d)) @ ?X"
    have Z: "stops ?Z"
      by (cases "snd d"; cases ds) (simp_all add: stops_simps)
    have "\<And>rest. stops rest \<Longrightarrow> parseExpression k 0 (toks @ rest) = Ok e rest"
      using okd [of toks e] Some src by simp
    from source_strip(2) [of k toks e, OF this Z]
    have "parseExpression k 0 (skipWhitespace toks @ ?Z) = Ok e ?Z" .
    from first_token(2) [OF this Z] Some src show ?thesis
      unfolding sk by (auto simp: dim_tokens_def slot_tokens_def strip_def)
  qed
  have "\<exists>N. \<forall>m \<ge> N. parseSlices m [] False 0 (dim_tokens d @ ?X) =
      Ok ([] @ List.map_filter dim_slice (d # ds),
          False \<or> (\<exists>d' \<in> set (d # ds). snd d' \<noteq> []) \<or> ds \<noteq> [],
          0 + length (List.map_filter dim_slice (d # ds))) rest"
    by (rule parseSlices_dims) (rule ok, assumption+)
  then obtain N where
    N: "\<And>m. N \<le> m \<Longrightarrow> parseSlices m [] False 0 (dim_tokens d @ ?X) =
      Ok ([] @ List.map_filter dim_slice (d # ds),
          False \<or> (\<exists>d' \<in> set (d # ds). snd d' \<noteq> []) \<or> ds \<noteq> [],
          0 + length (List.map_filter dim_slice (d # ds))) rest"
    by blast
  have "parseSubscript m left (bracket_tokens d ds @ rest) =
    (if d = (None, []) \<and> ds = [] then Fail (Error ''Empty subscript is not allowed'')
     else if List.map_filter dim_slice (d # ds) = []
       then Fail (Error ''Empty indexing or slicing expression'')
     else Ok (bracket_node left d ds) rest)" if "N + 1 \<le> m" for m
  proof -
    from that obtain n where m: "m = Suc n" "N \<le> n" by (cases m) auto
    show ?thesis
      unfolding T m(1)
      using N [OF m(2)] pk subscriptNode_bracket [of d ds left]
      by (simp add: parseSlices_skipWhitespace del: parseSlices.simps)
  qed
  then show ?thesis by blast
qed


lemma num_source:
  assumes "stops rest"
  shows "parseExpression 3 0 (num n # rest) = Ok (ValueNode (num n)) rest"
    and "parseExpression 3 0 (Whitespace w # num n # rest) = Ok (ValueNode (num n)) rest"
proof -
  from assms obtain l r where rest: "rest = Punctuation l # r" "l = '']'' \<or> l = '','' \<or> l = '':''"
    by (cases rest) (auto simp: stops_def peekPunctuation_def split: token.splits)
  show "parseExpression 3 0 (num n # rest) = Ok (ValueNode (num n)) rest"
    "parseExpression 3 0 (Whitespace w # num n # rest) = Ok (ValueNode (num n)) rest"
    using rest by (auto simp: numeral_3_eq_3 num_def skipWhitespace_simps)
qed

text \<open>
  Examples: \<^verbatim>\<open>[1:3]\<close>, \<^verbatim>\<open>[:2]\<close>, \<^verbatim>\<open>[1, 2]\<close>, \<^verbatim>\<open>[1]\<close>, \<^verbatim>\<open>[1,]\<close>, \<^verbatim>\<open>[::]\<close> and \<^verbatim>\<open>[,]\<close>, the
  tokens after the opening bracket.
\<close>

lemma bracket_examples:
  "\<exists>N. \<forall>m \<ge> N. parseSubscript m left
      [num 1, Punctuation '':'', num 3, Punctuation '']''] =
     Ok (SlicingNode left
           [NodeSlice (Some (ValueNode (num 1))) (Some (ValueNode (num 3))) None]) []"
  "\<exists>N. \<forall>m \<ge> N. parseSubscript m left
      [Punctuation '':'', num 2, Punctuation '']''] =
     Ok (SlicingNode left [NodeSlice None (Some (ValueNode (num 2))) None]) []"
  "\<exists>N. \<forall>m \<ge> N. parseSubscript m left
      [num 1, Punctuation '','', Whitespace '' '', num 2, Punctuation '']''] =
     Ok (SlicingNode left
           [NodeSlice (Some (ValueNode (num 1))) None None,
            NodeSlice (Some (ValueNode (num 2))) None None]) []"
  "\<exists>N. \<forall>m \<ge> N. parseSubscript m left
      [num 1, Punctuation '']''] =
     Ok (IndexingNode left (ValueNode (num 1))) []"
  "\<exists>N. \<forall>m \<ge> N. parseSubscript m left
      [num 1, Punctuation '','', Punctuation '']''] =
     Ok (SlicingNode left [NodeSlice (Some (ValueNode (num 1))) None None]) []"
  "\<exists>N. \<forall>m \<ge> N. parseSubscript m left
      [Punctuation '':'', Punctuation '':'', Punctuation '']''] =
     Ok (SlicingNode left [NodeSlice None None None]) []"
  "\<exists>N. \<forall>m \<ge> N. parseSubscript m left
      [Punctuation '','', Punctuation '']''] =
     Fail (Error ''Empty indexing or slicing expression'')"
proof -
  have "parseExpression 3 0 (toks @ rest) = Ok e rest"
    if "d' \<in> set ((Some ([num 1], ValueNode (num 1)), [Some ([num 3], ValueNode (num 3))]) # [])"
      "Some (toks, e) \<in> set (fst d' # snd d')" "stops rest" for toks e rest d'
    using that by (auto simp: num_source)
  from parseSubscript_bracket [of "(Some ([num 1], ValueNode (num 1)), [Some ([num 3], ValueNode (num 3))])" "[]" 3 left "[]", OF this]
  show "\<exists>N. \<forall>m \<ge> N. parseSubscript m left
      [num 1, Punctuation '':'', num 3, Punctuation '']''] =
     Ok (SlicingNode left
           [NodeSlice (Some (ValueNode (num 1))) (Some (ValueNode (num 3))) None]) []"
    by (simp add: bracket_tokens_def dim_tokens_def slot_tokens_def bracket_node_def
        map_filter_simps dim_slice_def nth_node_def)
  have "parseExpression 3 0 (toks @ rest) = Ok e rest"
    if "d' \<in> set ((None, [Some ([num 2], ValueNode (num 2))]) # [])"
      "Some (toks, e) \<in> set (fst d' # snd d')" "stops rest" for toks e rest d'
    using that by (auto simp: num_source)
  from parseSubscript_bracket [of "(None, [Some ([num 2], ValueNode (num 2))])" "[]" 3 left "[]", OF this]
  show "\<exists>N. \<forall>m \<ge> N. parseSubscript m left
      [Punctuation '':'', num 2, Punctuation '']''] =
     Ok (SlicingNode left [NodeSlice None (Some (ValueNode (num 2))) None]) []"
    by (simp add: bracket_tokens_def dim_tokens_def slot_tokens_def bracket_node_def
        map_filter_simps dim_slice_def nth_node_def)
  have "parseExpression 3 0 (toks @ rest) = Ok e rest"
    if "d' \<in> set ((Some ([num 1], ValueNode (num 1)), []) # [(Some ([Whitespace '' '', num 2], ValueNode (num 2)), [])])"
      "Some (toks, e) \<in> set (fst d' # snd d')" "stops rest" for toks e rest d'
    using that by (auto simp: num_source)
  from parseSubscript_bracket [of "(Some ([num 1], ValueNode (num 1)), [])" "[(Some ([Whitespace '' '', num 2], ValueNode (num 2)), [])]" 3 left "[]", OF this]
  show "\<exists>N. \<forall>m \<ge> N. parseSubscript m left
      [num 1, Punctuation '','', Whitespace '' '', num 2, Punctuation '']''] =
     Ok (SlicingNode left
           [NodeSlice (Some (ValueNode (num 1))) None None,
            NodeSlice (Some (ValueNode (num 2))) None None]) []"
    by (simp add: bracket_tokens_def dim_tokens_def slot_tokens_def bracket_node_def
        map_filter_simps dim_slice_def nth_node_def)
  have "parseExpression 3 0 (toks @ rest) = Ok e rest"
    if "d' \<in> set ((Some ([num 1], ValueNode (num 1)), []) # [])"
      "Some (toks, e) \<in> set (fst d' # snd d')" "stops rest" for toks e rest d'
    using that by (auto simp: num_source)
  from parseSubscript_bracket [of "(Some ([num 1], ValueNode (num 1)), [])" "[]" 3 left "[]", OF this]
  show "\<exists>N. \<forall>m \<ge> N. parseSubscript m left
      [num 1, Punctuation '']''] =
     Ok (IndexingNode left (ValueNode (num 1))) []"
    by (simp add: bracket_tokens_def dim_tokens_def slot_tokens_def bracket_node_def
        map_filter_simps dim_slice_def nth_node_def)
  have "parseExpression 3 0 (toks @ rest) = Ok e rest"
    if "d' \<in> set ((Some ([num 1], ValueNode (num 1)), []) # [(None, [])])"
      "Some (toks, e) \<in> set (fst d' # snd d')" "stops rest" for toks e rest d'
    using that by (auto simp: num_source)
  from parseSubscript_bracket [of "(Some ([num 1], ValueNode (num 1)), [])" "[(None, [])]" 3 left "[]", OF this]
  show "\<exists>N. \<forall>m \<ge> N. parseSubscript m left
      [num 1, Punctuation '','', Punctuation '']''] =
     Ok (SlicingNode left [NodeSlice (Some (ValueNode (num 1))) None None]) []"
    by (simp add: bracket_tokens_def dim_tokens_def slot_tokens_def bracket_node_def
        map_filter_simps dim_slice_def nth_node_def)
  have "parseExpression 3 0 (toks @ rest) = Ok e rest"
    if "d' \<in> set ((None, [None, None]) # [])"
      "Some (toks, e) \<in> set (fst d' # snd d')" "stops rest" for toks e rest d'
    using that by (auto simp: num_source)
  from parseSubscript_bracket [of "(None, [None, None])" "[]" 3 left "[]", OF this]
  show "\<exists>N. \<forall>m \<ge> N. parseSubscript m left
      [Punctuation '':'', Punctuation '':'', Punctuation '']''] =
     Ok (SlicingNode left [NodeSlice None None None]) []"
    by (simp add: bracket_tokens_def dim_tokens_def slot_tokens_def bracket_node_def
        map_filter_simps dim_slice_def nth_node_def)
  have "parseExpression 3 0 (toks @ rest) = Ok e rest"
    if "d' \<in> set ((None, []) # [(None, [])])"
      "Some (toks, e) \<in> set (fst d' # snd d')" "stops rest" for toks e rest d'
    using that by (auto simp: num_source)
  from parseSubscript_bracket [of "(None, [])" "[(None, [])]" 3 left "[]", OF this]
  show "\<exists>N. \<forall>m \<ge> N. parseSubscript m left
      [Punctuation '','', Punctuation '']''] =
     Fail (Error ''Empty indexing or slicing expression'')"
    by (simp add: bracket_tokens_def dim_tokens_def slot_tokens_def bracket_node_def
        map_filter_simps dim_slice_def nth_node_def)
qed

subsection \<open>The trailing comma\<close>

text \<open>
  Claim C7 (a bracket is a Slicing node exactly when some dimension contains a
  colon or there is more than one dimension; one comma-free, colon-free expression
  is an Indexing node): the parser sets its flag \<^verbatim>\<open>isSlicing\<close> at every comma it
  consumes after a dimension, also at a comma that no dimension follows.  So a
  bracket with one colon-free expression \<open>e\<close> and a trailing comma is a Slicing node
  with the one dimension \<open>e\<close>, where the claim has no Slicing node (no colon, one
  dimension), and where the same bracket without the comma is the Indexing node
  on \<open>e\<close> (lemma \<open>parseSubscript_single\<close>).  The tokens \<open>ts0\<close> are those after the
  opening bracket, \<open>t # ts\<close> the expression and what follows it; \<open>n\<close> is any fuel
  with which the expression parses, and the subscript has its node with any fuel
  from \<open>n + 3\<close> on.  Apart from the comma that no dimension follows, the rule of
  the claim is that of the parser (lemma \<open>parseSubscript_bracket\<close>).
\<close>

theorem trailing_comma_is_slicing:
  assumes ts0: "skipWhitespace ts0 = t # ts"
    and e: "parseExpression n 0 (t # ts) = Ok e (Punctuation '','' # r2)"
    and r2: "skipWhitespace r2 = Punctuation '']'' # rest"
    and m: "n + 3 \<le> m"
  shows "parseSubscript m left ts0 =
    Ok (SlicingNode left [NodeSlice (Some e) None None]) rest"
proof -
  from e obtain k where n: "n = Suc k" by (cases n) auto
  have sk: "skipWhitespace (t # ts) = t # ts"
    using skipWhitespace_idem [of ts0] by (simp add: ts0)
  have t: "t \<noteq> Punctuation '']''" "t \<noteq> Punctuation '',''" "t \<noteq> Punctuation '':''"
    using e by (auto dest: parseExpression_punctuation)
  then have p: "\<not> peekPunctuation '']'' (t # ts)" "\<not> peekPunctuation '','' (t # ts)"
    "tryConsumePunctuation '':'' (t # ts) = None"
    by (auto simp: peekPunctuation_def tryConsumePunctuation_def split: token.splits)
  have 1: "parseSlice (Suc n) (NodeSlice None None None) 0 False False (t # ts) =
      Ok (Some (NodeSlice (Some e) None None), False) (Punctuation '','' # r2)"
    using e p by (simp add: n punctuation_simps set_slot_def)
  have 2: "parseSlices (Suc n) [NodeSlice (Some e) None None] True 1 r2 =
      Ok ([NodeSlice (Some e) None None], True, 1) rest"
    by (simp add: n r2 skipWhitespace_simps punctuation_simps)
  have "parseSlices (Suc (Suc n)) [] False 0 (t # ts) =
      parseSlices (Suc n) [NodeSlice (Some e) None None] True 1 r2"
    using parseSlices_comma [of "Suc n" False "t # ts" "Some (NodeSlice (Some e) None None)" False
        "Punctuation '','' # r2" r2 "[]" 0]
      1 by (simp add: sk skipWhitespace_simps)
  with 2 have "parseSlices (Suc (Suc n)) [] False 0 (t # ts) =
      Ok ([NodeSlice (Some e) None None], True, 1) rest" by simp
  then have "parseSubscript (n + 3) left ts0 =
      Ok (SlicingNode left [NodeSlice (Some e) None None]) rest"
    using p(1) by (simp add: ts0 subscriptNode_def numeral_3_eq_3 del: parseSlices.simps)
  then show ?thesis using m by (rule parseSubscript_fuel)
qed

text \<open>
  On \<^verbatim>\<open>a[1,]\<close>: the bracket is a Slicing node with the single dimension \<open>1\<close>, and
  so is the whole parse; the tokens hold no colon.  Without the comma, \<^verbatim>\<open>a[1]\<close>
  is an Indexing node.
\<close>

theorem trailing_comma_is_slicing_witness:
  "parseSubscript 6 (IdentifierNode ''a'') [num 1, Punctuation '','', Punctuation '']'']
     = Ok (SlicingNode (IdentifierNode ''a'') [NodeSlice (Some (ValueNode (num 1))) None None]) [] \<and>
   parse 10 [Identifier ''a'', Punctuation ''['', num 1, Punctuation '','', Punctuation '']''] =
     Ok (SlicingNode (IdentifierNode ''a'') [NodeSlice (Some (ValueNode (num 1))) None None]) [] \<and>
   Punctuation '':'' \<notin> set [Identifier ''a'', Punctuation ''['', num 1, Punctuation '','', Punctuation '']''] \<and>
   parse 10 [Identifier ''a'', Punctuation ''['', num 1, Punctuation '']''] =
     Ok (IndexingNode (IdentifierNode ''a'') (ValueNode (num 1))) []"
proof -
  have sk: "skipWhitespace [num 1, Punctuation '','', Punctuation '']'']
      = num 1 # [Punctuation '','', Punctuation '']'']"
    by (simp add: num_def skipWhitespace_simps)
  have e: "parseExpression 3 0 (num 1 # [Punctuation '','', Punctuation '']''])
      = Ok (ValueNode (num 1)) (Punctuation '','' # [Punctuation '']''])"
    by code_simp
  have r2: "skipWhitespace [Punctuation '']''] = Punctuation '']'' # []"
    by (simp add: skipWhitespace_simps)
  have m: "3 + 3 \<le> (6::nat)" by simp
  have 1: "parseSubscript 6 (IdentifierNode ''a'') [num 1, Punctuation '','', Punctuation '']'']
     = Ok (SlicingNode (IdentifierNode ''a'') [NodeSlice (Some (ValueNode (num 1))) None None]) []"
    by (rule trailing_comma_is_slicing [OF sk e r2 m])
  have 2: "Punctuation '':'' \<notin> set [Identifier ''a'', Punctuation ''['', num 1, Punctuation '','', Punctuation '']'']"
    by (simp add: num_def)
  from 1 parse_trailing_comma 2 parse_subscript_examples(1) show ?thesis by (intro conjI)
qed

end
